theory Spec2Isabelle
  imports Complex_Main
begin

section \<open>Values, arrays and errors\<close>

text \<open>
  The program is the coupled solver of \<^verbatim>\<open>perthame_edp/model\<close>: the memoised integral
  functionals of \<^verbatim>\<open>integral_functional.py\<close> and the time-stepping solvers and driver of
  \<^verbatim>\<open>solver.py\<close>. A one-dimensional numpy array is a list of reals, a two-dimensional one a
  list of rows; floating-point numbers are read as reals. Every exception of the source
  is a value of \<open>error\<close>, and a method that mutates its object returns the object as it
  is when the method ends, next to its result or its exception. Indices are natural
  numbers: an index past the end raises an IndexError, and the negative indices of numpy,
  which count from the end, are not modelled.
\<close>

datatype error = TypeError | ValueError | IndexError | ShapeMismatch | DomainValidation

type_synonym vec = "real list"
type_synonym matrix = "real list list"
type_synonym mask = "bool list list"

text \<open>
  \<^verbatim>\<open>scipy.integrate.simpson(samples, x=mesh)\<close> is a routine of a library, taken as a
  parameter of every definition that reaches it.
\<close>

type_synonym quadrature = "vec \<Rightarrow> vec \<Rightarrow> real"

definition in_range2 :: "'a list list \<Rightarrow> nat \<Rightarrow> nat \<Rightarrow> bool" where
  "in_range2 A n j \<longleftrightarrow> n < length A \<and> j < length (A ! n)"

definition set_entry :: "'a list list \<Rightarrow> nat \<Rightarrow> nat \<Rightarrow> 'a \<Rightarrow> 'a list list" where
  "set_entry A n j v = A[n := (A ! n)[j := v]]"

definition wf_matrix :: "nat \<Rightarrow> nat \<Rightarrow> 'a list list \<Rightarrow> bool" where
  "wf_matrix rows cols A \<longleftrightarrow> length A = rows \<and> list_all (\<lambda>r. length r = cols) A"

text \<open>
  Elementwise arithmetic of numpy on arrays of one shape. Every method below checks that
  the operands have one length before it combines them and raises a ValueError
  otherwise, as numpy does for two rows of a mesh (which have at least two entries);
  the broadcasting of an operand of length one is not modelled.
\<close>

definition np_mul :: "vec \<Rightarrow> vec \<Rightarrow> vec" where
  "np_mul a b = map2 (*) a b"

definition np_add :: "vec \<Rightarrow> vec \<Rightarrow> vec" where
  "np_add a b = map2 (+) a b"

definition np_div :: "vec \<Rightarrow> vec \<Rightarrow> vec" where
  "np_div a b = map2 (/) a b"

definition np_neg :: "vec \<Rightarrow> vec" where
  "np_neg a = map uminus a"

definition scalar_mul :: "real \<Rightarrow> vec \<Rightarrow> vec" where
  "scalar_mul c a = map (\<lambda>v. c * v) a"

definition scalar_add :: "real \<Rightarrow> vec \<Rightarrow> vec" where
  "scalar_add c a = map (\<lambda>v. c + v) a"

definition scalar_sub :: "real \<Rightarrow> vec \<Rightarrow> vec" where
  "scalar_sub c a = map (\<lambda>v. c - v) a"

text \<open>\<^verbatim>\<open>K[:, k]\<close>: column \<open>k\<close> of a two-dimensional array.\<close>

definition column :: "matrix \<Rightarrow> nat \<Rightarrow> vec" where
  "column A k = map (\<lambda>row. row ! k) A"

subsection \<open>The mask of the base class\<close>

text \<open>
  Modelled from the spec: \<^verbatim>\<open>_create_mask\<close>, \<^verbatim>\<open>_update_mask_row\<close> and
  \<^verbatim>\<open>_is_row_calculated\<close> of \<^verbatim>\<open>AbstractDiscreteFunction\<close> (discrete_function.py). The
  mask is a boolean matrix of the shape of the cache matrix, all \<open>False\<close> at first; a
  row-level update writes one value over a whole row; a row is marked computed when all
  its entries are \<open>True\<close>.
\<close>

definition create_mask :: "nat \<Rightarrow> nat \<Rightarrow> mask" where
  "create_mask rows cols = replicate rows (replicate cols False)"

definition update_mask_row :: "nat \<Rightarrow> bool \<Rightarrow> mask \<Rightarrow> mask" where
  "update_mask_row n v m = m[n := replicate (length (m ! n)) v]"

definition is_row_calculated :: "nat \<Rightarrow> mask \<Rightarrow> bool" where
  "is_row_calculated n m = list_all (\<lambda>b. b) (m ! n)"

text \<open>
  Modelled from the spec: \<^verbatim>\<open>validate_nth_row\<close> of \<^verbatim>\<open>perthame_edp/utils/validators.py\<close>.
  It fails with a ShapeMismatch error if the length of the row disagrees with the length
  of the row it is to replace.
\<close>

definition validate_nth_row :: "vec \<Rightarrow> vec \<Rightarrow> error + unit" where
  "validate_nth_row row nth_row =
     (if length row = length nth_row then Inr () else Inl ShapeMismatch)"

section \<open>The integral functionals\<close>

subsection \<open>FunctionalF\<close>

text \<open>
  The attributes of a \<^verbatim>\<open>FunctionalF\<close> object: the mesh sizes and the mesh \<open>y\<close>, the kernel
  \<open>K\<close> (\<open>N+2\<close> rows of \<open>M+2\<close> entries), the private copy \<open>_R\<close> of the resource field
  (\<open>T+1\<close> rows of \<open>M+2\<close> entries), the cache \<open>_matrix\<close> and its \<open>_mask\<close> (\<open>T+1\<close> rows of
  \<open>N+2\<close> entries). \<open>F_quad_calls\<close> is not an attribute of the source: it counts the calls
  of \<^verbatim>\<open>simpson\<close> the object has made.
\<close>

record functionalF =
  F_N :: nat
  F_M :: nat
  F_T :: nat
  F_y :: vec
  F_K :: matrix
  F_R :: matrix
  F_matrix :: matrix
  F_mask :: mask
  F_quad_calls :: nat

definition wf_F :: "functionalF \<Rightarrow> bool" where
  "wf_F F \<longleftrightarrow>
     length (F_y F) = F_M F + 2 \<and>
     wf_matrix (F_N F + 2) (F_M F + 2) (F_K F) \<and>
     wf_matrix (F_T F + 1) (F_M F + 2) (F_R F) \<and>
     wf_matrix (F_T F + 1) (F_N F + 2) (F_matrix F) \<and>
     wf_matrix (F_T F + 1) (F_N F + 2) (F_mask F)"

text \<open>
  \<^verbatim>\<open>FunctionalF.actualize_row(row, n)\<close>. The row is validated against \<^verbatim>\<open>self.R[n]\<close>
  before anything is written.
\<close>

definition FunctionalF_actualize_row ::
    "vec \<Rightarrow> nat \<Rightarrow> functionalF \<Rightarrow> (error + unit) \<times> functionalF" where
  "FunctionalF_actualize_row row n F =
     (if \<not> n < length (F_R F) then (Inl IndexError, F)
      else (case validate_nth_row row (F_R F ! n) of
        Inl e \<Rightarrow> (Inl e, F)
      | Inr _ \<Rightarrow>
          (let F1 = F\<lparr>F_R := (F_R F)[n := row]\<rparr> in
           if \<not> n < length (F_mask F1) then (Inl IndexError, F1)
           else (Inr (), F1\<lparr>F_mask := update_mask_row n False (F_mask F1)\<rparr>))))"

text \<open>
  \<^verbatim>\<open>FunctionalF.__call__(n, j)\<close>: the integral over \<open>y\<close> of \<open>K[j] * R[n]\<close>, computed when
  the mask entry is \<open>False\<close> and read from the cache otherwise.
\<close>

definition FunctionalF_call ::
    "quadrature \<Rightarrow> nat \<Rightarrow> nat \<Rightarrow> functionalF \<Rightarrow> (error + real) \<times> functionalF" where
  "FunctionalF_call simpson n j F =
     (if \<not> in_range2 (F_mask F) n j then (Inl IndexError, F)
      else if \<not> F_mask F ! n ! j then
        (if \<not> j < length (F_K F) then (Inl IndexError, F)
         else if \<not> n < length (F_R F) then (Inl IndexError, F)
         else if length (F_K F ! j) \<noteq> length (F_R F ! n) then (Inl ValueError, F)
         else if length (F_K F ! j) \<noteq> length (F_y F) then (Inl ValueError, F)
         else
           (let array_to_integrate = np_mul (F_K F ! j) (F_R F ! n);
                integral_value = simpson array_to_integrate (F_y F);
                F1 = F\<lparr>F_quad_calls := Suc (F_quad_calls F)\<rparr>
            in if \<not> in_range2 (F_matrix F1) n j then (Inl IndexError, F1)
               else (Inr integral_value,
                     F1\<lparr>F_matrix := set_entry (F_matrix F1) n j integral_value,
                        F_mask := set_entry (F_mask F1) n j True\<rparr>)))
      else if \<not> in_range2 (F_matrix F) n j then (Inl IndexError, F)
      else (Inr (F_matrix F ! n ! j), F))"

text \<open>
  Modelled from the spec: \<^verbatim>\<open>__getitem__\<close> of \<^verbatim>\<open>AbstractDiscreteFunction\<close> on a
  functional. \<^verbatim>\<open>F[n]\<close> is the vector, over the \<open>N+2\<close> trait points, of the values of the
  functional at time row \<open>n\<close>, each evaluated lazily by \<^verbatim>\<open>__call__\<close>.
\<close>

fun FunctionalF_row ::
    "quadrature \<Rightarrow> nat \<Rightarrow> nat list \<Rightarrow> functionalF \<Rightarrow> (error + vec) \<times> functionalF" where
  "FunctionalF_row simpson n [] F = (Inr [], F)"
| "FunctionalF_row simpson n (j # js) F =
     (case FunctionalF_call simpson n j F of
        (Inl e, F1) \<Rightarrow> (Inl e, F1)
      | (Inr v, F1) \<Rightarrow>
          (case FunctionalF_row simpson n js F1 of
             (Inl e, F2) \<Rightarrow> (Inl e, F2)
           | (Inr vs, F2) \<Rightarrow> (Inr (v # vs), F2)))"

definition FunctionalF_getitem ::
    "quadrature \<Rightarrow> nat \<Rightarrow> functionalF \<Rightarrow> (error + vec) \<times> functionalF" where
  "FunctionalF_getitem simpson n F = FunctionalF_row simpson n [0..<F_N F + 2] F"

subsection \<open>FunctionalG\<close>

text \<open>
  The attributes of a \<^verbatim>\<open>FunctionalG\<close> object: the mesh \<open>x\<close>, the rate \<open>r\<close> (\<open>N+2\<close>
  entries), the kernel \<open>K\<close>, the private copy \<open>_u\<close> of the population field (\<open>T+1\<close> rows
  of \<open>N+2\<close> entries), the cache \<open>_matrix\<close> and its \<open>_mask\<close> (\<open>T+1\<close> rows of \<open>M+2\<close>
  entries), and the count of the calls of \<^verbatim>\<open>simpson\<close>.
\<close>

record functionalG =
  G_N :: nat
  G_M :: nat
  G_T :: nat
  G_x :: vec
  G_r :: vec
  G_K :: matrix
  G_u :: matrix
  G_matrix :: matrix
  G_mask :: mask
  G_quad_calls :: nat

definition wf_G :: "functionalG \<Rightarrow> bool" where
  "wf_G G \<longleftrightarrow>
     length (G_x G) = G_N G + 2 \<and>
     length (G_r G) = G_N G + 2 \<and>
     wf_matrix (G_N G + 2) (G_M G + 2) (G_K G) \<and>
     wf_matrix (G_T G + 1) (G_N G + 2) (G_u G) \<and>
     wf_matrix (G_T G + 1) (G_M G + 2) (G_matrix G) \<and>
     wf_matrix (G_T G + 1) (G_M G + 2) (G_mask G)"

text \<open>\<^verbatim>\<open>FunctionalG.actualize_row(row, n)\<close>, validated against \<^verbatim>\<open>self._u[n]\<close>.\<close>

definition FunctionalG_actualize_row ::
    "vec \<Rightarrow> nat \<Rightarrow> functionalG \<Rightarrow> (error + unit) \<times> functionalG" where
  "FunctionalG_actualize_row row n G =
     (if \<not> n < length (G_u G) then (Inl IndexError, G)
      else (case validate_nth_row row (G_u G ! n) of
        Inl e \<Rightarrow> (Inl e, G)
      | Inr _ \<Rightarrow>
          (let G1 = G\<lparr>G_u := (G_u G)[n := row]\<rparr> in
           if \<not> n < length (G_mask G1) then (Inl IndexError, G1)
           else (Inr (), G1\<lparr>G_mask := update_mask_row n False (G_mask G1)\<rparr>))))"

text \<open>
  \<^verbatim>\<open>FunctionalG.__call__(n, k)\<close>: the integral over \<open>x\<close> of \<open>r * K[:, k] * u[n]\<close>.
\<close>

definition FunctionalG_call ::
    "quadrature \<Rightarrow> nat \<Rightarrow> nat \<Rightarrow> functionalG \<Rightarrow> (error + real) \<times> functionalG" where
  "FunctionalG_call simpson n k G =
     (if \<not> in_range2 (G_mask G) n k then (Inl IndexError, G)
      else if \<not> G_mask G ! n ! k then
        (if \<not> list_all (\<lambda>row. k < length row) (G_K G) then (Inl IndexError, G)
         else if length (G_r G) \<noteq> length (G_K G) then (Inl ValueError, G)
         else if \<not> n < length (G_u G) then (Inl IndexError, G)
         else if length (G_r G) \<noteq> length (G_u G ! n) then (Inl ValueError, G)
         else if length (G_r G) \<noteq> length (G_x G) then (Inl ValueError, G)
         else
           (let array_to_integrate = np_mul (np_mul (G_r G) (column (G_K G) k)) (G_u G ! n);
                integral_value = simpson array_to_integrate (G_x G);
                G1 = G\<lparr>G_quad_calls := Suc (G_quad_calls G)\<rparr>
            in if \<not> in_range2 (G_matrix G1) n k then (Inl IndexError, G1)
               else (Inr integral_value,
                     G1\<lparr>G_matrix := set_entry (G_matrix G1) n k integral_value,
                        G_mask := set_entry (G_mask G1) n k True\<rparr>)))
      else if \<not> in_range2 (G_matrix G) n k then (Inl IndexError, G)
      else (Inr (G_matrix G ! n ! k), G))"

text \<open>
  Modelled from the spec: \<^verbatim>\<open>__getitem__\<close> of \<^verbatim>\<open>AbstractDiscreteFunction\<close> on a
  functional. \<^verbatim>\<open>G[n]\<close> is the vector, over the \<open>M+2\<close> resource points, of the values of
  the functional at time row \<open>n\<close>.
\<close>

fun FunctionalG_row ::
    "quadrature \<Rightarrow> nat \<Rightarrow> nat list \<Rightarrow> functionalG \<Rightarrow> (error + vec) \<times> functionalG" where
  "FunctionalG_row simpson n [] G = (Inr [], G)"
| "FunctionalG_row simpson n (k # ks) G =
     (case FunctionalG_call simpson n k G of
        (Inl e, G1) \<Rightarrow> (Inl e, G1)
      | (Inr v, G1) \<Rightarrow>
          (case FunctionalG_row simpson n ks G1 of
             (Inl e, G2) \<Rightarrow> (Inl e, G2)
           | (Inr vs, G2) \<Rightarrow> (Inr (v # vs), G2)))"

definition FunctionalG_getitem ::
    "quadrature \<Rightarrow> nat \<Rightarrow> functionalG \<Rightarrow> (error + vec) \<times> functionalG" where
  "FunctionalG_getitem simpson n G = FunctionalG_row simpson n [0..<G_M G + 2] G"

section \<open>The solvers\<close>

subsection \<open>Matrices of numpy\<close>

text \<open>
  \<^verbatim>\<open>np.diag(v, k)\<close>: the square matrix of size \<open>len(v) + |k|\<close> with \<open>v\<close> on its \<open>k\<close>-th
  diagonal and zero elsewhere; the sum of two matrices; \<^verbatim>\<open>A.dot(v)\<close>.
\<close>

definition np_diag :: "vec \<Rightarrow> int \<Rightarrow> matrix" where
  "np_diag v k =
     (let d = length v + nat \<bar>k\<bar> in
      map (\<lambda>i. map (\<lambda>j. if int j - int i = k then v ! (if 0 \<le> k then i else j) else 0)
                 [0..<d]) [0..<d])"

definition mat_add :: "matrix \<Rightarrow> matrix \<Rightarrow> matrix" where
  "mat_add A B = map2 np_add A B"

definition dot :: "matrix \<Rightarrow> vec \<Rightarrow> vec" where
  "dot A v = map (\<lambda>row. sum_list (np_mul row v)) A"

subsection \<open>SolverU\<close>

text \<open>
  The attributes of an \<^verbatim>\<open>AbstractSolverU\<close> object. \<^verbatim>\<open>_matrix\<close> is the array \<^verbatim>\<open>_u\<close> itself
  (\<^verbatim>\<open>self._matrix = self._u\<close>), so one field stands for both; \<open>U_F\<close> is the functional the
  solver owns, with its own copy of the resource field.
\<close>

record solverU =
  U_N :: nat
  U_M :: nat
  U_T :: nat
  U_dt :: real
  U_h1 :: real
  U_m_1 :: vec
  U_eps :: real
  U_r :: vec
  U_K :: matrix
  U_u :: matrix
  U_R :: matrix
  U_F :: functionalF
  U_mask :: mask
  U_current_step :: nat

definition wf_U :: "solverU \<Rightarrow> bool" where
  "wf_U s \<longleftrightarrow>
     wf_F (U_F s) \<and> F_N (U_F s) = U_N s \<and> F_M (U_F s) = U_M s \<and> F_T (U_F s) = U_T s \<and>
     length (U_m_1 s) = U_N s + 2 \<and>
     length (U_r s) = U_N s + 2 \<and>
     wf_matrix (U_N s + 2) (U_M s + 2) (U_K s) \<and>
     wf_matrix (U_T s + 1) (U_N s + 2) (U_u s) \<and>
     wf_matrix (U_T s + 1) (U_M s + 2) (U_R s) \<and>
     wf_matrix (U_T s + 1) (U_N s + 2) (U_mask s)"

text \<open>\<^verbatim>\<open>AbstractSolver._is_next_step\<close> and \<^verbatim>\<open>AbstractSolver._update_step\<close>, on a SolverU.\<close>

definition SolverU_is_next_step :: "nat \<Rightarrow> solverU \<Rightarrow> bool" where
  "SolverU_is_next_step n s \<longleftrightarrow> n \<le> U_current_step s + 1"

definition SolverU_update_step :: "nat \<Rightarrow> solverU \<Rightarrow> solverU" where
  "SolverU_update_step n s = s\<lparr>U_current_step := n + 1\<rparr>"

text \<open>\<^verbatim>\<open>AbstractSolverU.actualize_row(row, n)\<close>.\<close>

definition SolverU_actualize_row ::
    "vec \<Rightarrow> nat \<Rightarrow> solverU \<Rightarrow> (error + unit) \<times> solverU" where
  "SolverU_actualize_row row n s =
     (if \<not> n < length (U_R s) then (Inl IndexError, s)
      else (case validate_nth_row row (U_R s ! n) of
        Inl e \<Rightarrow> (Inl e, s)
      | Inr _ \<Rightarrow>
          (let s1 = s\<lparr>U_R := (U_R s)[n := row]\<rparr> in
           case FunctionalF_actualize_row row n (U_F s1) of
             (Inl e, F1) \<Rightarrow> (Inl e, s1\<lparr>U_F := F1\<rparr>)
           | (Inr _, F1) \<Rightarrow>
               (let s2 = s1\<lparr>U_F := F1\<rparr> in
                if \<not> n < length (U_mask s2) then (Inl IndexError, s2)
                else (Inr (), s2\<lparr>U_mask := update_mask_row n False (U_mask s2)\<rparr>)))))"

text \<open>
  \<^verbatim>\<open>SolverU._create_transition_matrix(n)\<close>. Reading \<^verbatim>\<open>self._F[n]\<close> evaluates the
  functional, which fills its cache.
\<close>

definition SolverU_create_transition_matrix ::
    "quadrature \<Rightarrow> nat \<Rightarrow> solverU \<Rightarrow> (error + matrix) \<times> solverU" where
  "SolverU_create_transition_matrix simpson n s =
     (let alpha = U_eps s * U_dt s / (U_h1 s)\<^sup>2;
          alpha_array = scalar_mul alpha (replicate (U_N s + 1) 1);
          upper_matrix = np_diag alpha_array 1;
          lower_matrix = np_diag alpha_array (- 1);
          upper_matrix = set_entry upper_matrix 0 1 (2 * alpha);
          lower_matrix = set_entry lower_matrix (length lower_matrix - 1)
                           (length lower_matrix - 2) (2 * alpha)
      in case FunctionalF_getitem simpson n (U_F s) of
           (Inl e, F1) \<Rightarrow> (Inl e, s\<lparr>U_F := F1\<rparr>)
         | (Inr F_n, F1) \<Rightarrow>
             (let s1 = s\<lparr>U_F := F1\<rparr> in
              if length (U_r s1) \<noteq> length F_n \<or> length (U_m_1 s1) \<noteq> length F_n
              then (Inl ValueError, s1)
              else
                (let A_n = np_add (np_neg (U_m_1 s1)) (np_mul (U_r s1) F_n);
                     beta_array = scalar_add (1 - 2 * alpha) (scalar_mul (U_dt s1) A_n);
                     central_matrix = np_diag beta_array 0
                 in if length central_matrix \<noteq> length lower_matrix
                    then (Inl ValueError, s1)
                    else (Inr (mat_add (mat_add lower_matrix central_matrix) upper_matrix),
                          s1))))"

text \<open>\<^verbatim>\<open>SolverU.actualize_step_np1(n)\<close>.\<close>

definition SolverU_actualize_step_np1 ::
    "quadrature \<Rightarrow> nat \<Rightarrow> solverU \<Rightarrow> (error + vec) \<times> solverU" where
  "SolverU_actualize_step_np1 simpson n s =
     (if \<not> n + 1 < length (U_mask s) then (Inl IndexError, s)
      else if \<not> is_row_calculated (n + 1) (U_mask s) then
        (case SolverU_create_transition_matrix simpson n s of
           (Inl e, s1) \<Rightarrow> (Inl e, s1)
         | (Inr A, s1) \<Rightarrow>
             if \<not> n < length (U_u s1) then (Inl IndexError, s1)
             else if length A \<noteq> length (U_u s1 ! n) then (Inl ValueError, s1)
             else if \<not> n + 1 < length (U_u s1) then (Inl IndexError, s1)
             else if length (dot A (U_u s1 ! n)) \<noteq> length (U_u s1 ! (n + 1))
             then (Inl ValueError, s1)
             else
               (let s2 = s1\<lparr>U_u := (U_u s1)[n + 1 := dot A (U_u s1 ! n)]\<rparr>;
                    s3 = s2\<lparr>U_mask := update_mask_row (n + 1) True (U_mask s2)\<rparr>
                in (Inr (U_u s3 ! (n + 1)), s3)))
      else if \<not> n + 1 < length (U_u s) then (Inl IndexError, s)
      else (Inr (U_u s ! (n + 1)), s))"

text \<open>
  The transition operator in the words of the spec: off-diagonal weight \<open>\<alpha>\<close>, the two
  boundary corners \<open>(0,1)\<close> and \<open>(N+1,N)\<close> with weight \<open>2\<alpha>\<close>, and the diagonal term
  \<open>1 - 2\<alpha> + dt (- m_1 + r F[n])\<close>.
\<close>

definition transition_operator :: "nat \<Rightarrow> real \<Rightarrow> real \<Rightarrow> vec \<Rightarrow> vec \<Rightarrow> vec \<Rightarrow> matrix" where
  "transition_operator N alpha dt m_1 r F_n =
     map (\<lambda>i. map (\<lambda>j.
            if (i = 0 \<and> j = 1) \<or> (i = N + 1 \<and> j = N) then 2 * alpha
            else if j = i + 1 \<or> i = j + 1 then alpha
            else if i = j then 1 - 2 * alpha + dt * (- (m_1 ! i) + r ! i * F_n ! i)
            else 0) [0..<N + 2]) [0..<N + 2]"

subsection \<open>SolverR\<close>

text \<open>
  The attributes of an \<^verbatim>\<open>AbstractSolverR\<close> object; here \<^verbatim>\<open>_matrix\<close> is the array \<^verbatim>\<open>_R\<close>.
\<close>

record solverR =
  R_N :: nat
  R_M :: nat
  R_T :: nat
  R_dt :: real
  R_m_2 :: vec
  R_R_in :: vec
  R_r :: vec
  R_K :: matrix
  R_u :: matrix
  R_R :: matrix
  R_G :: functionalG
  R_mask :: mask
  R_current_step :: nat

definition wf_R :: "solverR \<Rightarrow> bool" where
  "wf_R s \<longleftrightarrow>
     wf_G (R_G s) \<and> G_N (R_G s) = R_N s \<and> G_M (R_G s) = R_M s \<and> G_T (R_G s) = R_T s \<and>
     length (R_m_2 s) = R_M s + 2 \<and>
     length (R_R_in s) = R_M s + 2 \<and>
     length (R_r s) = R_N s + 2 \<and>
     wf_matrix (R_N s + 2) (R_M s + 2) (R_K s) \<and>
     wf_matrix (R_T s + 1) (R_N s + 2) (R_u s) \<and>
     wf_matrix (R_T s + 1) (R_M s + 2) (R_R s) \<and>
     wf_matrix (R_T s + 1) (R_M s + 2) (R_mask s)"

definition SolverR_is_next_step :: "nat \<Rightarrow> solverR \<Rightarrow> bool" where
  "SolverR_is_next_step n s \<longleftrightarrow> n \<le> R_current_step s + 1"

definition SolverR_update_step :: "nat \<Rightarrow> solverR \<Rightarrow> solverR" where
  "SolverR_update_step n s = s\<lparr>R_current_step := n + 1\<rparr>"

text \<open>\<^verbatim>\<open>AbstractSolverR.actualize_row(row, n)\<close>.\<close>

definition SolverR_actualize_row ::
    "vec \<Rightarrow> nat \<Rightarrow> solverR \<Rightarrow> (error + unit) \<times> solverR" where
  "SolverR_actualize_row row n s =
     (if \<not> n < length (R_u s) then (Inl IndexError, s)
      else (case validate_nth_row row (R_u s ! n) of
        Inl e \<Rightarrow> (Inl e, s)
      | Inr _ \<Rightarrow>
          (let s1 = s\<lparr>R_u := (R_u s)[n := row]\<rparr> in
           case FunctionalG_actualize_row row n (R_G s1) of
             (Inl e, G1) \<Rightarrow> (Inl e, s1\<lparr>R_G := G1\<rparr>)
           | (Inr _, G1) \<Rightarrow>
               (let s2 = s1\<lparr>R_G := G1\<rparr> in
                if \<not> n < length (R_mask s2) then (Inl IndexError, s2)
                else (Inr (), s2\<lparr>R_mask := update_mask_row n False (R_mask s2)\<rparr>)))))"

text \<open>\<^verbatim>\<open>SolverRMethod1.actualize_step_np1(n)\<close>: the explicit scheme.\<close>

definition SolverRMethod1_actualize_step_np1 ::
    "quadrature \<Rightarrow> nat \<Rightarrow> solverR \<Rightarrow> (error + vec) \<times> solverR" where
  "SolverRMethod1_actualize_step_np1 simpson n s =
     (if \<not> n + 1 < length (R_mask s) then (Inl IndexError, s)
      else if \<not> is_row_calculated (n + 1) (R_mask s) then
        (case FunctionalG_getitem simpson n (R_G s) of
           (Inl e, G1) \<Rightarrow> (Inl e, s\<lparr>R_G := G1\<rparr>)
         | (Inr G_n, G1) \<Rightarrow>
             (let s1 = s\<lparr>R_G := G1\<rparr> in
              if length (R_m_2 s1) \<noteq> length G_n then (Inl ValueError, s1)
              else if \<not> n < length (R_R s1) then (Inl IndexError, s1)
              else if length G_n \<noteq> length (R_R s1 ! n) then (Inl ValueError, s1)
              else if length (R_R_in s1) \<noteq> length G_n then (Inl ValueError, s1)
              else if \<not> n + 1 < length (R_R s1) then (Inl IndexError, s1)
              else if length G_n \<noteq> length (R_R s1 ! (n + 1)) then (Inl ValueError, s1)
              else
                (let R_np1 = np_add
                       (np_mul (scalar_sub 1 (scalar_mul (R_dt s1) (np_add (R_m_2 s1) G_n)))
                               (R_R s1 ! n))
                       (scalar_mul (R_dt s1) (R_R_in s1));
                     s2 = s1\<lparr>R_R := (R_R s1)[n + 1 := R_np1]\<rparr>;
                     s3 = s2\<lparr>R_mask := update_mask_row (n + 1) True (R_mask s2)\<rparr>
                 in (Inr (R_R s3 ! (n + 1)), s3))))
      else if \<not> n + 1 < length (R_R s) then (Inl IndexError, s)
      else (Inr (R_R s ! (n + 1)), s))"

text \<open>
  \<^verbatim>\<open>SolverRMethod2.actualize_step_np1(n)\<close>: the quasi-steady-state scheme, which reads
  the functional one step ahead.
\<close>

definition SolverRMethod2_actualize_step_np1 ::
    "quadrature \<Rightarrow> nat \<Rightarrow> solverR \<Rightarrow> (error + vec) \<times> solverR" where
  "SolverRMethod2_actualize_step_np1 simpson n s =
     (if \<not> n + 1 < length (R_mask s) then (Inl IndexError, s)
      else if \<not> is_row_calculated (n + 1) (R_mask s) then
        (case FunctionalG_getitem simpson (n + 1) (R_G s) of
           (Inl e, G1) \<Rightarrow> (Inl e, s\<lparr>R_G := G1\<rparr>)
         | (Inr G_np1, G1) \<Rightarrow>
             (let s1 = s\<lparr>R_G := G1\<rparr> in
              if length (R_m_2 s1) \<noteq> length G_np1 then (Inl ValueError, s1)
              else if length (R_R_in s1) \<noteq> length G_np1 then (Inl ValueError, s1)
              else if \<not> n + 1 < length (R_R s1) then (Inl IndexError, s1)
              else if length G_np1 \<noteq> length (R_R s1 ! (n + 1)) then (Inl ValueError, s1)
              else
                (let R_np1 = np_div (R_R_in s1) (np_add (R_m_2 s1) G_np1);
                     s2 = s1\<lparr>R_R := (R_R s1)[n + 1 := R_np1]\<rparr>;
                     s3 = s2\<lparr>R_mask := update_mask_row (n + 1) True (R_mask s2)\<rparr>
                 in (Inr (R_R s3 ! (n + 1)), s3))))
      else if \<not> n + 1 < length (R_R s) then (Inl IndexError, s)
      else (Inr (R_R s ! (n + 1)), s))"

text \<open>The classes a caller may pass as \<^verbatim>\<open>solver_u\<close> and \<^verbatim>\<open>solver_R\<close>.\<close>

datatype solver_u_class = SolverU

datatype solver_R_class = SolverRMethod1 | SolverRMethod2

fun solver_R_actualize_step_np1 ::
    "solver_R_class \<Rightarrow> quadrature \<Rightarrow> nat \<Rightarrow> solverR \<Rightarrow> (error + vec) \<times> solverR" where
  "solver_R_actualize_step_np1 SolverRMethod1 = SolverRMethod1_actualize_step_np1"
| "solver_R_actualize_step_np1 SolverRMethod2 = SolverRMethod2_actualize_step_np1"

section \<open>The driver\<close>

text \<open>
  Modelled from the spec: \<^verbatim>\<open>__getitem__\<close> of \<^verbatim>\<open>AbstractDiscreteFunction\<close> on a solver.
  \<^verbatim>\<open>R[n]\<close> and \<^verbatim>\<open>u[n + 1]\<close> read a row of the solver's own field buffer.
\<close>

definition SolverU_getitem :: "nat \<Rightarrow> solverU \<Rightarrow> error + vec" where
  "SolverU_getitem n s = (if n < length (U_u s) then Inr (U_u s ! n) else Inl IndexError)"

definition SolverR_getitem :: "nat \<Rightarrow> solverR \<Rightarrow> error + vec" where
  "SolverR_getitem n s = (if n < length (R_R s) then Inr (R_R s ! n) else Inl IndexError)"

text \<open>
  The two solver objects of \<^verbatim>\<open>solve_perthame\<close>. \<open>drv_calls\<close> is not a variable of the
  source: it lists the solver methods the loop has called, in the order of the calls.
\<close>

datatype call =
    Call_u_actualize_row nat
  | Call_u_actualize_step_np1 nat
  | Call_R_actualize_row nat
  | Call_R_actualize_step_np1 nat

record driver =
  drv_u :: solverU
  drv_R :: solverR
  drv_calls :: "call list"

text \<open>The body of the loop \<^verbatim>\<open>for n in range(T)\<close> of \<^verbatim>\<open>solve_perthame\<close>.\<close>

definition solve_perthame_iteration ::
    "quadrature \<Rightarrow> solver_R_class \<Rightarrow> nat \<Rightarrow> driver \<Rightarrow> (error + unit) \<times> driver" where
  "solve_perthame_iteration simpson solver_R n d =
     (case SolverR_getitem n (drv_R d) of
        Inl e \<Rightarrow> (Inl e, d)
      | Inr R_n \<Rightarrow>
          (let d0 = d\<lparr>drv_calls := drv_calls d @ [Call_u_actualize_row n]\<rparr> in
           case SolverU_actualize_row R_n n (drv_u d0) of
             (Inl e, u1) \<Rightarrow> (Inl e, d0\<lparr>drv_u := u1\<rparr>)
           | (Inr _, u1) \<Rightarrow>
               (let d1 = d0\<lparr>drv_u := u1,
                            drv_calls := drv_calls d0 @ [Call_u_actualize_step_np1 n]\<rparr> in
                case SolverU_actualize_step_np1 simpson n (drv_u d1) of
                  (Inl e, u2) \<Rightarrow> (Inl e, d1\<lparr>drv_u := u2\<rparr>)
                | (Inr _, u2) \<Rightarrow>
                    (let d2 = d1\<lparr>drv_u := u2\<rparr> in
                     case SolverU_getitem (n + 1) (drv_u d2) of
                       Inl e \<Rightarrow> (Inl e, d2)
                     | Inr u_np1 \<Rightarrow>
                         (let d3 = d2\<lparr>drv_calls :=
                                       drv_calls d2 @ [Call_R_actualize_row (n + 1)]\<rparr> in
                          case SolverR_actualize_row u_np1 (n + 1) (drv_R d3) of
                            (Inl e, R1) \<Rightarrow> (Inl e, d3\<lparr>drv_R := R1\<rparr>)
                          | (Inr _, R1) \<Rightarrow>
                              (let d4 = d3\<lparr>drv_R := R1,
                                           drv_calls :=
                                             drv_calls d3 @ [Call_R_actualize_step_np1 n]\<rparr> in
                               case solver_R_actualize_step_np1 solver_R simpson n (drv_R d4) of
                                 (Inl e, R2) \<Rightarrow> (Inl e, d4\<lparr>drv_R := R2\<rparr>)
                               | (Inr _, R2) \<Rightarrow> (Inr (), d4\<lparr>drv_R := R2\<rparr>)))))))"

fun solve_perthame_loop ::
    "quadrature \<Rightarrow> solver_R_class \<Rightarrow> nat list \<Rightarrow> driver \<Rightarrow> (error + unit) \<times> driver" where
  "solve_perthame_loop simpson solver_R [] d = (Inr (), d)"
| "solve_perthame_loop simpson solver_R (n # ns) d =
     (case solve_perthame_iteration simpson solver_R n d of
        (Inl e, d1) \<Rightarrow> (Inl e, d1)
      | (Inr _, d1) \<Rightarrow> solve_perthame_loop simpson solver_R ns d1)"

subsection \<open>Meshes and constructors\<close>

text \<open>
  \<^verbatim>\<open>np.linspace(start, stop, num)\<close>: \<open>num\<close> evenly spaced points from \<open>start\<close> to \<open>stop\<close>;
  numpy raises a ValueError for a negative \<open>num\<close>.
\<close>

definition mesh_points :: "real \<Rightarrow> real \<Rightarrow> nat \<Rightarrow> vec" where
  "mesh_points start stop num =
     map (\<lambda>i. if num = 1 then start else start + real i * ((stop - start) / real (num - 1)))
         [0..<num]"

definition linspace :: "real \<Rightarrow> real \<Rightarrow> int \<Rightarrow> error + vec" where
  "linspace start stop num =
     (if num < 0 then Inl ValueError else Inr (mesh_points start stop (nat num)))"

text \<open>The keyword arguments \<^verbatim>\<open>disc_configs\<close> every constructor receives.\<close>

record disc_configs =
  cfg_x_lims :: "real \<times> real"
  cfg_y_lims :: "(real \<times> real) option"
  cfg_N :: int
  cfg_M :: "int option"
  cfg_dt :: real
  cfg_T :: "int option"

record mesh =
  mesh_N :: nat
  mesh_M :: nat
  mesh_T :: nat
  mesh_dt :: real
  mesh_h1 :: real
  mesh_x :: vec
  mesh_y :: vec

text \<open>
  Modelled from the spec: \<^verbatim>\<open>AbstractDiscreteFunction.__init__\<close> (discrete_function.py),
  which builds the mesh metadata \<open>x, y, dt, h1, N, M, T\<close>. The defaults are those of the
  docstrings of the constructors: \<open>y_lims\<close> is \<open>x_lims\<close>, \<open>M\<close> is \<open>N\<close> and \<open>T\<close> is 100
  when they are not given; \<open>h1\<close> is the spacing of the mesh \<open>x\<close>.
\<close>

definition AbstractDiscreteFunction_init :: "disc_configs \<Rightarrow> error + mesh" where
  "AbstractDiscreteFunction_init cfg =
     (let N = cfg_N cfg;
          M = (case cfg_M cfg of None \<Rightarrow> N | Some m \<Rightarrow> m);
          T = (case cfg_T cfg of None \<Rightarrow> 100 | Some t \<Rightarrow> t);
          x_lims = cfg_x_lims cfg;
          y_lims = (case cfg_y_lims cfg of None \<Rightarrow> x_lims | Some l \<Rightarrow> l)
      in if N < 0 \<or> M < 0 \<or> T < 0 then Inl DomainValidation
         else Inr \<lparr>mesh_N = nat N, mesh_M = nat M, mesh_T = nat T, mesh_dt = cfg_dt cfg,
                   mesh_h1 = (snd x_lims - fst x_lims) / real (nat N + 1),
                   mesh_x = mesh_points (fst x_lims) (snd x_lims) (nat N + 2),
                   mesh_y = mesh_points (fst y_lims) (snd y_lims) (nat M + 2)\<rparr>)"

text \<open>
  Modelled from the spec: the descriptor \<^verbatim>\<open>InitialDiscreteFunctionValidator\<close>
  (utils/validators.py). A time-indexed field has \<open>T+1\<close> rows; row 0 is the initial
  condition and the later rows are zero-filled.
\<close>

definition initial_field :: "nat \<Rightarrow> nat \<Rightarrow> vec \<Rightarrow> matrix" where
  "initial_field T cols row_0 = row_0 # replicate T (replicate cols 0)"

text \<open>
  \<^verbatim>\<open>FunctionalF.__init__\<close> and \<^verbatim>\<open>FunctionalG.__init__\<close>; the descriptors reject arrays
  that do not fit the mesh.
\<close>

definition FunctionalF_init :: "matrix \<Rightarrow> vec \<Rightarrow> mesh \<Rightarrow> error + functionalF" where
  "FunctionalF_init K R_0 m =
     (if \<not> wf_matrix (mesh_N m + 2) (mesh_M m + 2) K then Inl ShapeMismatch
      else if length R_0 \<noteq> mesh_M m + 2 then Inl ShapeMismatch
      else Inr \<lparr>F_N = mesh_N m, F_M = mesh_M m, F_T = mesh_T m, F_y = mesh_y m, F_K = K,
                F_R = initial_field (mesh_T m) (mesh_M m + 2) R_0,
                F_matrix = replicate (mesh_T m + 1) (replicate (mesh_N m + 2) 0),
                F_mask = create_mask (mesh_T m + 1) (mesh_N m + 2),
                F_quad_calls = 0\<rparr>)"

definition FunctionalG_init :: "vec \<Rightarrow> matrix \<Rightarrow> vec \<Rightarrow> mesh \<Rightarrow> error + functionalG" where
  "FunctionalG_init r K u_0 m =
     (if \<not> wf_matrix (mesh_N m + 2) (mesh_M m + 2) K then Inl ShapeMismatch
      else if length r \<noteq> mesh_N m + 2 then Inl ShapeMismatch
      else if length u_0 \<noteq> mesh_N m + 2 then Inl ShapeMismatch
      else Inr \<lparr>G_N = mesh_N m, G_M = mesh_M m, G_T = mesh_T m, G_x = mesh_x m, G_r = r,
                G_K = K,
                G_u = initial_field (mesh_T m) (mesh_N m + 2) u_0,
                G_matrix = replicate (mesh_T m + 1) (replicate (mesh_M m + 2) 0),
                G_mask = create_mask (mesh_T m + 1) (mesh_M m + 2),
                G_quad_calls = 0\<rparr>)"

text \<open>
  \<^verbatim>\<open>AbstractSolverU.__init__\<close> (with \<^verbatim>\<open>AbstractSolver.__init__\<close>): the counter
  \<^verbatim>\<open>_current_step\<close> starts at 0, the functional \<open>F\<close> is built from \<open>K\<close> and \<open>R_0\<close>, and
  row 0 of the mask is marked computed. \<^verbatim>\<open>eps\<close> is a \<^verbatim>\<open>Float\<close> with lower bound 0.
\<close>

definition SolverU_init ::
    "vec \<Rightarrow> real \<Rightarrow> vec \<Rightarrow> matrix \<Rightarrow> vec \<Rightarrow> vec \<Rightarrow> disc_configs \<Rightarrow> error + solverU" where
  "SolverU_init m_1 eps r K u_0 R_0 cfg =
     (case AbstractDiscreteFunction_init cfg of
        Inl e \<Rightarrow> Inl e
      | Inr m \<Rightarrow>
          if length r \<noteq> mesh_N m + 2 \<or> length u_0 \<noteq> mesh_N m + 2
             \<or> length m_1 \<noteq> mesh_N m + 2 then Inl ShapeMismatch
          else if eps < 0 then Inl DomainValidation
          else (case FunctionalF_init K R_0 m of
            Inl e \<Rightarrow> Inl e
          | Inr F \<Rightarrow>
              Inr \<lparr>U_N = mesh_N m, U_M = mesh_M m, U_T = mesh_T m, U_dt = mesh_dt m,
                   U_h1 = mesh_h1 m, U_m_1 = m_1, U_eps = eps, U_r = r, U_K = K,
                   U_u = initial_field (mesh_T m) (mesh_N m + 2) u_0,
                   U_R = initial_field (mesh_T m) (mesh_M m + 2) R_0,
                   U_F = F,
                   U_mask = update_mask_row 0 True (create_mask (mesh_T m + 1) (mesh_N m + 2)),
                   U_current_step = 0\<rparr>))"

text \<open>\<^verbatim>\<open>AbstractSolverR.__init__\<close>, shared by the two resource solvers.\<close>

definition SolverR_init ::
    "vec \<Rightarrow> vec \<Rightarrow> vec \<Rightarrow> matrix \<Rightarrow> vec \<Rightarrow> vec \<Rightarrow> disc_configs \<Rightarrow> error + solverR" where
  "SolverR_init m_2 R_in r K u_0 R_0 cfg =
     (case AbstractDiscreteFunction_init cfg of
        Inl e \<Rightarrow> Inl e
      | Inr m \<Rightarrow>
          if length R_0 \<noteq> mesh_M m + 2 \<or> length m_2 \<noteq> mesh_M m + 2
             \<or> length R_in \<noteq> mesh_M m + 2 then Inl ShapeMismatch
          else (case FunctionalG_init r K u_0 m of
            Inl e \<Rightarrow> Inl e
          | Inr G \<Rightarrow>
              Inr \<lparr>R_N = mesh_N m, R_M = mesh_M m, R_T = mesh_T m, R_dt = mesh_dt m,
                   R_m_2 = m_2, R_R_in = R_in, R_r = r, R_K = K,
                   R_u = initial_field (mesh_T m) (mesh_N m + 2) u_0,
                   R_R = initial_field (mesh_T m) (mesh_M m + 2) R_0,
                   R_G = G,
                   R_mask = update_mask_row 0 True (create_mask (mesh_T m + 1) (mesh_M m + 2)),
                   R_current_step = 0\<rparr>))"

text \<open>Calling the class chosen as \<^verbatim>\<open>solver_u\<close> or \<^verbatim>\<open>solver_R\<close> runs its constructor.\<close>

fun solver_u_init ::
    "solver_u_class \<Rightarrow> vec \<Rightarrow> real \<Rightarrow> vec \<Rightarrow> matrix \<Rightarrow> vec \<Rightarrow> vec \<Rightarrow> disc_configs
     \<Rightarrow> error + solverU" where
  "solver_u_init SolverU = SolverU_init"

fun solver_R_init ::
    "solver_R_class \<Rightarrow> vec \<Rightarrow> vec \<Rightarrow> vec \<Rightarrow> matrix \<Rightarrow> vec \<Rightarrow> vec \<Rightarrow> disc_configs
     \<Rightarrow> error + solverR" where
  "solver_R_init SolverRMethod1 = SolverR_init"
| "solver_R_init SolverRMethod2 = SolverR_init"

subsection \<open>solve\_perthame\<close>

text \<open>
  The arguments of \<^verbatim>\<open>solve_perthame\<close>. \<open>y_lims\<close>, \<open>M\<close>, \<open>solver_u\<close> and \<open>solver_R\<close> may
  be \<open>None\<close>, which is their declared default; \<open>T\<close> may be \<open>None\<close> too.
\<close>

record perthame_args =
  arg_u_0 :: "real \<Rightarrow> real"
  arg_R_0 :: "real \<Rightarrow> real"
  arg_r :: "real \<Rightarrow> real"
  arg_R_in :: "real \<Rightarrow> real"
  arg_m_1 :: "real \<Rightarrow> real"
  arg_m_2 :: "real \<Rightarrow> real"
  arg_K :: "real \<Rightarrow> real \<Rightarrow> real"
  arg_eps :: real
  arg_solver_u :: "solver_u_class option"
  arg_solver_R :: "solver_R_class option"
  arg_x_lims :: "real \<times> real"
  arg_y_lims :: "(real \<times> real) option"
  arg_N :: int
  arg_M :: "int option"
  arg_dt :: real
  arg_T :: "int option"

text \<open>The arrays built by lines 37 to 46 of \<^verbatim>\<open>solver.py\<close>.\<close>

record sampled =
  smp_x :: vec
  smp_y :: vec
  smp_u_0 :: vec
  smp_R_0 :: vec
  smp_r :: vec
  smp_R_in :: vec
  smp_m_1 :: vec
  smp_m_2 :: vec
  smp_K :: matrix

text \<open>
  The meshes and the sampled coefficient arrays. \<^verbatim>\<open>np.linspace(*y_lims, M + 2)\<close> unpacks
  \<open>y_lims\<close> and adds 2 to \<open>M\<close>: either raises a TypeError on \<open>None\<close>.
\<close>

definition sample_inputs :: "perthame_args \<Rightarrow> error + sampled" where
  "sample_inputs a =
     (case linspace (fst (arg_x_lims a)) (snd (arg_x_lims a)) (arg_N a + 2) of
        Inl e \<Rightarrow> Inl e
      | Inr x \<Rightarrow>
          (case arg_y_lims a of
             None \<Rightarrow> Inl TypeError
           | Some y_lims \<Rightarrow>
               (case arg_M a of
                  None \<Rightarrow> Inl TypeError
                | Some M \<Rightarrow>
                    (case linspace (fst y_lims) (snd y_lims) (M + 2) of
                       Inl e \<Rightarrow> Inl e
                     | Inr y \<Rightarrow>
                         Inr \<lparr>smp_x = x, smp_y = y,
                              smp_u_0 = map (arg_u_0 a) x,
                              smp_R_0 = map (arg_R_0 a) y,
                              smp_r = map (arg_r a) x,
                              smp_R_in = map (arg_R_in a) y,
                              smp_m_1 = map (arg_m_1 a) x,
                              smp_m_2 = map (arg_m_2 a) y,
                              smp_K = map (\<lambda>xv. map (\<lambda>yv. arg_K a xv yv) y) x\<rparr>))))"

text \<open>\<^verbatim>\<open>solve_perthame\<close>: the arrays, the two solver objects, the loop.\<close>

definition solve_perthame :: "quadrature \<Rightarrow> perthame_args \<Rightarrow> error + solverU \<times> solverR" where
  "solve_perthame simpson a =
     (case sample_inputs a of
        Inl e \<Rightarrow> Inl e
      | Inr smp \<Rightarrow>
          (let disc_configs = \<lparr>cfg_x_lims = arg_x_lims a, cfg_y_lims = arg_y_lims a,
                                cfg_N = arg_N a, cfg_M = arg_M a,
                                cfg_dt = arg_dt a, cfg_T = arg_T a\<rparr>;
               T = (case arg_T a of None \<Rightarrow> 100 | Some t \<Rightarrow> t);
               solver_u = (case arg_solver_u a of None \<Rightarrow> SolverU | Some c \<Rightarrow> c);
               solver_R = (case arg_solver_R a of None \<Rightarrow> SolverRMethod1 | Some c \<Rightarrow> c)
           in case solver_R_init solver_R (smp_m_2 smp) (smp_R_in smp) (smp_r smp) (smp_K smp)
                     (smp_u_0 smp) (smp_R_0 smp) disc_configs of
                Inl e \<Rightarrow> Inl e
              | Inr R \<Rightarrow>
                  (case solver_u_init solver_u (smp_m_1 smp) (arg_eps a) (smp_r smp) (smp_K smp)
                          (smp_u_0 smp) (smp_R_0 smp) disc_configs of
                     Inl e \<Rightarrow> Inl e
                   | Inr u \<Rightarrow>
                       (case solve_perthame_loop simpson solver_R [0..<nat T]
                               \<lparr>drv_u = u, drv_R = R, drv_calls = []\<rparr> of
                          (Inl e, d) \<Rightarrow> Inl e
                        | (Inr _, d) \<Rightarrow> Inr (drv_u d, drv_R d)))))"

section \<open>Sequences of calls on a functional\<close>

text \<open>
  A caller evaluates a functional and actualizes its rows in any order. A run applies
  the calls one after the other to the object, whatever each returns or raises.
\<close>

datatype functional_op = Evaluate nat nat | Actualize_row vec nat

fun touches_row :: "nat \<Rightarrow> functional_op \<Rightarrow> bool" where
  "touches_row n (Evaluate m j) = False"
| "touches_row n (Actualize_row row m) = (m = n)"

fun FunctionalF_run :: "quadrature \<Rightarrow> functional_op list \<Rightarrow> functionalF \<Rightarrow> functionalF" where
  "FunctionalF_run simpson [] F = F"
| "FunctionalF_run simpson (Evaluate m j # ops) F =
     FunctionalF_run simpson ops (snd (FunctionalF_call simpson m j F))"
| "FunctionalF_run simpson (Actualize_row row m # ops) F =
     FunctionalF_run simpson ops (snd (FunctionalF_actualize_row row m F))"

fun FunctionalG_run :: "quadrature \<Rightarrow> functional_op list \<Rightarrow> functionalG \<Rightarrow> functionalG" where
  "FunctionalG_run simpson [] G = G"
| "FunctionalG_run simpson (Evaluate m k # ops) G =
     FunctionalG_run simpson ops (snd (FunctionalG_call simpson m k G))"
| "FunctionalG_run simpson (Actualize_row row m # ops) G =
     FunctionalG_run simpson ops (snd (FunctionalG_actualize_row row m G))"

section \<open>A concrete instance\<close>

text \<open>
  Composite Simpson's rule on an odd number of samples over a mesh that need not be
  uniform, one parabola for each pair of intervals, as \<^verbatim>\<open>scipy.integrate.simpson\<close>
  computes it for such input. It stands for the quadrature at concrete inputs, all of
  which have three samples.
\<close>

fun simpson_rule :: "vec \<Rightarrow> vec \<Rightarrow> real" where
  "simpson_rule (f0 # f1 # f2 # fs) (x0 # x1 # x2 # xs) =
     (let h0 = x1 - x0; h1 = x2 - x1 in
      (h0 + h1) / 6 *
        (f0 * (2 - h1 / h0) + f1 * ((h0 + h1) * (h0 + h1) / (h0 * h1)) + f2 * (2 - h0 / h1)))
     + simpson_rule (f2 # fs) (x2 # xs)"
| "simpson_rule fs xs = 0"

text \<open>
  A mesh of three trait points and three resource points on \<open>[0, 1]\<close> (\<open>N = M = 1\<close>) and
  one time step (\<open>T = 1\<close>), with \<open>K = 1\<close>, \<open>r = 1\<close>, \<open>u_0 = 1\<close>, \<open>R_0 = 1\<close>, \<open>m_1 = 0\<close>,
  \<open>m_2 = 1\<close>, \<open>R_in = 1\<close>, \<open>eps = 0\<close> and \<open>dt = 1/10\<close>: the objects as their constructors
  leave them.
\<close>

definition ex_F :: functionalF where
  "ex_F = \<lparr>F_N = 1, F_M = 1, F_T = 1, F_y = [0, 1/2, 1],
           F_K = [[1, 1, 1], [1, 1, 1], [1, 1, 1]],
           F_R = [[1, 1, 1], [0, 0, 0]],
           F_matrix = [[0, 0, 0], [0, 0, 0]],
           F_mask = [[False, False, False], [False, False, False]],
           F_quad_calls = 0\<rparr>"

definition ex_G :: functionalG where
  "ex_G = \<lparr>G_N = 1, G_M = 1, G_T = 1, G_x = [0, 1/2, 1], G_r = [1, 1, 1],
           G_K = [[1, 1, 1], [1, 1, 1], [1, 1, 1]],
           G_u = [[1, 1, 1], [0, 0, 0]],
           G_matrix = [[0, 0, 0], [0, 0, 0]],
           G_mask = [[False, False, False], [False, False, False]],
           G_quad_calls = 0\<rparr>"

definition ex_U :: solverU where
  "ex_U = \<lparr>U_N = 1, U_M = 1, U_T = 1, U_dt = 1/10, U_h1 = 1/2, U_m_1 = [0, 0, 0],
           U_eps = 0, U_r = [1, 1, 1],
           U_K = [[1, 1, 1], [1, 1, 1], [1, 1, 1]],
           U_u = [[1, 1, 1], [0, 0, 0]],
           U_R = [[1, 1, 1], [0, 0, 0]],
           U_F = ex_F,
           U_mask = [[True, True, True], [False, False, False]],
           U_current_step = 0\<rparr>"

definition ex_R :: solverR where
  "ex_R = \<lparr>R_N = 1, R_M = 1, R_T = 1, R_dt = 1/10, R_m_2 = [1, 1, 1], R_R_in = [1, 1, 1],
           R_r = [1, 1, 1],
           R_K = [[1, 1, 1], [1, 1, 1], [1, 1, 1]],
           R_u = [[1, 1, 1], [0, 0, 0]],
           R_R = [[1, 1, 1], [0, 0, 0]],
           R_G = ex_G,
           R_mask = [[True, True, True], [False, False, False]],
           R_current_step = 0\<rparr>"

text \<open>The two functionals after the entry \<open>(0, 0)\<close> has been evaluated and cached.\<close>

definition ex_F_cached :: functionalF where
  "ex_F_cached = snd (FunctionalF_call simpson_rule 0 0 ex_F)"

definition ex_G_cached :: functionalG where
  "ex_G_cached = snd (FunctionalG_call simpson_rule 0 0 ex_G)"

definition ex_ops :: "functional_op list" where
  "ex_ops = [Evaluate 0 1, Actualize_row [2, 2, 2] 1, Evaluate 1 0, Evaluate 0 0]"

text \<open>
  A call of \<^verbatim>\<open>solve_perthame\<close> that passes the seven coefficient functions and leaves
  every other argument at its declared default: \<^verbatim>\<open>eps=0\<close>, \<^verbatim>\<open>solver_u=None\<close>,
  \<^verbatim>\<open>solver_R=None\<close>, \<^verbatim>\<open>x_lims=(0, 1)\<close>, \<^verbatim>\<open>y_lims=None\<close>, \<^verbatim>\<open>N=100\<close>, \<^verbatim>\<open>M=None\<close>,
  \<^verbatim>\<open>dt=0.01\<close>, \<^verbatim>\<open>T=100\<close>.
\<close>

definition ex_default_args :: perthame_args where
  "ex_default_args =
     \<lparr>arg_u_0 = (\<lambda>x. 1), arg_R_0 = (\<lambda>y. 1), arg_r = (\<lambda>x. 1), arg_R_in = (\<lambda>y. 1),
      arg_m_1 = (\<lambda>x. 0), arg_m_2 = (\<lambda>y. 1), arg_K = (\<lambda>x y. 1), arg_eps = 0,
      arg_solver_u = None, arg_solver_R = None, arg_x_lims = (0, 1), arg_y_lims = None,
      arg_N = 100, arg_M = None, arg_dt = 1/100, arg_T = Some 100\<rparr>"

text \<open>The same solver with mutation rate \<open>eps = 1/4\<close> and initial population \<open>(1, 2, 3)\<close>.\<close>

definition ex_U_diffusing :: solverU where
  "ex_U_diffusing = ex_U\<lparr>U_eps := 1/4, U_u := [[1, 2, 3], [0, 0, 0]]\<rparr>"

text \<open>
  The resource solver after the driver has delivered a population row 1: the positive
  row \<open>(2, 2, 2)\<close>, and the negative row \<open>(-2, -2, -2)\<close>.
\<close>

definition ex_R_fed :: solverR where
  "ex_R_fed = snd (SolverR_actualize_row [2, 2, 2] 1 ex_R)"

definition ex_R_negative :: solverR where
  "ex_R_negative = snd (SolverR_actualize_row [- 2, - 2, - 2] 1 ex_R)"

text \<open>
  A call of \<^verbatim>\<open>solve_perthame\<close> on the three-point meshes with positive data throughout
  (\<open>u_0 = R_0 = r = K = R_in = m_2 = 1\<close>), a mortality \<open>m_1 = 30\<close>, a time step
  \<open>dt = 1/10\<close>, one step and the second resource scheme.
\<close>

definition ex_positive_args :: perthame_args where
  "ex_positive_args =
     \<lparr>arg_u_0 = (\<lambda>x. 1), arg_R_0 = (\<lambda>y. 1), arg_r = (\<lambda>x. 1), arg_R_in = (\<lambda>y. 1),
      arg_m_1 = (\<lambda>x. 30), arg_m_2 = (\<lambda>y. 1), arg_K = (\<lambda>x y. 1), arg_eps = 0,
      arg_solver_u = None, arg_solver_R = Some SolverRMethod2, arg_x_lims = (0, 1),
      arg_y_lims = Some (0, 1), arg_N = 1, arg_M = Some 1, arg_dt = 1/10, arg_T = Some 1\<rparr>"

section \<open>The state of the driver between iterations\<close>

text \<open>
  The invariant of the mask, as the spec states it for the cache of a functional: an
  entry whose mask is set holds the integral against the dependency row the functional
  holds now.
\<close>

definition G_consistent :: "quadrature \<Rightarrow> functionalG \<Rightarrow> bool" where
  "G_consistent simpson G \<longleftrightarrow>
     list_all (\<lambda>n. list_all (\<lambda>k. G_mask G ! n ! k \<longrightarrow>
         G_matrix G ! n ! k =
           simpson (np_mul (np_mul (G_r G) (column (G_K G) k)) (G_u G ! n)) (G_x G))
       [0..<G_M G + 2]) [0..<G_T G + 1]"

text \<open>
  What holds of the two solvers when iteration \<open>n\<close> of the loop starts: both are
  well-formed, on the same meshes, with a mesh spacing that is not zero; no row of \<open>u\<close>
  after row \<open>n\<close> is marked computed; the cache of \<open>G\<close> is consistent with the population
  rows the functional holds, which are the rows the resource solver holds; and the
  resource solver holds the row \<open>u[n]\<close> of the population solver.
\<close>

definition driver_ready :: "quadrature \<Rightarrow> nat \<Rightarrow> driver \<Rightarrow> bool" where
  "driver_ready simpson n d \<longleftrightarrow>
     wf_U (drv_u d) \<and> wf_R (drv_R d) \<and>
     U_N (drv_u d) = R_N (drv_R d) \<and> U_M (drv_u d) = R_M (drv_R d) \<and>
     U_T (drv_u d) = R_T (drv_R d) \<and>
     U_h1 (drv_u d) \<noteq> 0 \<and>
     list_all (\<lambda>m. \<not> is_row_calculated m (U_mask (drv_u d))) [n + 1..<U_T (drv_u d) + 1] \<and>
     G_consistent simpson (R_G (drv_R d)) \<and>
     G_u (R_G (drv_R d)) = R_u (drv_R d) \<and>
     R_u (drv_R d) ! n = U_u (drv_u d) ! n"

text \<open>The four calls of iteration \<open>n\<close>, in the order of the source.\<close>

definition iteration_calls :: "nat \<Rightarrow> call list" where
  "iteration_calls n =
     [Call_u_actualize_row n, Call_u_actualize_step_np1 n,
      Call_R_actualize_row (n + 1), Call_R_actualize_step_np1 n]"

text \<open>
  Two drivers on the concrete solvers that differ in the mortality \<open>m_1\<close> alone:
  \<open>m_1 = 0\<close> and \<open>m_1 = 30\<close>.
\<close>

definition ex_driver :: driver where
  "ex_driver = \<lparr>drv_u = ex_U, drv_R = ex_R, drv_calls = []\<rparr>"

definition ex_driver_mortal :: driver where
  "ex_driver_mortal = \<lparr>drv_u = ex_U\<lparr>U_m_1 := [30, 30, 30]\<rparr>, drv_R = ex_R, drv_calls = []\<rparr>"

section \<open>The values of a functional\<close>

text \<open>
  The value of a functional at an index pair, as a function of the object: the cached
  entry where the mask is set, the quadrature of the dependency row otherwise. The
  vector of these values over the columns is what \<^verbatim>\<open>F[n]\<close> and \<^verbatim>\<open>G[n]\<close> denote.
\<close>

definition FunctionalF_value :: "quadrature \<Rightarrow> nat \<Rightarrow> nat \<Rightarrow> functionalF \<Rightarrow> real" where
  "FunctionalF_value simpson n j F =
     (if F_mask F ! n ! j then F_matrix F ! n ! j
      else simpson (np_mul (F_K F ! j) (F_R F ! n)) (F_y F))"

definition FunctionalF_values :: "quadrature \<Rightarrow> nat \<Rightarrow> functionalF \<Rightarrow> vec" where
  "FunctionalF_values simpson n F = map (\<lambda>j. FunctionalF_value simpson n j F) [0..<F_N F + 2]"

definition FunctionalG_value :: "quadrature \<Rightarrow> nat \<Rightarrow> nat \<Rightarrow> functionalG \<Rightarrow> real" where
  "FunctionalG_value simpson n k G =
     (if G_mask G ! n ! k then G_matrix G ! n ! k
      else simpson (np_mul (np_mul (G_r G) (column (G_K G) k)) (G_u G ! n)) (G_x G))"

definition FunctionalG_values :: "quadrature \<Rightarrow> nat \<Rightarrow> functionalG \<Rightarrow> vec" where
  "FunctionalG_values simpson n G = map (\<lambda>k. FunctionalG_value simpson n k G) [0..<G_M G + 2]"

text \<open>A square matrix given by its entries.\<close>

definition tabulate :: "nat \<Rightarrow> (nat \<Rightarrow> nat \<Rightarrow> real) \<Rightarrow> matrix" where
  "tabulate d f = map (\<lambda>i. map (\<lambda>j. f i j) [0..<d]) [0..<d]"

section \<open>Sequences of calls on a solver\<close>

text \<open>
  The two public methods of a solver, called in any order with any arguments; a run
  applies them one after the other to the object, whatever each returns or raises.
\<close>

datatype solver_op = Op_actualize_row vec nat | Op_actualize_step_np1 nat

fun SolverU_run :: "quadrature \<Rightarrow> solver_op list \<Rightarrow> solverU \<Rightarrow> solverU" where
  "SolverU_run simpson [] s = s"
| "SolverU_run simpson (Op_actualize_row row n # ops) s =
     SolverU_run simpson ops (snd (SolverU_actualize_row row n s))"
| "SolverU_run simpson (Op_actualize_step_np1 n # ops) s =
     SolverU_run simpson ops (snd (SolverU_actualize_step_np1 simpson n s))"

fun SolverR_run ::
    "solver_R_class \<Rightarrow> quadrature \<Rightarrow> solver_op list \<Rightarrow> solverR \<Rightarrow> solverR" where
  "SolverR_run cls simpson [] s = s"
| "SolverR_run cls simpson (Op_actualize_row row n # ops) s =
     SolverR_run cls simpson ops (snd (SolverR_actualize_row row n s))"
| "SolverR_run cls simpson (Op_actualize_step_np1 n # ops) s =
     SolverR_run cls simpson ops (snd (solver_R_actualize_step_np1 cls simpson n s))"

section \<open>Arrays and masks\<close>

lemma wf_matrix_update:
  "wf_matrix rows cols A \<Longrightarrow> length r = cols \<Longrightarrow> wf_matrix rows cols (A[n := r])"
  by (cases "n < length A") (auto simp: wf_matrix_def list_all_length nth_list_update)

lemma wf_matrix_set_entry:
  "wf_matrix rows cols A \<Longrightarrow> wf_matrix rows cols (set_entry A n j v)"
  by (cases "n < length A") (auto simp: wf_matrix_def set_entry_def list_all_length nth_list_update)

lemma wf_matrix_update_mask_row:
  "wf_matrix rows cols m \<Longrightarrow> wf_matrix rows cols (update_mask_row n v m)"
  by (cases "n < length m") (auto simp: wf_matrix_def update_mask_row_def list_all_length nth_list_update)

lemma set_entry_nth:
  "in_range2 A n j \<Longrightarrow> set_entry A n j v ! n' ! j' = (if n' = n \<and> j' = j then v else A ! n' ! j')"
  by (auto simp: in_range2_def set_entry_def nth_list_update)

lemma update_mask_row_nth:
  "n < length m \<Longrightarrow> update_mask_row n v m ! n' = (if n' = n then replicate (length (m ! n)) v else m ! n')"
  by (auto simp: update_mask_row_def nth_list_update)

section \<open>The cache of FunctionalF\<close>

lemma wf_F_ranges:
  assumes "wf_F F"
  shows "in_range2 (F_mask F) n j \<longleftrightarrow> n \<le> F_T F \<and> j < F_N F + 2"
    and "in_range2 (F_matrix F) n j \<longleftrightarrow> n \<le> F_T F \<and> j < F_N F + 2"
    and "length (F_K F) = F_N F + 2" and "length (F_R F) = F_T F + 1"
    and "length (F_mask F) = F_T F + 1" and "length (F_matrix F) = F_T F + 1"
    and "j < F_N F + 2 \<Longrightarrow> length (F_K F ! j) = F_M F + 2"
    and "n \<le> F_T F \<Longrightarrow> length (F_R F ! n) = F_M F + 2"
    and "n \<le> F_T F \<Longrightarrow> length (F_mask F ! n) = F_N F + 2"
    and "n \<le> F_T F \<Longrightarrow> length (F_matrix F ! n) = F_N F + 2"
    and "length (F_y F) = F_M F + 2"
  using assms by (auto simp: wf_F_def wf_matrix_def in_range2_def list_all_length)

lemma FunctionalF_call_fresh:
  assumes "wf_F F" "n \<le> F_T F" "j < F_N F + 2" "\<not> F_mask F ! n ! j"
  shows "FunctionalF_call q n j F =
    (Inr (q (np_mul (F_K F ! j) (F_R F ! n)) (F_y F)),
     F\<lparr>F_quad_calls := Suc (F_quad_calls F),
       F_matrix := set_entry (F_matrix F) n j (q (np_mul (F_K F ! j) (F_R F ! n)) (F_y F)),
       F_mask := set_entry (F_mask F) n j True\<rparr>)"
  using assms
  by (simp add: FunctionalF_call_def wf_F_ranges Let_def)

lemma FunctionalF_call_cached:
  assumes "wf_F F" "n \<le> F_T F" "j < F_N F + 2" "F_mask F ! n ! j"
  shows "FunctionalF_call q n j F = (Inr (F_matrix F ! n ! j), F)"
  using assms
  by (simp add: FunctionalF_call_def wf_F_ranges)

lemma FunctionalF_call_out_of_range:
  assumes "wf_F F" "\<not> (n \<le> F_T F \<and> j < F_N F + 2)"
  shows "FunctionalF_call q n j F = (Inl IndexError, F)"
  using assms
  by (simp add: FunctionalF_call_def wf_F_ranges)

lemma FunctionalF_call_wf:
  assumes "wf_F F"
  shows "wf_F (snd (FunctionalF_call q n j F))"
proof (cases "n \<le> F_T F \<and> j < F_N F + 2")
  case False
  then show ?thesis using assms by (simp add: FunctionalF_call_out_of_range)
next
  case True
  show ?thesis
  proof (cases "F_mask F ! n ! j")
    case True
    with \<open>n \<le> F_T F \<and> j < F_N F + 2\<close> assms show ?thesis
      by (simp add: FunctionalF_call_cached)
  next
    case False
    with \<open>n \<le> F_T F \<and> j < F_N F + 2\<close> assms show ?thesis
      by (simp add: FunctionalF_call_fresh) (simp add: wf_F_def wf_matrix_set_entry)
  qed
qed

lemma FunctionalF_call_keeps:
  assumes "wf_F F" "n \<le> F_T F" "j < F_N F + 2" "F_mask F ! n ! j"
  shows "F_mask (snd (FunctionalF_call q m i F)) ! n ! j
       \<and> F_matrix (snd (FunctionalF_call q m i F)) ! n ! j = F_matrix F ! n ! j
       \<and> F_T (snd (FunctionalF_call q m i F)) = F_T F
       \<and> F_N (snd (FunctionalF_call q m i F)) = F_N F"
proof (cases "m \<le> F_T F \<and> i < F_N F + 2")
  case False
  then show ?thesis using assms by (simp add: FunctionalF_call_out_of_range)
next
  case True
  show ?thesis
  proof (cases "F_mask F ! m ! i")
    case True
    with \<open>m \<le> F_T F \<and> i < F_N F + 2\<close> assms show ?thesis
      by (simp add: FunctionalF_call_cached)
  next
    case False
    with \<open>m \<le> F_T F \<and> i < F_N F + 2\<close> assms show ?thesis
      by (auto simp add: FunctionalF_call_fresh set_entry_nth wf_F_ranges)
  qed
qed

lemma FunctionalF_actualize_row_ok:
  assumes "wf_F F" "n \<le> F_T F" "length row = F_M F + 2"
  shows "FunctionalF_actualize_row row n F =
     (Inr (), F\<lparr>F_R := (F_R F)[n := row], F_mask := update_mask_row n False (F_mask F)\<rparr>)"
  using assms
  by (simp add: FunctionalF_actualize_row_def validate_nth_row_def wf_F_ranges Let_def)

lemma FunctionalF_actualize_row_shape:
  assumes "wf_F F" "n \<le> F_T F" "length row \<noteq> F_M F + 2"
  shows "FunctionalF_actualize_row row n F = (Inl ShapeMismatch, F)"
  using assms
  by (simp add: FunctionalF_actualize_row_def validate_nth_row_def wf_F_ranges Let_def)

lemma FunctionalF_actualize_row_index:
  assumes "wf_F F" "\<not> n \<le> F_T F"
  shows "FunctionalF_actualize_row row n F = (Inl IndexError, F)"
  using assms
  by (simp add: FunctionalF_actualize_row_def validate_nth_row_def wf_F_ranges Let_def)

lemma FunctionalF_actualize_row_wf:
  assumes "wf_F F"
  shows "wf_F (snd (FunctionalF_actualize_row row n F))"
proof (cases "n \<le> F_T F")
  case False
  then show ?thesis using assms by (simp add: FunctionalF_actualize_row_index)
next
  case True
  show ?thesis
  proof (cases "length row = F_M F + 2")
    case True
    with \<open>n \<le> F_T F\<close> assms show ?thesis
      by (simp add: FunctionalF_actualize_row_ok) (simp add: wf_F_def wf_matrix_update wf_matrix_update_mask_row)
  next
    case False
    with \<open>n \<le> F_T F\<close> assms show ?thesis
      by (simp add: FunctionalF_actualize_row_shape)
  qed
qed

lemma FunctionalF_actualize_row_keeps:
  assumes "wf_F F" "n \<le> F_T F" "m \<noteq> n"
  shows "F_mask (snd (FunctionalF_actualize_row row m F)) ! n = F_mask F ! n
       \<and> F_matrix (snd (FunctionalF_actualize_row row m F)) = F_matrix F
       \<and> F_T (snd (FunctionalF_actualize_row row m F)) = F_T F
       \<and> F_N (snd (FunctionalF_actualize_row row m F)) = F_N F"
proof (cases "m \<le> F_T F")
  case False
  then show ?thesis using assms by (simp add: FunctionalF_actualize_row_index)
next
  case True
  show ?thesis
  proof (cases "length row = F_M F + 2")
    case True
    with \<open>m \<le> F_T F\<close> assms show ?thesis
      by (simp add: FunctionalF_actualize_row_ok update_mask_row_nth wf_F_ranges)
  next
    case False
    with \<open>m \<le> F_T F\<close> assms show ?thesis
      by (simp add: FunctionalF_actualize_row_shape)
  qed
qed

lemma FunctionalF_run_cached:
  assumes "wf_F F" "n \<le> F_T F" "j < F_N F + 2" "F_mask F ! n ! j"
    and "list_all (\<lambda>op. \<not> touches_row n op) ops"
  shows "FunctionalF_call q n j (FunctionalF_run q ops F) =
           (Inr (F_matrix F ! n ! j), FunctionalF_run q ops F)"
  using assms
proof (induction ops arbitrary: F)
  case Nil
  then show ?case by (simp add: FunctionalF_call_cached)
next
  case (Cons op ops)
  show ?case
  proof (cases op)
    case (Evaluate m i)
    let ?F1 = "snd (FunctionalF_call q m i F)"
    have k: "F_mask ?F1 ! n ! j" "F_matrix ?F1 ! n ! j = F_matrix F ! n ! j"
         "F_T ?F1 = F_T F" "F_N ?F1 = F_N F"
      using FunctionalF_call_keeps [OF Cons.prems(1-4), of q m i] by simp_all
    have "FunctionalF_call q n j (FunctionalF_run q ops ?F1) =
           (Inr (F_matrix ?F1 ! n ! j), FunctionalF_run q ops ?F1)"
      using Cons.prems k by (intro Cons.IH) (simp_all add: FunctionalF_call_wf)
    then show ?thesis using Evaluate k by simp
  next
    case (Actualize_row row m)
    let ?F1 = "snd (FunctionalF_actualize_row row m F)"
    have mn: "m \<noteq> n" using Cons.prems(5) Actualize_row by simp
    have k: "F_mask ?F1 ! n = F_mask F ! n" "F_matrix ?F1 = F_matrix F"
         "F_T ?F1 = F_T F" "F_N ?F1 = F_N F"
      using FunctionalF_actualize_row_keeps [OF Cons.prems(1,2) mn, of row] by simp_all
    have "FunctionalF_call q n j (FunctionalF_run q ops ?F1) =
           (Inr (F_matrix ?F1 ! n ! j), FunctionalF_run q ops ?F1)"
      using Cons.prems k by (intro Cons.IH) (simp_all add: FunctionalF_actualize_row_wf)
    then show ?thesis using Actualize_row k by simp
  qed
qed

section \<open>The cache of FunctionalG\<close>

lemma wf_G_ranges:
  assumes "wf_G G"
  shows "in_range2 (G_mask G) n j \<longleftrightarrow> n \<le> G_T G \<and> j < G_M G + 2"
    and "in_range2 (G_matrix G) n j \<longleftrightarrow> n \<le> G_T G \<and> j < G_M G + 2"
    and "length (G_K G) = G_N G + 2" and "length (G_u G) = G_T G + 1"
    and "length (G_mask G) = G_T G + 1" and "length (G_matrix G) = G_T G + 1"
    and "j < G_M G + 2 \<Longrightarrow> list_all (\<lambda>row. j < length row) (G_K G)"
    and "length (G_r G) = G_N G + 2"
    and "n \<le> G_T G \<Longrightarrow> length (G_u G ! n) = G_N G + 2"
    and "n \<le> G_T G \<Longrightarrow> length (G_mask G ! n) = G_M G + 2"
    and "n \<le> G_T G \<Longrightarrow> length (G_matrix G ! n) = G_M G + 2"
    and "length (G_x G) = G_N G + 2"
  using assms by (auto simp: wf_G_def wf_matrix_def in_range2_def list_all_length)

lemma FunctionalG_call_fresh:
  assumes "wf_G G" "n \<le> G_T G" "j < G_M G + 2" "\<not> G_mask G ! n ! j"
  shows "FunctionalG_call q n j G =
    (Inr (q (np_mul (np_mul (G_r G) (column (G_K G) j)) (G_u G ! n)) (G_x G)),
     G\<lparr>G_quad_calls := Suc (G_quad_calls G),
       G_matrix := set_entry (G_matrix G) n j (q (np_mul (np_mul (G_r G) (column (G_K G) j)) (G_u G ! n)) (G_x G)),
       G_mask := set_entry (G_mask G) n j True\<rparr>)"
  using assms
  by (simp add: FunctionalG_call_def wf_G_ranges Let_def)

lemma FunctionalG_call_cached:
  assumes "wf_G G" "n \<le> G_T G" "j < G_M G + 2" "G_mask G ! n ! j"
  shows "FunctionalG_call q n j G = (Inr (G_matrix G ! n ! j), G)"
  using assms
  by (simp add: FunctionalG_call_def wf_G_ranges)

lemma FunctionalG_call_out_of_range:
  assumes "wf_G G" "\<not> (n \<le> G_T G \<and> j < G_M G + 2)"
  shows "FunctionalG_call q n j G = (Inl IndexError, G)"
  using assms
  by (simp add: FunctionalG_call_def wf_G_ranges)

lemma FunctionalG_call_wf:
  assumes "wf_G G"
  shows "wf_G (snd (FunctionalG_call q n j G))"
proof (cases "n \<le> G_T G \<and> j < G_M G + 2")
  case False
  then show ?thesis using assms by (simp add: FunctionalG_call_out_of_range)
next
  case True
  show ?thesis
  proof (cases "G_mask G ! n ! j")
    case True
    with \<open>n \<le> G_T G \<and> j < G_M G + 2\<close> assms show ?thesis
      by (simp add: FunctionalG_call_cached)
  next
    case False
    with \<open>n \<le> G_T G \<and> j < G_M G + 2\<close> assms show ?thesis
      by (simp add: FunctionalG_call_fresh) (simp add: wf_G_def wf_matrix_set_entry)
  qed
qed

lemma FunctionalG_call_keeps:
  assumes "wf_G G" "n \<le> G_T G" "j < G_M G + 2" "G_mask G ! n ! j"
  shows "G_mask (snd (FunctionalG_call q m i G)) ! n ! j
       \<and> G_matrix (snd (FunctionalG_call q m i G)) ! n ! j = G_matrix G ! n ! j
       \<and> G_T (snd (FunctionalG_call q m i G)) = G_T G
       \<and> G_M (snd (FunctionalG_call q m i G)) = G_M G"
proof (cases "m \<le> G_T G \<and> i < G_M G + 2")
  case False
  then show ?thesis using assms by (simp add: FunctionalG_call_out_of_range)
next
  case True
  show ?thesis
  proof (cases "G_mask G ! m ! i")
    case True
    with \<open>m \<le> G_T G \<and> i < G_M G + 2\<close> assms show ?thesis
      by (simp add: FunctionalG_call_cached)
  next
    case False
    with \<open>m \<le> G_T G \<and> i < G_M G + 2\<close> assms show ?thesis
      by (auto simp add: FunctionalG_call_fresh set_entry_nth wf_G_ranges)
  qed
qed

lemma FunctionalG_actualize_row_ok:
  assumes "wf_G G" "n \<le> G_T G" "length row = G_N G + 2"
  shows "FunctionalG_actualize_row row n G =
     (Inr (), G\<lparr>G_u := (G_u G)[n := row], G_mask := update_mask_row n False (G_mask G)\<rparr>)"
  using assms
  by (simp add: FunctionalG_actualize_row_def validate_nth_row_def wf_G_ranges Let_def)

lemma FunctionalG_actualize_row_shape:
  assumes "wf_G G" "n \<le> G_T G" "length row \<noteq> G_N G + 2"
  shows "FunctionalG_actualize_row row n G = (Inl ShapeMismatch, G)"
  using assms
  by (simp add: FunctionalG_actualize_row_def validate_nth_row_def wf_G_ranges Let_def)

lemma FunctionalG_actualize_row_index:
  assumes "wf_G G" "\<not> n \<le> G_T G"
  shows "FunctionalG_actualize_row row n G = (Inl IndexError, G)"
  using assms
  by (simp add: FunctionalG_actualize_row_def validate_nth_row_def wf_G_ranges Let_def)

lemma FunctionalG_actualize_row_wf:
  assumes "wf_G G"
  shows "wf_G (snd (FunctionalG_actualize_row row n G))"
proof (cases "n \<le> G_T G")
  case False
  then show ?thesis using assms by (simp add: FunctionalG_actualize_row_index)
next
  case True
  show ?thesis
  proof (cases "length row = G_N G + 2")
    case True
    with \<open>n \<le> G_T G\<close> assms show ?thesis
      by (simp add: FunctionalG_actualize_row_ok) (simp add: wf_G_def wf_matrix_update wf_matrix_update_mask_row)
  next
    case False
    with \<open>n \<le> G_T G\<close> assms show ?thesis
      by (simp add: FunctionalG_actualize_row_shape)
  qed
qed

lemma FunctionalG_actualize_row_keeps:
  assumes "wf_G G" "n \<le> G_T G" "m \<noteq> n"
  shows "G_mask (snd (FunctionalG_actualize_row row m G)) ! n = G_mask G ! n
       \<and> G_matrix (snd (FunctionalG_actualize_row row m G)) = G_matrix G
       \<and> G_T (snd (FunctionalG_actualize_row row m G)) = G_T G
       \<and> G_M (snd (FunctionalG_actualize_row row m G)) = G_M G"
proof (cases "m \<le> G_T G")
  case False
  then show ?thesis using assms by (simp add: FunctionalG_actualize_row_index)
next
  case True
  show ?thesis
  proof (cases "length row = G_N G + 2")
    case True
    with \<open>m \<le> G_T G\<close> assms show ?thesis
      by (simp add: FunctionalG_actualize_row_ok update_mask_row_nth wf_G_ranges)
  next
    case False
    with \<open>m \<le> G_T G\<close> assms show ?thesis
      by (simp add: FunctionalG_actualize_row_shape)
  qed
qed

lemma FunctionalG_run_cached:
  assumes "wf_G G" "n \<le> G_T G" "j < G_M G + 2" "G_mask G ! n ! j"
    and "list_all (\<lambda>op. \<not> touches_row n op) ops"
  shows "FunctionalG_call q n j (FunctionalG_run q ops G) =
           (Inr (G_matrix G ! n ! j), FunctionalG_run q ops G)"
  using assms
proof (induction ops arbitrary: G)
  case Nil
  then show ?case by (simp add: FunctionalG_call_cached)
next
  case (Cons op ops)
  show ?case
  proof (cases op)
    case (Evaluate m i)
    let ?G1 = "snd (FunctionalG_call q m i G)"
    have k: "G_mask ?G1 ! n ! j" "G_matrix ?G1 ! n ! j = G_matrix G ! n ! j"
         "G_T ?G1 = G_T G" "G_M ?G1 = G_M G"
      using FunctionalG_call_keeps [OF Cons.prems(1-4), of q m i] by simp_all
    have "FunctionalG_call q n j (FunctionalG_run q ops ?G1) =
           (Inr (G_matrix ?G1 ! n ! j), FunctionalG_run q ops ?G1)"
      using Cons.prems k by (intro Cons.IH) (simp_all add: FunctionalG_call_wf)
    then show ?thesis using Evaluate k by simp
  next
    case (Actualize_row row m)
    let ?G1 = "snd (FunctionalG_actualize_row row m G)"
    have mn: "m \<noteq> n" using Cons.prems(5) Actualize_row by simp
    have k: "G_mask ?G1 ! n = G_mask G ! n" "G_matrix ?G1 = G_matrix G"
         "G_T ?G1 = G_T G" "G_M ?G1 = G_M G"
      using FunctionalG_actualize_row_keeps [OF Cons.prems(1,2) mn, of row] by simp_all
    have "FunctionalG_call q n j (FunctionalG_run q ops ?G1) =
           (Inr (G_matrix ?G1 ! n ! j), FunctionalG_run q ops ?G1)"
      using Cons.prems k by (intro Cons.IH) (simp_all add: FunctionalG_actualize_row_wf)
    then show ?thesis using Actualize_row k by simp
  qed
qed

section \<open>Memoization\<close>

lemma wf_ex_F: "wf_F ex_F"
  by (simp add: wf_F_def wf_matrix_def ex_F_def)

lemma wf_ex_G: "wf_G ex_G"
  by (simp add: wf_G_def wf_matrix_def ex_G_def)

text \<open>
  Claim C1. For FunctionalF and for FunctionalG: an evaluation at an index pair whose
  mask entry is \<open>False\<close> calls the quadrature once (the count of calls grows by one),
  stores its result in the matrix entry, sets the mask entry to \<open>True\<close> and returns the
  result; after any further calls on the object, none of them an \<^verbatim>\<open>actualize_row\<close> on the
  same row, an evaluation at the same index pair returns the same value and leaves the
  object as it is: no quadrature, the same matrix and the same mask.
\<close>

theorem memoization_idempotence:
  assumes "wf_F F" "n \<le> F_T F" "j < F_N F + 2" "\<not> F_mask F ! n ! j"
    and "list_all (\<lambda>op. \<not> touches_row n op) ops"
    and "wf_G G" "m \<le> G_T G" "k < G_M G + 2" "\<not> G_mask G ! m ! k"
    and "list_all (\<lambda>op. \<not> touches_row m op) ops'"
  shows
    "(let v = simpson (np_mul (F_K F ! j) (F_R F ! n)) (F_y F);
          F1 = snd (FunctionalF_call simpson n j F);
          F2 = FunctionalF_run simpson ops F1
      in fst (FunctionalF_call simpson n j F) = Inr v
         \<and> F_matrix F1 = set_entry (F_matrix F) n j v \<and> F_matrix F1 ! n ! j = v
         \<and> F_mask F1 = set_entry (F_mask F) n j True \<and> F_mask F1 ! n ! j
         \<and> F_quad_calls F1 = F_quad_calls F + 1
         \<and> FunctionalF_call simpson n j F2 = (Inr v, F2))
   \<and> (let w = simpson (np_mul (np_mul (G_r G) (column (G_K G) k)) (G_u G ! m)) (G_x G);
          G1 = snd (FunctionalG_call simpson m k G);
          G2 = FunctionalG_run simpson ops' G1
      in fst (FunctionalG_call simpson m k G) = Inr w
         \<and> G_matrix G1 = set_entry (G_matrix G) m k w \<and> G_matrix G1 ! m ! k = w
         \<and> G_mask G1 = set_entry (G_mask G) m k True \<and> G_mask G1 ! m ! k
         \<and> G_quad_calls G1 = G_quad_calls G + 1
         \<and> FunctionalG_call simpson m k G2 = (Inr w, G2))"
proof -
  let ?v = "simpson (np_mul (F_K F ! j) (F_R F ! n)) (F_y F)"
  let ?F1 = "snd (FunctionalF_call simpson n j F)"
  have F1: "FunctionalF_call simpson n j F = (Inr ?v,
      F\<lparr>F_quad_calls := Suc (F_quad_calls F), F_matrix := set_entry (F_matrix F) n j ?v,
        F_mask := set_entry (F_mask F) n j True\<rparr>)"
    using assms(1-4) by (rule FunctionalF_call_fresh)
  have rF: "in_range2 (F_matrix F) n j" "in_range2 (F_mask F) n j"
    using assms(1-3) by (simp_all add: wf_F_ranges)
  have eF: "F_matrix ?F1 ! n ! j = ?v" "F_mask ?F1 ! n ! j" "F_T ?F1 = F_T F" "F_N ?F1 = F_N F"
    using rF by (simp_all add: F1 set_entry_nth)
  have wF: "wf_F ?F1" using assms(1) by (rule FunctionalF_call_wf)
  have cF: "FunctionalF_call simpson n j (FunctionalF_run simpson ops ?F1) =
              (Inr (F_matrix ?F1 ! n ! j), FunctionalF_run simpson ops ?F1)"
    using wF assms(2,3,5) eF by (intro FunctionalF_run_cached) simp_all
  let ?w = "simpson (np_mul (np_mul (G_r G) (column (G_K G) k)) (G_u G ! m)) (G_x G)"
  let ?G1 = "snd (FunctionalG_call simpson m k G)"
  have G1: "FunctionalG_call simpson m k G = (Inr ?w,
      G\<lparr>G_quad_calls := Suc (G_quad_calls G), G_matrix := set_entry (G_matrix G) m k ?w,
        G_mask := set_entry (G_mask G) m k True\<rparr>)"
    using assms(6-9) by (rule FunctionalG_call_fresh)
  have rG: "in_range2 (G_matrix G) m k" "in_range2 (G_mask G) m k"
    using assms(6-8) by (simp_all add: wf_G_ranges)
  have eG: "G_matrix ?G1 ! m ! k = ?w" "G_mask ?G1 ! m ! k" "G_T ?G1 = G_T G" "G_M ?G1 = G_M G"
    using rG by (simp_all add: G1 set_entry_nth)
  have wG: "wf_G ?G1" using assms(6) by (rule FunctionalG_call_wf)
  have cG: "FunctionalG_call simpson m k (FunctionalG_run simpson ops' ?G1) =
              (Inr (G_matrix ?G1 ! m ! k), FunctionalG_run simpson ops' ?G1)"
    using wG assms(7,8,10) eG by (intro FunctionalG_run_cached) simp_all
  have "fst (FunctionalF_call simpson n j F) = Inr ?v
         \<and> F_matrix ?F1 = set_entry (F_matrix F) n j ?v \<and> F_matrix ?F1 ! n ! j = ?v
         \<and> F_mask ?F1 = set_entry (F_mask F) n j True \<and> F_mask ?F1 ! n ! j
         \<and> F_quad_calls ?F1 = F_quad_calls F + 1"
    using eF by (simp add: F1)
  moreover have "fst (FunctionalG_call simpson m k G) = Inr ?w
         \<and> G_matrix ?G1 = set_entry (G_matrix G) m k ?w \<and> G_matrix ?G1 ! m ! k = ?w
         \<and> G_mask ?G1 = set_entry (G_mask G) m k True \<and> G_mask ?G1 ! m ! k
         \<and> G_quad_calls ?G1 = G_quad_calls G + 1"
    using eG by (simp add: G1)
  ultimately show ?thesis
    unfolding Let_def using cF [unfolded eF(1)] cG [unfolded eG(1)] by blast
qed

theorem memoization_idempotence_witness:
  "wf_F ex_F \<and> \<not> F_mask ex_F ! 0 ! 0 \<and> list_all (\<lambda>op. \<not> touches_row 0 op) ex_ops
   \<and> wf_G ex_G \<and> \<not> G_mask ex_G ! 0 ! 0
   \<and> fst (FunctionalF_call simpson_rule 0 0 ex_F) = Inr 1
   \<and> F_quad_calls (snd (FunctionalF_call simpson_rule 0 0 ex_F)) = 1
   \<and> FunctionalF_call simpson_rule 0 0
        (FunctionalF_run simpson_rule ex_ops (snd (FunctionalF_call simpson_rule 0 0 ex_F)))
      = (Inr 1, FunctionalF_run simpson_rule ex_ops (snd (FunctionalF_call simpson_rule 0 0 ex_F)))
   \<and> fst (FunctionalG_call simpson_rule 0 0 ex_G) = Inr 1
   \<and> G_quad_calls (snd (FunctionalG_call simpson_rule 0 0 ex_G)) = 1
   \<and> FunctionalG_call simpson_rule 0 0
        (FunctionalG_run simpson_rule ex_ops (snd (FunctionalG_call simpson_rule 0 0 ex_G)))
      = (Inr 1, FunctionalG_run simpson_rule ex_ops (snd (FunctionalG_call simpson_rule 0 0 ex_G)))"
proof -
  have h1: "0 \<le> F_T ex_F" "0 < F_N ex_F + 2" "\<not> F_mask ex_F ! 0 ! 0"
    by (simp_all add: ex_F_def)
  have h2: "0 \<le> G_T ex_G" "0 < G_M ex_G + 2" "\<not> G_mask ex_G ! 0 ! 0"
    by (simp_all add: ex_G_def)
  have h3: "list_all (\<lambda>op. \<not> touches_row 0 op) ex_ops" by (simp add: ex_ops_def)
  have vF: "simpson_rule (np_mul (F_K ex_F ! 0) (F_R ex_F ! 0)) (F_y ex_F) = 1"
    by (simp add: ex_F_def np_mul_def)
  have vG: "simpson_rule (np_mul (np_mul (G_r ex_G) (column (G_K ex_G) 0)) (G_u ex_G ! 0)) (G_x ex_G) = 1"
    by (simp add: ex_G_def np_mul_def column_def)
  have qF: "F_quad_calls ex_F = 0" by (simp add: ex_F_def)
  have qG: "G_quad_calls ex_G = 0" by (simp add: ex_G_def)
  show ?thesis
    using memoization_idempotence [OF wf_ex_F h1 h3 wf_ex_G h2 h3, where simpson = simpson_rule]
    unfolding Let_def vF vG qF qG
    using wf_ex_F wf_ex_G h1(3) h2(3) h3 by simp
qed

section \<open>Invalidation\<close>

lemma FunctionalF_actualize_row_success:
  assumes "wf_F F" "FunctionalF_actualize_row row n F = (Inr (), F1)"
  shows "n \<le> F_T F \<and> length row = F_M F + 2
       \<and> F1 = F\<lparr>F_R := (F_R F)[n := row], F_mask := update_mask_row n False (F_mask F)\<rparr>"
proof (cases "n \<le> F_T F")
  case False
  then show ?thesis using assms by (simp add: FunctionalF_actualize_row_index)
next
  case True
  show ?thesis
  proof (cases "length row = F_M F + 2")
    case True
    with \<open>n \<le> F_T F\<close> assms show ?thesis
      by (simp add: FunctionalF_actualize_row_ok)
  next
    case False
    with \<open>n \<le> F_T F\<close> assms show ?thesis
      by (simp add: FunctionalF_actualize_row_shape)
  qed
qed

lemma FunctionalG_actualize_row_success:
  assumes "wf_G G" "FunctionalG_actualize_row row n G = (Inr (), G1)"
  shows "n \<le> G_T G \<and> length row = G_N G + 2
       \<and> G1 = G\<lparr>G_u := (G_u G)[n := row], G_mask := update_mask_row n False (G_mask G)\<rparr>"
proof (cases "n \<le> G_T G")
  case False
  then show ?thesis using assms by (simp add: FunctionalG_actualize_row_index)
next
  case True
  show ?thesis
  proof (cases "length row = G_N G + 2")
    case True
    with \<open>n \<le> G_T G\<close> assms show ?thesis
      by (simp add: FunctionalG_actualize_row_ok)
  next
    case False
    with \<open>n \<le> G_T G\<close> assms show ?thesis
      by (simp add: FunctionalG_actualize_row_shape)
  qed
qed

lemma FunctionalF_invalidation:
  assumes "wf_F F" "FunctionalF_actualize_row new_row n F = (Inr (), F1)" "j < F_N F + 2"
  shows "F_mask F1 ! n = replicate (F_N F + 2) False
       \<and> F_R F1 ! n = new_row \<and> F_matrix F1 = F_matrix F
       \<and> fst (FunctionalF_call simpson n j F1) = Inr (simpson (np_mul (F_K F ! j) new_row) (F_y F))
       \<and> F_quad_calls (snd (FunctionalF_call simpson n j F1)) = F_quad_calls F1 + 1
       \<and> F_matrix (snd (FunctionalF_call simpson n j F1)) ! n ! j
           = simpson (np_mul (F_K F ! j) new_row) (F_y F)"
proof -
  note s = FunctionalF_actualize_row_success [OF assms(1,2)]
  have w1: "wf_F F1" using FunctionalF_actualize_row_wf [OF assms(1), of new_row n] assms(2) by simp
  have e: "F_T F1 = F_T F" "F_N F1 = F_N F" "F_K F1 = F_K F" "F_y F1 = F_y F"
          "F_matrix F1 = F_matrix F"
    using s by simp_all
  have m: "F_mask F1 ! n = replicate (F_N F + 2) False"
    using s assms(1) by (simp add: update_mask_row_nth wf_F_ranges)
  have r: "F_R F1 ! n = new_row" using s assms(1) by (simp add: wf_F_ranges)
  have nm: "\<not> F_mask F1 ! n ! j" using assms(3) unfolding m by (metis nth_replicate)
  have c: "FunctionalF_call simpson n j F1 =
    (Inr (simpson (np_mul (F_K F1 ! j) (F_R F1 ! n)) (F_y F1)),
     F1\<lparr>F_quad_calls := Suc (F_quad_calls F1),
       F_matrix := set_entry (F_matrix F1) n j (simpson (np_mul (F_K F1 ! j) (F_R F1 ! n)) (F_y F1)),
       F_mask := set_entry (F_mask F1) n j True\<rparr>)"
    using w1 s assms(3) nm e by (intro FunctionalF_call_fresh) simp_all
  have "in_range2 (F_matrix F) n j" using assms(1,3) s by (simp add: wf_F_ranges)
  then have rg: "in_range2 (F_matrix F1) n j" by (simp add: e)
  show ?thesis using m r e rg by (simp add: c set_entry_nth)
qed

lemma FunctionalG_invalidation:
  assumes "wf_G G" "FunctionalG_actualize_row new_row n G = (Inr (), G1)" "k < G_M G + 2"
  shows "G_mask G1 ! n = replicate (G_M G + 2) False
       \<and> G_u G1 ! n = new_row \<and> G_matrix G1 = G_matrix G
       \<and> fst (FunctionalG_call simpson n k G1)
           = Inr (simpson (np_mul (np_mul (G_r G) (column (G_K G) k)) new_row) (G_x G))
       \<and> G_quad_calls (snd (FunctionalG_call simpson n k G1)) = G_quad_calls G1 + 1
       \<and> G_matrix (snd (FunctionalG_call simpson n k G1)) ! n ! k
           = simpson (np_mul (np_mul (G_r G) (column (G_K G) k)) new_row) (G_x G)"
proof -
  note s = FunctionalG_actualize_row_success [OF assms(1,2)]
  have w1: "wf_G G1" using FunctionalG_actualize_row_wf [OF assms(1), of new_row n] assms(2) by simp
  have e: "G_T G1 = G_T G" "G_M G1 = G_M G" "G_K G1 = G_K G" "G_x G1 = G_x G" "G_r G1 = G_r G"
          "G_matrix G1 = G_matrix G"
    using s by simp_all
  have m: "G_mask G1 ! n = replicate (G_M G + 2) False"
    using s assms(1) by (simp add: update_mask_row_nth wf_G_ranges)
  have r: "G_u G1 ! n = new_row" using s assms(1) by (simp add: wf_G_ranges)
  have nm: "\<not> G_mask G1 ! n ! k" using assms(3) unfolding m by (metis nth_replicate)
  have c: "FunctionalG_call simpson n k G1 =
    (Inr (simpson (np_mul (np_mul (G_r G1) (column (G_K G1) k)) (G_u G1 ! n)) (G_x G1)),
     G1\<lparr>G_quad_calls := Suc (G_quad_calls G1),
       G_matrix := set_entry (G_matrix G1) n k
          (simpson (np_mul (np_mul (G_r G1) (column (G_K G1) k)) (G_u G1 ! n)) (G_x G1)),
       G_mask := set_entry (G_mask G1) n k True\<rparr>)"
    using w1 s assms(3) nm e by (intro FunctionalG_call_fresh) simp_all
  have "in_range2 (G_matrix G) n k" using assms(1,3) s by (simp add: wf_G_ranges)
  then have rg: "in_range2 (G_matrix G1) n k" by (simp add: e)
  show ?thesis using m r e rg by (simp add: c set_entry_nth)
qed

lemma ex_F_cached_eq:
  "ex_F_cached = ex_F\<lparr>F_quad_calls := 1,
                       F_matrix := [[1, 0, 0], [0, 0, 0]],
                       F_mask := [[True, False, False], [False, False, False]]\<rparr>"
proof -
  have h: "0 \<le> F_T ex_F" "0 < F_N ex_F + 2" "\<not> F_mask ex_F ! 0 ! 0" by (simp_all add: ex_F_def)
  have v: "simpson_rule (np_mul (F_K ex_F ! 0) (F_R ex_F ! 0)) (F_y ex_F) = 1"
    by (simp add: ex_F_def np_mul_def)
  have m: "set_entry (F_matrix ex_F) 0 0 1 = [[1, 0, 0], [0, 0, 0]]"
          "set_entry (F_mask ex_F) 0 0 True = [[True, False, False], [False, False, False]]"
    by (simp_all add: ex_F_def set_entry_def)
  show ?thesis
  proof -
    have q: "F_quad_calls ex_F = 0" by (simp add: ex_F_def)
    show ?thesis
      unfolding ex_F_cached_def FunctionalF_call_fresh [OF wf_ex_F h] v m by (simp add: q)
  qed
qed

lemma ex_G_cached_eq:
  "ex_G_cached = ex_G\<lparr>G_quad_calls := 1,
                       G_matrix := [[1, 0, 0], [0, 0, 0]],
                       G_mask := [[True, False, False], [False, False, False]]\<rparr>"
proof -
  have h: "0 \<le> G_T ex_G" "0 < G_M ex_G + 2" "\<not> G_mask ex_G ! 0 ! 0" by (simp_all add: ex_G_def)
  have v: "simpson_rule (np_mul (np_mul (G_r ex_G) (column (G_K ex_G) 0)) (G_u ex_G ! 0)) (G_x ex_G) = 1"
    by (simp add: ex_G_def np_mul_def column_def)
  have m: "set_entry (G_matrix ex_G) 0 0 1 = [[1, 0, 0], [0, 0, 0]]"
          "set_entry (G_mask ex_G) 0 0 True = [[True, False, False], [False, False, False]]"
    by (simp_all add: ex_G_def set_entry_def)
  show ?thesis
  proof -
    have q: "G_quad_calls ex_G = 0" by (simp add: ex_G_def)
    show ?thesis
      unfolding ex_G_cached_def FunctionalG_call_fresh [OF wf_ex_G h] v m by (simp add: q)
  qed
qed

lemma wf_ex_F_cached: "wf_F ex_F_cached"
  unfolding ex_F_cached_def by (rule FunctionalF_call_wf [OF wf_ex_F])

lemma wf_ex_G_cached: "wf_G ex_G_cached"
  unfolding ex_G_cached_def by (rule FunctionalG_call_wf [OF wf_ex_G])

text \<open>
  Claim C2. For FunctionalF and for FunctionalG, whatever the cache and its mask hold:
  \<^verbatim>\<open>actualize_row(new_row, n)\<close> on a row index \<open>n \<le> T\<close> with a row of the length of the
  mesh succeeds (and by \<open>FunctionalF_actualize_row_success\<close> and
  \<open>FunctionalG_actualize_row_success\<close> these are the only calls that succeed); after it
  every mask entry of cache row \<open>n\<close> is \<open>False\<close>, the private copy of dependency row \<open>n\<close>
  is \<open>new_row\<close>, and the next evaluation at \<open>(n, j)\<close>, for any column \<open>j\<close>, calls the
  quadrature on \<open>new_row\<close> (the count of calls grows by one) and returns and stores that
  value, whatever the cache matrix held before.
\<close>

theorem invalidation:
  assumes "wf_F F" "n \<le> F_T F" "length new_row = F_M F + 2" "j < F_N F + 2"
    and "wf_G G" "m \<le> G_T G" "length new_row' = G_N G + 2" "k < G_M G + 2"
  shows "(fst (FunctionalF_actualize_row new_row n F) = Inr ()
       \<and> (let F1 = snd (FunctionalF_actualize_row new_row n F) in
          F_mask F1 ! n = replicate (F_N F + 2) False
        \<and> F_R F1 ! n = new_row \<and> F_matrix F1 = F_matrix F
        \<and> fst (FunctionalF_call simpson n j F1)
            = Inr (simpson (np_mul (F_K F ! j) new_row) (F_y F))
        \<and> F_quad_calls (snd (FunctionalF_call simpson n j F1)) = F_quad_calls F1 + 1
        \<and> F_matrix (snd (FunctionalF_call simpson n j F1)) ! n ! j
            = simpson (np_mul (F_K F ! j) new_row) (F_y F)
        \<and> F_mask (snd (FunctionalF_call simpson n j F1)) ! n ! j))
     \<and> (fst (FunctionalG_actualize_row new_row' m G) = Inr ()
       \<and> (let G1 = snd (FunctionalG_actualize_row new_row' m G) in
          G_mask G1 ! m = replicate (G_M G + 2) False
        \<and> G_u G1 ! m = new_row' \<and> G_matrix G1 = G_matrix G
        \<and> fst (FunctionalG_call simpson m k G1)
            = Inr (simpson (np_mul (np_mul (G_r G) (column (G_K G) k)) new_row') (G_x G))
        \<and> G_quad_calls (snd (FunctionalG_call simpson m k G1)) = G_quad_calls G1 + 1
        \<and> G_matrix (snd (FunctionalG_call simpson m k G1)) ! m ! k
            = simpson (np_mul (np_mul (G_r G) (column (G_K G) k)) new_row') (G_x G)
        \<and> G_mask (snd (FunctionalG_call simpson m k G1)) ! m ! k))"
proof -
  obtain F1 where aF: "FunctionalF_actualize_row new_row n F = (Inr (), F1)"
    using FunctionalF_actualize_row_ok [OF assms(1-3)] by blast
  obtain G1 where aG: "FunctionalG_actualize_row new_row' m G = (Inr (), G1)"
    using FunctionalG_actualize_row_ok [OF assms(5-7)] by blast
  note iF = FunctionalF_invalidation [OF assms(1) aF assms(4), of simpson]
  note iG = FunctionalG_invalidation [OF assms(5) aG assms(8), of simpson]
  have w1: "wf_F F1" using FunctionalF_actualize_row_wf [OF assms(1), of new_row n] aF by simp
  have w2: "wf_G G1" using FunctionalG_actualize_row_wf [OF assms(5), of new_row' m] aG by simp
  have eF: "F_T F1 = F_T F" "F_N F1 = F_N F"
    using FunctionalF_actualize_row_success [OF assms(1) aF] by simp_all
  have eG: "G_T G1 = G_T G" "G_M G1 = G_M G"
    using FunctionalG_actualize_row_success [OF assms(5) aG] by simp_all
  have nF: "\<not> F_mask F1 ! n ! j" using iF assms(4) by (metis nth_replicate)
  have nG: "\<not> G_mask G1 ! m ! k" using iG assms(8) by (metis nth_replicate)
  have rF: "in_range2 (F_mask F1) n j" using w1 assms(2,4) eF by (simp add: wf_F_ranges)
  have rG: "in_range2 (G_mask G1) m k" using w2 assms(6,8) eG by (simp add: wf_G_ranges)
  have cF: "FunctionalF_call simpson n j F1 =
    (Inr (simpson (np_mul (F_K F1 ! j) (F_R F1 ! n)) (F_y F1)),
     F1\<lparr>F_quad_calls := Suc (F_quad_calls F1),
       F_matrix := set_entry (F_matrix F1) n j (simpson (np_mul (F_K F1 ! j) (F_R F1 ! n)) (F_y F1)),
       F_mask := set_entry (F_mask F1) n j True\<rparr>)"
    using w1 assms(2,4) nF eF by (intro FunctionalF_call_fresh) simp_all
  have cG: "FunctionalG_call simpson m k G1 =
    (Inr (simpson (np_mul (np_mul (G_r G1) (column (G_K G1) k)) (G_u G1 ! m)) (G_x G1)),
     G1\<lparr>G_quad_calls := Suc (G_quad_calls G1),
       G_matrix := set_entry (G_matrix G1) m k
          (simpson (np_mul (np_mul (G_r G1) (column (G_K G1) k)) (G_u G1 ! m)) (G_x G1)),
       G_mask := set_entry (G_mask G1) m k True\<rparr>)"
    using w2 assms(6,8) nG eG by (intro FunctionalG_call_fresh) simp_all
  have mF: "F_mask (snd (FunctionalF_call simpson n j F1)) ! n ! j"
    using rF by (simp add: cF set_entry_nth)
  have mG: "G_mask (snd (FunctionalG_call simpson m k G1)) ! m ! k"
    using rG by (simp add: cG set_entry_nth)
  show ?thesis
    unfolding Let_def aF aG fst_conv snd_conv using iF iG mF mG by blast
qed

text \<open>
  The two functionals hold a cached entry at \<open>(0, 0)\<close>, the value 1 with its mask set;
  after \<^verbatim>\<open>actualize_row\<close> on row 0 the mask of the row is cleared, and the evaluation
  at \<open>(0, 0)\<close> returns the integral of the new row, not the cached 1.
\<close>

theorem invalidation_witness:
  "wf_F ex_F_cached \<and> wf_G ex_G_cached
   \<and> F_mask ex_F_cached ! 0 = [True, False, False] \<and> F_matrix ex_F_cached ! 0 ! 0 = 1
   \<and> fst (FunctionalF_call simpson_rule 0 0 ex_F_cached) = Inr 1
   \<and> G_mask ex_G_cached ! 0 = [True, False, False] \<and> G_matrix ex_G_cached ! 0 ! 0 = 1
   \<and> fst (FunctionalG_call simpson_rule 0 0 ex_G_cached) = Inr 1
   \<and> fst (FunctionalF_actualize_row [2, 2, 2] 0 ex_F_cached) = Inr ()
   \<and> F_mask (snd (FunctionalF_actualize_row [2, 2, 2] 0 ex_F_cached)) ! 0
        = [False, False, False]
   \<and> F_R (snd (FunctionalF_actualize_row [2, 2, 2] 0 ex_F_cached)) ! 0 = [2, 2, 2]
   \<and> F_matrix (snd (FunctionalF_actualize_row [2, 2, 2] 0 ex_F_cached)) ! 0 ! 0 = 1
   \<and> fst (FunctionalF_call simpson_rule 0 0
            (snd (FunctionalF_actualize_row [2, 2, 2] 0 ex_F_cached))) = Inr 2
   \<and> fst (FunctionalG_actualize_row [3, 3, 3] 0 ex_G_cached) = Inr ()
   \<and> G_mask (snd (FunctionalG_actualize_row [3, 3, 3] 0 ex_G_cached)) ! 0
        = [False, False, False]
   \<and> G_u (snd (FunctionalG_actualize_row [3, 3, 3] 0 ex_G_cached)) ! 0 = [3, 3, 3]
   \<and> G_matrix (snd (FunctionalG_actualize_row [3, 3, 3] 0 ex_G_cached)) ! 0 ! 0 = 1
   \<and> fst (FunctionalG_call simpson_rule 0 0
            (snd (FunctionalG_actualize_row [3, 3, 3] 0 ex_G_cached))) = Inr 3"
proof -
  have hF: "0 \<le> F_T ex_F_cached" "length [2, 2, 2 :: real] = F_M ex_F_cached + 2"
           "0 < F_N ex_F_cached + 2"
    by (simp_all add: ex_F_cached_eq ex_F_def)
  have hG: "0 \<le> G_T ex_G_cached" "length [3, 3, 3 :: real] = G_N ex_G_cached + 2"
           "0 < G_M ex_G_cached + 2"
    by (simp_all add: ex_G_cached_eq ex_G_def)
  have vF: "simpson_rule (np_mul (F_K ex_F_cached ! 0) [2, 2, 2]) (F_y ex_F_cached) = 2"
    by (simp add: ex_F_cached_eq ex_F_def np_mul_def)
  have vG: "simpson_rule (np_mul (np_mul (G_r ex_G_cached) (column (G_K ex_G_cached) 0)) [3, 3, 3])
              (G_x ex_G_cached) = 3"
    by (simp add: ex_G_cached_eq ex_G_def np_mul_def column_def)
  have nF: "replicate (F_N ex_F_cached + 2) False = [False, False, False]"
    by (simp add: ex_F_cached_eq ex_F_def)
  have nG: "replicate (G_M ex_G_cached + 2) False = [False, False, False]"
    by (simp add: ex_G_cached_eq ex_G_def)
  have oF: "F_mask ex_F_cached ! 0 = [True, False, False]" "F_matrix ex_F_cached ! 0 ! 0 = 1"
    by (simp_all add: ex_F_cached_eq)
  have oG: "G_mask ex_G_cached ! 0 = [True, False, False]" "G_matrix ex_G_cached ! 0 ! 0 = 1"
    by (simp_all add: ex_G_cached_eq)
  have sF: "fst (FunctionalF_call simpson_rule 0 0 ex_F_cached) = Inr 1"
    using FunctionalF_call_cached [OF wf_ex_F_cached hF(1) hF(3), of simpson_rule] oF by simp
  have sG: "fst (FunctionalG_call simpson_rule 0 0 ex_G_cached) = Inr 1"
    using FunctionalG_call_cached [OF wf_ex_G_cached hG(1) hG(3), of simpson_rule] oG by simp
  note th = invalidation [OF wf_ex_F_cached hF wf_ex_G_cached hG, where simpson = simpson_rule,
                          unfolded Let_def vF vG nF nG]
  show ?thesis
    using th wf_ex_F_cached wf_ex_G_cached oF oG sF sG by simp
qed

section \<open>The shape contract of actualize\_row\<close>

lemma wf_U_ranges:
  assumes "wf_U s"
  shows "wf_F (U_F s)" and "F_N (U_F s) = U_N s" and "F_M (U_F s) = U_M s"
    and "F_T (U_F s) = U_T s"
    and "length (U_m_1 s) = U_N s + 2" and "length (U_r s) = U_N s + 2"
    and "length (U_u s) = U_T s + 1" and "length (U_R s) = U_T s + 1"
    and "length (U_mask s) = U_T s + 1"
    and "n \<le> U_T s \<Longrightarrow> length (U_u s ! n) = U_N s + 2"
    and "n \<le> U_T s \<Longrightarrow> length (U_R s ! n) = U_M s + 2"
    and "n \<le> U_T s \<Longrightarrow> length (U_mask s ! n) = U_N s + 2"
  using assms by (auto simp: wf_U_def wf_matrix_def list_all_length)

lemma wf_R_ranges:
  assumes "wf_R s"
  shows "wf_G (R_G s)" and "G_N (R_G s) = R_N s" and "G_M (R_G s) = R_M s"
    and "G_T (R_G s) = R_T s"
    and "length (R_m_2 s) = R_M s + 2" and "length (R_R_in s) = R_M s + 2"
    and "length (R_r s) = R_N s + 2"
    and "length (R_u s) = R_T s + 1" and "length (R_R s) = R_T s + 1"
    and "length (R_mask s) = R_T s + 1"
    and "n \<le> R_T s \<Longrightarrow> length (R_u s ! n) = R_N s + 2"
    and "n \<le> R_T s \<Longrightarrow> length (R_R s ! n) = R_M s + 2"
    and "n \<le> R_T s \<Longrightarrow> length (R_mask s ! n) = R_M s + 2"
  using assms by (auto simp: wf_R_def wf_matrix_def list_all_length)

lemma SolverU_actualize_row_ok:
  assumes "wf_U s" "n \<le> U_T s" "length row = U_M s + 2"
  shows "SolverU_actualize_row row n s =
     (Inr (), s\<lparr>U_R := (U_R s)[n := row],
               U_F := (U_F s)\<lparr>F_R := (F_R (U_F s))[n := row],
                               F_mask := update_mask_row n False (F_mask (U_F s))\<rparr>,
               U_mask := update_mask_row n False (U_mask s)\<rparr>)"
proof -
  have "FunctionalF_actualize_row row n (U_F s) =
     (Inr (), (U_F s)\<lparr>F_R := (F_R (U_F s))[n := row],
                      F_mask := update_mask_row n False (F_mask (U_F s))\<rparr>)"
    using assms by (intro FunctionalF_actualize_row_ok) (simp_all add: wf_U_ranges)
  then show ?thesis using assms
    by (simp add: SolverU_actualize_row_def validate_nth_row_def wf_U_ranges Let_def)
qed

lemma SolverU_actualize_row_shape:
  assumes "wf_U s" "n \<le> U_T s" "length row \<noteq> U_M s + 2"
  shows "SolverU_actualize_row row n s = (Inl ShapeMismatch, s)"
  using assms
  by (simp add: SolverU_actualize_row_def validate_nth_row_def wf_U_ranges)

lemma SolverU_actualize_row_index:
  assumes "wf_U s" "\<not> n \<le> U_T s"
  shows "SolverU_actualize_row row n s = (Inl IndexError, s)"
  using assms
  by (simp add: SolverU_actualize_row_def wf_U_ranges)

lemma SolverR_actualize_row_ok:
  assumes "wf_R s" "n \<le> R_T s" "length row = R_N s + 2"
  shows "SolverR_actualize_row row n s =
     (Inr (), s\<lparr>R_u := (R_u s)[n := row],
               R_G := (R_G s)\<lparr>G_u := (G_u (R_G s))[n := row],
                               G_mask := update_mask_row n False (G_mask (R_G s))\<rparr>,
               R_mask := update_mask_row n False (R_mask s)\<rparr>)"
proof -
  have "FunctionalG_actualize_row row n (R_G s) =
     (Inr (), (R_G s)\<lparr>G_u := (G_u (R_G s))[n := row],
                      G_mask := update_mask_row n False (G_mask (R_G s))\<rparr>)"
    using assms by (intro FunctionalG_actualize_row_ok) (simp_all add: wf_R_ranges)
  then show ?thesis using assms
    by (simp add: SolverR_actualize_row_def validate_nth_row_def wf_R_ranges Let_def)
qed

lemma SolverR_actualize_row_shape:
  assumes "wf_R s" "n \<le> R_T s" "length row \<noteq> R_N s + 2"
  shows "SolverR_actualize_row row n s = (Inl ShapeMismatch, s)"
  using assms
  by (simp add: SolverR_actualize_row_def validate_nth_row_def wf_R_ranges)

lemma SolverR_actualize_row_index:
  assumes "wf_R s" "\<not> n \<le> R_T s"
  shows "SolverR_actualize_row row n s = (Inl IndexError, s)"
  using assms
  by (simp add: SolverR_actualize_row_def wf_R_ranges)

lemma FunctionalF_shape_contract:
  assumes "wf_F F"
  shows "(n \<le> F_T F \<longrightarrow>
            (fst (FunctionalF_actualize_row row n F) = Inl ShapeMismatch
               \<longleftrightarrow> length row \<noteq> F_M F + 2))
       \<and> (\<forall>e. fst (FunctionalF_actualize_row row n F) = Inl e
               \<longrightarrow> snd (FunctionalF_actualize_row row n F) = F)"
proof (cases "n \<le> F_T F")
  case False
  then show ?thesis using assms by (simp add: FunctionalF_actualize_row_index)
next
  case True
  then show ?thesis using assms
    by (cases "length row = F_M F + 2")
       (simp_all add: FunctionalF_actualize_row_ok FunctionalF_actualize_row_shape)
qed

lemma FunctionalG_shape_contract:
  assumes "wf_G G"
  shows "(n \<le> G_T G \<longrightarrow>
            (fst (FunctionalG_actualize_row row n G) = Inl ShapeMismatch
               \<longleftrightarrow> length row \<noteq> G_N G + 2))
       \<and> (\<forall>e. fst (FunctionalG_actualize_row row n G) = Inl e
               \<longrightarrow> snd (FunctionalG_actualize_row row n G) = G)"
proof (cases "n \<le> G_T G")
  case False
  then show ?thesis using assms by (simp add: FunctionalG_actualize_row_index)
next
  case True
  then show ?thesis using assms
    by (cases "length row = G_N G + 2")
       (simp_all add: FunctionalG_actualize_row_ok FunctionalG_actualize_row_shape)
qed

lemma SolverU_shape_contract:
  assumes "wf_U s"
  shows "(n \<le> U_T s \<longrightarrow>
            (fst (SolverU_actualize_row row n s) = Inl ShapeMismatch
               \<longleftrightarrow> length row \<noteq> U_M s + 2))
       \<and> (\<forall>e. fst (SolverU_actualize_row row n s) = Inl e
               \<longrightarrow> snd (SolverU_actualize_row row n s) = s)"
proof (cases "n \<le> U_T s")
  case False
  then show ?thesis using assms by (simp add: SolverU_actualize_row_index)
next
  case True
  then show ?thesis using assms
    by (cases "length row = U_M s + 2")
       (simp_all add: SolverU_actualize_row_ok SolverU_actualize_row_shape)
qed

lemma SolverR_shape_contract:
  assumes "wf_R s"
  shows "(n \<le> R_T s \<longrightarrow>
            (fst (SolverR_actualize_row row n s) = Inl ShapeMismatch
               \<longleftrightarrow> length row \<noteq> R_N s + 2))
       \<and> (\<forall>e. fst (SolverR_actualize_row row n s) = Inl e
               \<longrightarrow> snd (SolverR_actualize_row row n s) = s)"
proof (cases "n \<le> R_T s")
  case False
  then show ?thesis using assms by (simp add: SolverR_actualize_row_index)
next
  case True
  then show ?thesis using assms
    by (cases "length row = R_N s + 2")
       (simp_all add: SolverR_actualize_row_ok SolverR_actualize_row_shape)
qed

lemma wf_ex_U: "wf_U ex_U"
  using wf_ex_F by (simp add: wf_U_def wf_matrix_def ex_U_def) (simp add: ex_F_def)

lemma wf_ex_R: "wf_R ex_R"
  using wf_ex_G by (simp add: wf_R_def wf_matrix_def ex_R_def) (simp add: ex_G_def)

text \<open>
  Claim C8. For every functional and every solver, and every row index \<open>n\<close> of the
  field (\<open>n \<le> T\<close>), \<^verbatim>\<open>actualize_row(row, n)\<close> raises a ShapeMismatch error if and only if
  the length of \<open>row\<close> differs from the mesh dimension of the row it updates: \<open>M+2\<close> for
  FunctionalF and for the resource row given to SolverU, \<open>N+2\<close> for FunctionalG and for
  the population row given to SolverR. Whenever it raises, the object is left as it was:
  the stored field copy, the cache matrix and the mask are unchanged.
\<close>

theorem shape_contract:
  assumes "wf_F F" "wf_G G" "wf_U u" "wf_R R"
  shows "((n \<le> F_T F \<longrightarrow>
            (fst (FunctionalF_actualize_row row n F) = Inl ShapeMismatch
               \<longleftrightarrow> length row \<noteq> F_M F + 2))
       \<and> (\<forall>e. fst (FunctionalF_actualize_row row n F) = Inl e
               \<longrightarrow> snd (FunctionalF_actualize_row row n F) = F))
     \<and> ((n \<le> G_T G \<longrightarrow>
            (fst (FunctionalG_actualize_row row n G) = Inl ShapeMismatch
               \<longleftrightarrow> length row \<noteq> G_N G + 2))
       \<and> (\<forall>e. fst (FunctionalG_actualize_row row n G) = Inl e
               \<longrightarrow> snd (FunctionalG_actualize_row row n G) = G))
     \<and> ((n \<le> U_T u \<longrightarrow>
            (fst (SolverU_actualize_row row n u) = Inl ShapeMismatch
               \<longleftrightarrow> length row \<noteq> U_M u + 2))
       \<and> (\<forall>e. fst (SolverU_actualize_row row n u) = Inl e
               \<longrightarrow> snd (SolverU_actualize_row row n u) = u))
     \<and> ((n \<le> R_T R \<longrightarrow>
            (fst (SolverR_actualize_row row n R) = Inl ShapeMismatch
               \<longleftrightarrow> length row \<noteq> R_N R + 2))
       \<and> (\<forall>e. fst (SolverR_actualize_row row n R) = Inl e
               \<longrightarrow> snd (SolverR_actualize_row row n R) = R))"
  using FunctionalF_shape_contract [OF assms(1), of n row]
        FunctionalG_shape_contract [OF assms(2), of n row]
        SolverU_shape_contract [OF assms(3), of n row]
        SolverR_shape_contract [OF assms(4), of n row]
  by blast

theorem shape_contract_witness:
  "wf_F ex_F \<and> wf_G ex_G \<and> wf_U ex_U \<and> wf_R ex_R
   \<and> FunctionalF_actualize_row [1, 2, 3, 4, 5] 1 ex_F = (Inl ShapeMismatch, ex_F)
   \<and> FunctionalG_actualize_row [1, 2, 3, 4, 5] 1 ex_G = (Inl ShapeMismatch, ex_G)
   \<and> SolverU_actualize_row [1, 2, 3, 4, 5] 1 ex_U = (Inl ShapeMismatch, ex_U)
   \<and> SolverR_actualize_row [1, 2, 3, 4, 5] 1 ex_R = (Inl ShapeMismatch, ex_R)"
proof -
  have d: "1 \<le> F_T ex_F" "1 \<le> G_T ex_G" "1 \<le> U_T ex_U" "1 \<le> R_T ex_R"
    "length [1, 2, 3, 4, 5 :: real] \<noteq> F_M ex_F + 2"
    "length [1, 2, 3, 4, 5 :: real] \<noteq> G_N ex_G + 2"
    "length [1, 2, 3, 4, 5 :: real] \<noteq> U_M ex_U + 2"
    "length [1, 2, 3, 4, 5 :: real] \<noteq> R_N ex_R + 2"
    by (simp_all add: ex_F_def ex_G_def ex_U_def ex_R_def)
  show ?thesis
    using shape_contract [OF wf_ex_F wf_ex_G wf_ex_U wf_ex_R, of 1 "[1, 2, 3, 4, 5]"] d
          wf_ex_F wf_ex_G wf_ex_U wf_ex_R
    by (metis prod.collapse)
qed

section \<open>The step counter\<close>

lemma SolverU_actualize_row_step [simp]:
  "U_current_step (snd (SolverU_actualize_row row n s)) = U_current_step s"
  by (simp add: SolverU_actualize_row_def Let_def split: sum.splits prod.splits)

lemma SolverR_actualize_row_step [simp]:
  "R_current_step (snd (SolverR_actualize_row row n s)) = R_current_step s"
  by (simp add: SolverR_actualize_row_def Let_def split: sum.splits prod.splits)

lemma SolverU_create_transition_matrix_step:
  "U_current_step (snd (SolverU_create_transition_matrix q n s)) = U_current_step s"
  by (simp add: SolverU_create_transition_matrix_def Let_def split: sum.splits prod.splits)

lemma SolverU_actualize_step_np1_step [simp]:
  "U_current_step (snd (SolverU_actualize_step_np1 q n s)) = U_current_step s"
proof -
  obtain r s1 where c: "SolverU_create_transition_matrix q n s = (r, s1)"
    by (cases "SolverU_create_transition_matrix q n s")
  have "U_current_step s1 = U_current_step s"
    using SolverU_create_transition_matrix_step [of q n s] c by simp
  then show ?thesis
    by (simp add: SolverU_actualize_step_np1_def c Let_def split: sum.splits)
qed

lemma SolverRMethod1_step [simp]:
  "R_current_step (snd (SolverRMethod1_actualize_step_np1 q n s)) = R_current_step s"
  by (simp add: SolverRMethod1_actualize_step_np1_def Let_def split: sum.splits prod.splits)

lemma SolverRMethod2_step [simp]:
  "R_current_step (snd (SolverRMethod2_actualize_step_np1 q n s)) = R_current_step s"
  by (simp add: SolverRMethod2_actualize_step_np1_def Let_def split: sum.splits prod.splits)

lemma SolverU_run_step: "U_current_step (SolverU_run q ops s) = U_current_step s"
proof (induction ops arbitrary: s)
  case Nil
  show ?case by simp
next
  case (Cons op ops)
  show ?case by (cases op) (simp_all add: Cons.IH)
qed

lemma SolverR_run_step: "R_current_step (SolverR_run cls q ops s) = R_current_step s"
proof (induction ops arbitrary: s)
  case Nil
  show ?case by simp
next
  case (Cons op ops)
  show ?case using Cons.IH by (cases op; cases cls) simp_all
qed

lemma ex_U_step:
  "SolverU_actualize_step_np1 simpson_rule 0 ex_U =
     (Inr [11/10, 11/10, 11/10],
      ex_U\<lparr>U_u := [[1, 1, 1], [11/10, 11/10, 11/10]],
           U_F := ex_F\<lparr>F_matrix := [[1, 1, 1], [0, 0, 0]],
                       F_mask := [[True, True, True], [False, False, False]],
                       F_quad_calls := 3\<rparr>,
           U_mask := [[True, True, True], [True, True, True]]\<rparr>)"
  by (simp add: SolverU_actualize_step_np1_def ex_U_def ex_F_def is_row_calculated_def
     SolverU_create_transition_matrix_def FunctionalF_getitem_def FunctionalF_call_def
     in_range2_def set_entry_def np_mul_def np_add_def np_neg_def scalar_mul_def scalar_add_def
     np_diag_def mat_add_def dot_def update_mask_row_def Let_def)

lemma SolverU_init_step:
  "SolverU_init m_1 eps r K u_0 R_0 cfg = Inr s \<Longrightarrow> U_current_step s = 0"
  by (auto simp: SolverU_init_def split: sum.splits if_splits)

lemma SolverR_init_step:
  "SolverR_init m_2 R_in r K u_0 R_0 cfg = Inr s \<Longrightarrow> R_current_step s = 0"
  by (auto simp: SolverR_init_def split: sum.splits if_splits)

text \<open>
  Claim C9, as the code has it. No method of a solver calls \<^verbatim>\<open>_update_step\<close>: through
  every sequence of \<^verbatim>\<open>actualize_row\<close> and \<^verbatim>\<open>actualize_step_np1\<close> calls, on SolverU and on
  either SolverR, \<open>current_step\<close> keeps its value, so it never decreases and stays at
  the 0 the constructor gave it, also across a call that computes a new row.
  \<^verbatim>\<open>_update_step(n)\<close> alone changes it, to \<open>n + 1\<close>.
\<close>

theorem current_step_unchanged:
  "U_current_step (SolverU_run simpson ops u) = U_current_step u
   \<and> R_current_step (SolverR_run cls simpson ops r) = R_current_step r
   \<and> U_current_step (SolverU_update_step n u) = n + 1
   \<and> R_current_step (SolverR_update_step n r) = n + 1
   \<and> (\<forall>s. SolverU_init m_1 eps rr K u_0 R_0 cfg = Inr s \<longrightarrow> U_current_step s = 0)
   \<and> (\<forall>s. SolverR_init m_2 R_in rr K u_0 R_0 cfg = Inr s \<longrightarrow> R_current_step s = 0)"
  by (simp add: SolverU_run_step SolverR_run_step SolverU_update_step_def
        SolverR_update_step_def SolverU_init_step SolverR_init_step)

theorem current_step_unchanged_witness:
  "U_current_step
     (SolverU_run simpson_rule [Op_actualize_row [1, 1, 1] 0, Op_actualize_step_np1 0] ex_U) = 0
   \<and> R_current_step
     (SolverR_run SolverRMethod2 simpson_rule
        [Op_actualize_row [1, 1, 1] 0, Op_actualize_step_np1 0] ex_R) = 0
   \<and> U_current_step (SolverU_update_step 5 ex_U) = 6"
proof -
  have z: "U_current_step ex_U = 0" "R_current_step ex_R = 0"
    by (simp_all add: ex_U_def ex_R_def)
  show ?thesis
    using current_step_unchanged [of simpson_rule
            "[Op_actualize_row [1, 1, 1] 0, Op_actualize_step_np1 0]" ex_U SolverRMethod2 ex_R 5]
    by (simp add: z)
qed

text \<open>
  Claim C9 as stated fails: on the concrete solver, \<^verbatim>\<open>actualize_step_np1(0)\<close> computes
  the new row 1 and marks it computed, and \<open>current_step\<close> is 0 before and after.
\<close>

theorem current_step_counterexample:
  "\<not> is_row_calculated 1 (U_mask ex_U)
   \<and> fst (SolverU_actualize_step_np1 simpson_rule 0 ex_U) = Inr [11/10, 11/10, 11/10]
   \<and> is_row_calculated 1 (U_mask (snd (SolverU_actualize_step_np1 simpson_rule 0 ex_U)))
   \<and> U_current_step ex_U = 0
   \<and> U_current_step (snd (SolverU_actualize_step_np1 simpson_rule 0 ex_U)) = 0"
  by (simp add: ex_U_step is_row_calculated_def) (simp add: ex_U_def)

section \<open>The entry point with its default arguments\<close>

lemma sample_inputs_None:
  assumes "arg_y_lims a = None \<or> arg_M a = None"
  shows "sample_inputs a =
           (if arg_N a + 2 < 0 then Inl ValueError else Inl TypeError)"
  using assms
  by (auto simp: sample_inputs_def linspace_def split: option.splits)

text \<open>
  Claim C10. A call of \<^verbatim>\<open>solve_perthame\<close> that leaves \<open>y_lims\<close> as \<open>None\<close> or \<open>M\<close> as
  \<open>None\<close> raises while the meshes and the sampled arrays are built, so before any solver
  object is constructed, and never returns solvers: there is no fallback to
  \<open>y_lims = x_lims\<close> or \<open>M = N\<close>. The exception is a TypeError exactly when \<^verbatim>\<open>np.linspace\<close>
  accepts the size \<open>N + 2\<close> of the mesh \<open>x\<close> on line 37, that is when \<open>N + 2\<close> is not
  negative; with a negative \<open>N + 2\<close> it is the ValueError of line 37, raised before the
  \<open>None\<close> is touched on line 38.
\<close>

theorem solve_perthame_None_defaults:
  assumes "arg_y_lims a = None \<or> arg_M a = None"
  shows "sample_inputs a = (if arg_N a + 2 < 0 then Inl ValueError else Inl TypeError)
       \<and> solve_perthame simpson a
           = (if arg_N a + 2 < 0 then Inl ValueError else Inl TypeError)"
  using sample_inputs_None [OF assms]
  by (simp add: solve_perthame_def)

theorem solve_perthame_None_defaults_witness:
  "arg_y_lims ex_default_args = None \<and> arg_M ex_default_args = None
   \<and> sample_inputs ex_default_args = Inl TypeError
   \<and> solve_perthame simpson_rule ex_default_args = Inl TypeError
   \<and> sample_inputs (ex_default_args\<lparr>arg_M := Some 100\<rparr>) = Inl TypeError
   \<and> solve_perthame simpson_rule (ex_default_args\<lparr>arg_M := Some 100\<rparr>) = Inl TypeError
   \<and> sample_inputs (ex_default_args\<lparr>arg_y_lims := Some (0, 1)\<rparr>) = Inl TypeError
   \<and> solve_perthame simpson_rule (ex_default_args\<lparr>arg_y_lims := Some (0, 1)\<rparr>)
         = Inl TypeError"
proof -
  have h: "arg_y_lims ex_default_args = None" "arg_M ex_default_args = None"
    "\<not> arg_N ex_default_args + 2 < 0"
    by (simp_all add: ex_default_args_def)
  have h1: "arg_y_lims (ex_default_args\<lparr>arg_M := Some 100\<rparr>) = None
              \<or> arg_M (ex_default_args\<lparr>arg_M := Some 100\<rparr>) = None"
    by (simp add: ex_default_args_def)
  have h2: "arg_y_lims (ex_default_args\<lparr>arg_y_lims := Some (0, 1)\<rparr>) = None
              \<or> arg_M (ex_default_args\<lparr>arg_y_lims := Some (0, 1)\<rparr>) = None"
    by (simp add: ex_default_args_def)
  show ?thesis
    using solve_perthame_None_defaults [OF disjI1 [OF h(1)], of simpson_rule]
          solve_perthame_None_defaults [OF h1, of simpson_rule]
          solve_perthame_None_defaults [OF h2, of simpson_rule] h
    by simp
qed

text \<open>
  The claim as worded fails at \<open>N = -3\<close>: \<open>y_lims\<close> and \<open>M\<close> are \<open>None\<close>, and the call raises
  the ValueError of \<^verbatim>\<open>np.linspace(*x_lims, N + 2)\<close> with \<open>N + 2 = -1\<close>, not a TypeError.
\<close>

theorem solve_perthame_None_defaults_counterexample:
  "arg_y_lims (ex_default_args\<lparr>arg_N := - 3\<rparr>) = None
   \<and> arg_M (ex_default_args\<lparr>arg_N := - 3\<rparr>) = None
   \<and> sample_inputs (ex_default_args\<lparr>arg_N := - 3\<rparr>) = Inl ValueError
   \<and> solve_perthame simpson_rule (ex_default_args\<lparr>arg_N := - 3\<rparr>) = Inl ValueError
   \<and> solve_perthame simpson_rule (ex_default_args\<lparr>arg_N := - 3\<rparr>) \<noteq> Inl TypeError"
  by (simp add: solve_perthame_def sample_inputs_def linspace_def ex_default_args_def)

section \<open>Reading a row of FunctionalF\<close>

lemma FunctionalF_call_value:
  assumes "wf_F F" "n \<le> F_T F" "j < F_N F + 2"
  shows "fst (FunctionalF_call q n j F) = Inr (FunctionalF_value q n j F)"
  using assms
  by (cases "F_mask F ! n ! j")
     (simp_all add: FunctionalF_call_cached FunctionalF_call_fresh FunctionalF_value_def)

lemma FunctionalF_call_frame:
  "F_N (snd (FunctionalF_call q n j F)) = F_N F
   \<and> F_M (snd (FunctionalF_call q n j F)) = F_M F
   \<and> F_T (snd (FunctionalF_call q n j F)) = F_T F
   \<and> F_K (snd (FunctionalF_call q n j F)) = F_K F
   \<and> F_R (snd (FunctionalF_call q n j F)) = F_R F
   \<and> F_y (snd (FunctionalF_call q n j F)) = F_y F"
  by (simp add: FunctionalF_call_def Let_def)

lemma FunctionalF_call_value_kept:
  assumes "wf_F F" "n \<le> F_T F" "j < F_N F + 2" "i < F_N F + 2"
  shows "FunctionalF_value q n i (snd (FunctionalF_call q n j F)) = FunctionalF_value q n i F"
proof (cases "F_mask F ! n ! j")
  case True
  then show ?thesis using assms by (simp add: FunctionalF_call_cached)
next
  case False
  have r: "in_range2 (F_matrix F) n j" "in_range2 (F_mask F) n j"
    using assms by (simp_all add: wf_F_ranges)
  have c: "snd (FunctionalF_call q n j F) =
     F\<lparr>F_quad_calls := Suc (F_quad_calls F),
       F_matrix := set_entry (F_matrix F) n j (q (np_mul (F_K F ! j) (F_R F ! n)) (F_y F)),
       F_mask := set_entry (F_mask F) n j True\<rparr>"
    using assms False by (simp add: FunctionalF_call_fresh)
  show ?thesis unfolding c using False r
    by (simp add: FunctionalF_value_def set_entry_nth)
qed

lemma FunctionalF_row_values:
  assumes "wf_F F" "n \<le> F_T F" "list_all (\<lambda>j. j < F_N F + 2) js"
  shows "fst (FunctionalF_row q n js F) = Inr (map (\<lambda>j. FunctionalF_value q n j F) js)
       \<and> wf_F (snd (FunctionalF_row q n js F))
       \<and> F_N (snd (FunctionalF_row q n js F)) = F_N F
       \<and> F_M (snd (FunctionalF_row q n js F)) = F_M F
       \<and> F_T (snd (FunctionalF_row q n js F)) = F_T F
       \<and> F_K (snd (FunctionalF_row q n js F)) = F_K F
       \<and> F_R (snd (FunctionalF_row q n js F)) = F_R F
       \<and> F_y (snd (FunctionalF_row q n js F)) = F_y F"
  using assms
proof (induction js arbitrary: F)
  case Nil
  then show ?case by simp
next
  case (Cons j js)
  let ?F1 = "snd (FunctionalF_call q n j F)"
  have j: "j < F_N F + 2" and js: "list_all (\<lambda>j. j < F_N F + 2) js"
    using Cons.prems(3) by simp_all
  obtain F1 where c: "FunctionalF_call q n j F = (Inr (FunctionalF_value q n j F), F1)"
    using FunctionalF_call_value [OF Cons.prems(1,2) j, of q]
    by (metis prod.collapse)
  have F1: "?F1 = F1" by (simp add: c)
  note fr = FunctionalF_call_frame [of q n j F]
  have w1: "wf_F ?F1" using Cons.prems(1) by (rule FunctionalF_call_wf)
  have ih: "fst (FunctionalF_row q n js ?F1) = Inr (map (\<lambda>j. FunctionalF_value q n j ?F1) js)
       \<and> wf_F (snd (FunctionalF_row q n js ?F1))
       \<and> F_N (snd (FunctionalF_row q n js ?F1)) = F_N ?F1
       \<and> F_M (snd (FunctionalF_row q n js ?F1)) = F_M ?F1
       \<and> F_T (snd (FunctionalF_row q n js ?F1)) = F_T ?F1
       \<and> F_K (snd (FunctionalF_row q n js ?F1)) = F_K ?F1
       \<and> F_R (snd (FunctionalF_row q n js ?F1)) = F_R ?F1
       \<and> F_y (snd (FunctionalF_row q n js ?F1)) = F_y ?F1"
    using w1 Cons.prems(2) js fr by (intro Cons.IH) simp_all
  have v: "map (\<lambda>i. FunctionalF_value q n i ?F1) js = map (\<lambda>i. FunctionalF_value q n i F) js"
    using js FunctionalF_call_value_kept [OF Cons.prems(1,2) j]
    by (simp add: list_all_iff)
  obtain r F2 where r: "FunctionalF_row q n js F1 = (r, F2)"
    by (cases "FunctionalF_row q n js F1")
  have r': "r = Inr (map (\<lambda>i. FunctionalF_value q n i F) js)"
    using ih v unfolding F1 r by simp
  show ?case using ih fr unfolding F1 r
    by (simp add: c r r')
qed

lemma FunctionalF_getitem_values:
  assumes "wf_F F" "n \<le> F_T F"
  shows "fst (FunctionalF_getitem q n F) = Inr (FunctionalF_values q n F)
       \<and> wf_F (snd (FunctionalF_getitem q n F))
       \<and> F_N (snd (FunctionalF_getitem q n F)) = F_N F
       \<and> F_M (snd (FunctionalF_getitem q n F)) = F_M F
       \<and> F_T (snd (FunctionalF_getitem q n F)) = F_T F
       \<and> F_K (snd (FunctionalF_getitem q n F)) = F_K F
       \<and> F_R (snd (FunctionalF_getitem q n F)) = F_R F
       \<and> F_y (snd (FunctionalF_getitem q n F)) = F_y F"
  unfolding FunctionalF_getitem_def FunctionalF_values_def
  using assms by (intro FunctionalF_row_values) (simp_all add: list_all_iff)

section \<open>Reading a row of FunctionalG\<close>

lemma FunctionalG_call_value:
  assumes "wf_G G" "n \<le> G_T G" "j < G_M G + 2"
  shows "fst (FunctionalG_call q n j G) = Inr (FunctionalG_value q n j G)"
  using assms
  by (cases "G_mask G ! n ! j")
     (simp_all add: FunctionalG_call_cached FunctionalG_call_fresh FunctionalG_value_def)

lemma FunctionalG_call_frame:
  "G_N (snd (FunctionalG_call q n j G)) = G_N G
   \<and> G_M (snd (FunctionalG_call q n j G)) = G_M G
   \<and> G_T (snd (FunctionalG_call q n j G)) = G_T G
   \<and> G_K (snd (FunctionalG_call q n j G)) = G_K G
   \<and> G_u (snd (FunctionalG_call q n j G)) = G_u G
   \<and> G_x (snd (FunctionalG_call q n j G)) = G_x G
       \<and> G_r (snd (FunctionalG_call q n j G)) = G_r G"
  by (simp add: FunctionalG_call_def Let_def)

lemma FunctionalG_call_value_kept:
  assumes "wf_G G" "n \<le> G_T G" "j < G_M G + 2" "i < G_M G + 2"
  shows "FunctionalG_value q n i (snd (FunctionalG_call q n j G)) = FunctionalG_value q n i G"
proof (cases "G_mask G ! n ! j")
  case True
  then show ?thesis using assms by (simp add: FunctionalG_call_cached)
next
  case False
  have r: "in_range2 (G_matrix G) n j" "in_range2 (G_mask G) n j"
    using assms by (simp_all add: wf_G_ranges)
  have c: "snd (FunctionalG_call q n j G) =
     G\<lparr>G_quad_calls := Suc (G_quad_calls G),
       G_matrix := set_entry (G_matrix G) n j (q (np_mul (np_mul (G_r G) (column (G_K G) j)) (G_u G ! n)) (G_x G)),
       G_mask := set_entry (G_mask G) n j True\<rparr>"
    using assms False by (simp add: FunctionalG_call_fresh)
  show ?thesis unfolding c using False r
    by (simp add: FunctionalG_value_def set_entry_nth)
qed

lemma FunctionalG_row_values:
  assumes "wf_G G" "n \<le> G_T G" "list_all (\<lambda>j. j < G_M G + 2) js"
  shows "fst (FunctionalG_row q n js G) = Inr (map (\<lambda>j. FunctionalG_value q n j G) js)
       \<and> wf_G (snd (FunctionalG_row q n js G))
       \<and> G_N (snd (FunctionalG_row q n js G)) = G_N G
       \<and> G_M (snd (FunctionalG_row q n js G)) = G_M G
       \<and> G_T (snd (FunctionalG_row q n js G)) = G_T G
       \<and> G_K (snd (FunctionalG_row q n js G)) = G_K G
       \<and> G_u (snd (FunctionalG_row q n js G)) = G_u G
       \<and> G_x (snd (FunctionalG_row q n js G)) = G_x G
       \<and> G_r (snd (FunctionalG_row q n js G)) = G_r G"
  using assms
proof (induction js arbitrary: G)
  case Nil
  then show ?case by simp
next
  case (Cons j js)
  let ?G1 = "snd (FunctionalG_call q n j G)"
  have j: "j < G_M G + 2" and js: "list_all (\<lambda>j. j < G_M G + 2) js"
    using Cons.prems(3) by simp_all
  obtain G1 where c: "FunctionalG_call q n j G = (Inr (FunctionalG_value q n j G), G1)"
    using FunctionalG_call_value [OF Cons.prems(1,2) j, of q]
    by (metis prod.collapse)
  have G1: "?G1 = G1" by (simp add: c)
  note fr = FunctionalG_call_frame [of q n j G]
  have w1: "wf_G ?G1" using Cons.prems(1) by (rule FunctionalG_call_wf)
  have ih: "fst (FunctionalG_row q n js ?G1) = Inr (map (\<lambda>j. FunctionalG_value q n j ?G1) js)
       \<and> wf_G (snd (FunctionalG_row q n js ?G1))
       \<and> G_N (snd (FunctionalG_row q n js ?G1)) = G_N ?G1
       \<and> G_M (snd (FunctionalG_row q n js ?G1)) = G_M ?G1
       \<and> G_T (snd (FunctionalG_row q n js ?G1)) = G_T ?G1
       \<and> G_K (snd (FunctionalG_row q n js ?G1)) = G_K ?G1
       \<and> G_u (snd (FunctionalG_row q n js ?G1)) = G_u ?G1
       \<and> G_x (snd (FunctionalG_row q n js ?G1)) = G_x ?G1
       \<and> G_r (snd (FunctionalG_row q n js ?G1)) = G_r ?G1"
    using w1 Cons.prems(2) js fr by (intro Cons.IH) simp_all
  have v: "map (\<lambda>i. FunctionalG_value q n i ?G1) js = map (\<lambda>i. FunctionalG_value q n i G) js"
    using js FunctionalG_call_value_kept [OF Cons.prems(1,2) j]
    by (simp add: list_all_iff)
  obtain r G2 where r: "FunctionalG_row q n js G1 = (r, G2)"
    by (cases "FunctionalG_row q n js G1")
  have r': "r = Inr (map (\<lambda>i. FunctionalG_value q n i G) js)"
    using ih v unfolding G1 r by simp
  show ?case using ih fr unfolding G1 r
    by (simp add: c r r')
qed

lemma FunctionalG_getitem_values:
  assumes "wf_G G" "n \<le> G_T G"
  shows "fst (FunctionalG_getitem q n G) = Inr (FunctionalG_values q n G)
       \<and> wf_G (snd (FunctionalG_getitem q n G))
       \<and> G_N (snd (FunctionalG_getitem q n G)) = G_N G
       \<and> G_M (snd (FunctionalG_getitem q n G)) = G_M G
       \<and> G_T (snd (FunctionalG_getitem q n G)) = G_T G
       \<and> G_K (snd (FunctionalG_getitem q n G)) = G_K G
       \<and> G_u (snd (FunctionalG_getitem q n G)) = G_u G
       \<and> G_x (snd (FunctionalG_getitem q n G)) = G_x G
       \<and> G_r (snd (FunctionalG_getitem q n G)) = G_r G"
  unfolding FunctionalG_getitem_def FunctionalG_values_def
  using assms by (intro FunctionalG_row_values) (simp_all add: list_all_iff)

section \<open>The transition operator of SolverU\<close>

lemma tabulate_length [simp]: "length (tabulate d f) = d"
  by (simp add: tabulate_def)

lemma tabulate_nth [simp]: "i < d \<Longrightarrow> j < d \<Longrightarrow> tabulate d f ! i ! j = f i j"
  by (simp add: tabulate_def)

lemma tabulate_row_length [simp]: "i < d \<Longrightarrow> length (tabulate d f ! i) = d"
  by (simp add: tabulate_def)

lemma tabulate_cong:
  assumes "\<And>i j. i < d \<Longrightarrow> j < d \<Longrightarrow> f i j = g i j"
  shows "tabulate d f = tabulate d g"
  using assms by (simp add: tabulate_def)

lemma np_diag_tabulate:
  "np_diag v k = tabulate (length v + nat \<bar>k\<bar>)
      (\<lambda>i j. if int j - int i = k then v ! (if 0 \<le> k then i else j) else 0)"
  by (simp add: np_diag_def tabulate_def Let_def)

lemma set_entry_tabulate:
  assumes "a < d" "b < d"
  shows "set_entry (tabulate d f) a b v = tabulate d (\<lambda>i j. if i = a \<and> j = b then v else f i j)"
proof (rule nth_equalityI)
  show "length (set_entry (tabulate d f) a b v) = length (tabulate d (\<lambda>i j. if i = a \<and> j = b then v else f i j))"
    by (simp add: set_entry_def)
next
  fix i assume "i < length (set_entry (tabulate d f) a b v)"
  then have i: "i < d" by (simp add: set_entry_def)
  show "set_entry (tabulate d f) a b v ! i = tabulate d (\<lambda>i j. if i = a \<and> j = b then v else f i j) ! i"
  proof (rule nth_equalityI)
    show "length (set_entry (tabulate d f) a b v ! i)
            = length (tabulate d (\<lambda>i j. if i = a \<and> j = b then v else f i j) ! i)"
      using i assms by (simp add: set_entry_def nth_list_update)
  next
    fix j assume "j < length (set_entry (tabulate d f) a b v ! i)"
    then have j: "j < d" using i assms by (simp add: set_entry_def nth_list_update split: if_splits)
    show "set_entry (tabulate d f) a b v ! i ! j
            = tabulate d (\<lambda>i j. if i = a \<and> j = b then v else f i j) ! i ! j"
      using i j assms by (simp add: set_entry_def nth_list_update)
  qed
qed

lemma mat_add_tabulate:
  "mat_add (tabulate d f) (tabulate d g) = tabulate d (\<lambda>i j. f i j + g i j)"
  by (simp add: mat_add_def np_add_def tabulate_def zip_map_map zip_same_conv_map map2_map_map)

lemma dot_length [simp]: "length (dot A v) = length A"
  by (simp add: dot_def)

lemma transition_operator_tabulate:
  "transition_operator N alpha dt m_1 r F_n = tabulate (N + 2) (\<lambda>i j.
            if (i = 0 \<and> j = 1) \<or> (i = N + 1 \<and> j = N) then 2 * alpha
            else if j = i + 1 \<or> i = j + 1 then alpha
            else if i = j then 1 - 2 * alpha + dt * (- (m_1 ! i) + r ! i * F_n ! i)
            else 0)"
  by (simp add: transition_operator_def tabulate_def)

lemma beta_array_nth:
  assumes "length m_1 = d" "length r = d" "length F_n = d" "i < d"
  shows "scalar_add c (scalar_mul dt (np_add (np_neg m_1) (np_mul r F_n))) ! i
           = c + dt * (- (m_1 ! i) + r ! i * F_n ! i)"
  using assms
  by (simp add: scalar_add_def scalar_mul_def np_add_def np_neg_def np_mul_def)

lemma beta_array_length:
  assumes "length m_1 = d" "length r = d" "length F_n = d"
  shows "length (scalar_add c (scalar_mul dt (np_add (np_neg m_1) (np_mul r F_n)))) = d"
  using assms
  by (simp add: scalar_add_def scalar_mul_def np_add_def np_neg_def np_mul_def)

lemma alpha_array_nth:
  "i < d \<Longrightarrow> scalar_mul alpha (replicate d 1) ! i = alpha"
  by (simp add: scalar_mul_def)

lemma alpha_array_length: "length (scalar_mul alpha (replicate d 1)) = d"
  by (simp add: scalar_mul_def)

lemma np_diag_lower:
  "length a = d \<Longrightarrow> np_diag a (- 1) =
     tabulate (d + 1) (\<lambda>i j. if int j - int i = - 1 then a ! j else 0)"
  by (simp add: np_diag_tabulate cong: if_cong)

lemma np_diag_upper:
  "length a = d \<Longrightarrow> np_diag a 1 =
     tabulate (d + 1) (\<lambda>i j. if int j - int i = 1 then a ! i else 0)"
  by (simp add: np_diag_tabulate cong: if_cong)

lemma np_diag_central:
  "length b = d \<Longrightarrow> np_diag b 0 =
     tabulate d (\<lambda>i j. if int j - int i = 0 then b ! i else 0)"
  by (simp add: np_diag_tabulate cong: if_cong)

lemma transition_matrix_eq:
  assumes "length m_1 = N + 2" "length r = N + 2" "length F_n = N + 2"
  shows "mat_add
           (mat_add
              (set_entry (np_diag (scalar_mul alpha (replicate (N + 1) 1)) (- 1))
                         (N + 1) N (2 * alpha))
              (np_diag (scalar_add (1 - 2 * alpha)
                          (scalar_mul dt (np_add (np_neg m_1) (np_mul r F_n)))) 0))
           (set_entry (np_diag (scalar_mul alpha (replicate (N + 1) 1)) 1) 0 1 (2 * alpha))
         = transition_operator N alpha dt m_1 r F_n"
proof -
  let ?a = "scalar_mul alpha (replicate (N + 1) 1)"
  let ?b = "scalar_add (1 - 2 * alpha) (scalar_mul dt (np_add (np_neg m_1) (np_mul r F_n)))"
  have lb: "length ?b = N + 2" using assms by (rule beta_array_length)
  have la: "length ?a = N + 1" by (rule alpha_array_length)
  have L: "np_diag ?a (- 1) = tabulate (N + 2)
             (\<lambda>i j. if int j - int i = - 1 then ?a ! j else 0)"
    using np_diag_lower [OF la] by (simp only: add.assoc one_add_one)
  have U: "np_diag ?a 1 = tabulate (N + 2)
             (\<lambda>i j. if int j - int i = 1 then ?a ! i else 0)"
    using np_diag_upper [OF la] by (simp only: add.assoc one_add_one)
  have C: "np_diag ?b 0 = tabulate (N + 2)
             (\<lambda>i j. if int j - int i = 0 then ?b ! i else 0)"
    using lb by (rule np_diag_central)
  have r1: "N + 1 < N + 2" "N < N + 2" "0 < N + 2" "1 < N + 2" by simp_all
  show ?thesis
    unfolding L U C transition_operator_tabulate
      set_entry_tabulate [OF r1(1,2)] set_entry_tabulate [OF r1(3,4)] mat_add_tabulate
  proof (rule tabulate_cong)
    fix i j assume ij: "i < N + 2" "j < N + 2"
    show "(if i = N + 1 \<and> j = N then 2 * alpha
           else if int j - int i = - 1 then ?a ! j else 0) +
          (if int j - int i = 0 then ?b ! i else 0) +
          (if i = 0 \<and> j = 1 then 2 * alpha else if int j - int i = 1 then ?a ! i else 0) =
          (if (i = 0 \<and> j = 1) \<or> (i = N + 1 \<and> j = N) then 2 * alpha
           else if j = i + 1 \<or> i = j + 1 then alpha
           else if i = j then 1 - 2 * alpha + dt * (- (m_1 ! i) + r ! i * F_n ! i)
           else 0)"
      using beta_array_nth [OF assms ij(1), of "1 - 2 * alpha" dt]
            alpha_array_nth [of i "N + 1" alpha] alpha_array_nth [of j "N + 1" alpha] ij
      by auto
  qed
qed

lemma FunctionalF_values_length [simp]:
  "length (FunctionalF_values q n F) = F_N F + 2"
  by (simp add: FunctionalF_values_def)

lemma transition_operator_length [simp]:
  "length (transition_operator N alpha dt m_1 r F_n) = N + 2"
  by (simp add: transition_operator_def)

lemma SolverU_create_transition_matrix_ok:
  assumes "wf_U s" "n \<le> U_T s"
  shows "SolverU_create_transition_matrix q n s =
     (Inr (transition_operator (U_N s) (U_eps s * U_dt s / (U_h1 s)\<^sup>2) (U_dt s)
             (U_m_1 s) (U_r s) (FunctionalF_values q n (U_F s))),
      s\<lparr>U_F := snd (FunctionalF_getitem q n (U_F s))\<rparr>)"
proof -
  let ?F_n = "FunctionalF_values q n (U_F s)"
  have wF: "wf_F (U_F s)" and nF: "n \<le> F_T (U_F s)"
    using assms by (simp_all add: wf_U_ranges)
  have "fst (FunctionalF_getitem q n (U_F s)) = Inr ?F_n"
    using FunctionalF_getitem_values [OF wF nF, of q] by simp
  then obtain F1 where g: "FunctionalF_getitem q n (U_F s) = (Inr ?F_n, F1)"
    by (metis prod.collapse)
  have l: "length (U_m_1 s) = U_N s + 2" "length (U_r s) = U_N s + 2"
          "length ?F_n = U_N s + 2"
    using assms by (simp_all add: wf_U_ranges)
  have la: "length (np_diag (scalar_mul (U_eps s * U_dt s / (U_h1 s)\<^sup>2)
                      (replicate (U_N s + 1) 1)) (- 1)) = U_N s + 2"
    by (simp only: np_diag_lower [OF alpha_array_length] tabulate_length add.assoc one_add_one)
  have lc: "length (np_diag (scalar_add (1 - 2 * (U_eps s * U_dt s / (U_h1 s)\<^sup>2))
                      (scalar_mul (U_dt s) (np_add (np_neg (U_m_1 s)) (np_mul (U_r s) ?F_n)))) 0)
            = U_N s + 2"
    by (simp only: np_diag_central [OF beta_array_length [OF l]] tabulate_length)
  have le: "length (set_entry A a b v) = length A" for A :: matrix and a b v
    by (simp add: set_entry_def)
  show ?thesis
    unfolding SolverU_create_transition_matrix_def Let_def g
    using l la lc transition_matrix_eq [OF l, of "U_eps s * U_dt s / (U_h1 s)\<^sup>2" "U_dt s"]
    by (simp add: le)
qed

lemma SolverU_actualize_step_np1_ok:
  assumes "wf_U s" "n < U_T s" "\<not> is_row_calculated (n + 1) (U_mask s)"
  shows "SolverU_actualize_step_np1 q n s =
     (Inr (dot (transition_operator (U_N s) (U_eps s * U_dt s / (U_h1 s)\<^sup>2) (U_dt s)
                  (U_m_1 s) (U_r s) (FunctionalF_values q n (U_F s))) (U_u s ! n)),
      s\<lparr>U_F := snd (FunctionalF_getitem q n (U_F s)),
        U_u := (U_u s)[n + 1 :=
                 dot (transition_operator (U_N s) (U_eps s * U_dt s / (U_h1 s)\<^sup>2) (U_dt s)
                        (U_m_1 s) (U_r s) (FunctionalF_values q n (U_F s))) (U_u s ! n)],
        U_mask := update_mask_row (n + 1) True (U_mask s)\<rparr>)"
proof -
  have n: "n \<le> U_T s" "n + 1 \<le> U_T s" using assms(2) by simp_all
  note c = SolverU_create_transition_matrix_ok [OF assms(1) n(1), of q]
  have l: "length (U_mask s) = U_T s + 1" "length (U_u s) = U_T s + 1"
          "length (U_u s ! n) = U_N s + 2" "length (U_u s ! (n + 1)) = U_N s + 2"
    using assms(1) n by (simp_all add: wf_U_ranges)
  show ?thesis
    unfolding SolverU_actualize_step_np1_def c Let_def
    using assms(2,3) l by simp
qed

text \<open>
  Claim C4. For a step \<open>n\<close> whose row \<open>n+1\<close> of \<open>u\<close> is not marked computed,
  \<^verbatim>\<open>SolverU.actualize_step_np1(n)\<close> sets \<open>u[n+1]\<close> to the product of the transition
  operator and \<open>u[n]\<close>; the operator is the \<open>(N+2) \<times> (N+2)\<close> matrix of the spec, with
  \<open>\<alpha> = eps dt / h1\<^sup>2\<close> off the diagonal, \<open>2\<alpha>\<close> at \<open>(0,1)\<close> and \<open>(N+1,N)\<close>, and
  \<open>1 - 2\<alpha> + dt (- m_1[i] + r[i] F[n][i])\<close> on the diagonal, where \<open>F[n]\<close> is the vector of
  the values of the functional at time row \<open>n\<close>. The call then marks row \<open>n+1\<close> computed
  and returns it. The statement is for a mesh spacing \<open>h1\<close> that is not zero, where the
  quotient of the source is the quotient of the reals.
\<close>

theorem SolverU_step_transition_operator:
  assumes "wf_U s" "n < U_T s" "\<not> is_row_calculated (n + 1) (U_mask s)" "U_h1 s \<noteq> 0"
  shows
    "(let alpha = U_eps s * U_dt s / (U_h1 s)\<^sup>2;
          F_n = FunctionalF_values simpson n (U_F s);
          row = dot (transition_operator (U_N s) alpha (U_dt s) (U_m_1 s) (U_r s) F_n)
                    (U_u s ! n);
          s' = snd (SolverU_actualize_step_np1 simpson n s)
      in fst (FunctionalF_getitem simpson n (U_F s)) = Inr F_n
         \<and> fst (SolverU_actualize_step_np1 simpson n s) = Inr row
         \<and> U_u s' = (U_u s)[n + 1 := row]
         \<and> U_u s' ! (n + 1) = row
         \<and> is_row_calculated (n + 1) (U_mask s')
         \<and> U_mask s' = update_mask_row (n + 1) True (U_mask s))"
proof -
  have n: "n \<le> U_T s" "n + 1 \<le> U_T s" using assms(2) by simp_all
  have wF: "wf_F (U_F s)" and nF: "n \<le> F_T (U_F s)"
    using assms n by (simp_all add: wf_U_ranges)
  have g: "fst (FunctionalF_getitem simpson n (U_F s)) = Inr (FunctionalF_values simpson n (U_F s))"
    using FunctionalF_getitem_values [OF wF nF, of simpson] by simp
  have l: "n + 1 < length (U_mask s)" "n + 1 < length (U_u s)"
    using assms(1) n by (simp_all add: wf_U_ranges)
  have m: "is_row_calculated (n + 1) (update_mask_row (n + 1) True (U_mask s))"
    using l by (simp add: is_row_calculated_def update_mask_row_def list_all_length)
  show ?thesis
    unfolding Let_def SolverU_actualize_step_np1_ok [OF assms(1-3)]
    using g l m by simp
qed

lemma wf_ex_U_diffusing: "wf_U ex_U_diffusing"
  using wf_ex_U by (simp add: wf_U_def ex_U_diffusing_def) (simp add: wf_matrix_def ex_U_def)

theorem SolverU_step_transition_operator_witness:
  "wf_U ex_U_diffusing \<and> \<not> is_row_calculated 1 (U_mask ex_U_diffusing)
   \<and> U_h1 ex_U_diffusing \<noteq> 0
   \<and> FunctionalF_values simpson_rule 0 (U_F ex_U_diffusing) = [1, 1, 1]
   \<and> transition_operator 1 (1/10) (1/10) [0, 0, 0] [1, 1, 1] [1, 1, 1]
        = [[9/10, 2/10, 0], [1/10, 9/10, 1/10], [0, 2/10, 9/10]]
   \<and> fst (SolverU_actualize_step_np1 simpson_rule 0 ex_U_diffusing) = Inr [13/10, 22/10, 31/10]
   \<and> U_u (snd (SolverU_actualize_step_np1 simpson_rule 0 ex_U_diffusing))
        = [[1, 2, 3], [13/10, 22/10, 31/10]]"
proof -
  have h: "0 < U_T ex_U_diffusing" "\<not> is_row_calculated (0 + 1) (U_mask ex_U_diffusing)"
    "U_h1 ex_U_diffusing \<noteq> 0"
    by (simp_all add: ex_U_diffusing_def ex_U_def is_row_calculated_def)
  have v: "FunctionalF_values simpson_rule 0 (U_F ex_U_diffusing) = [1, 1, 1]"
    by (simp add: FunctionalF_values_def FunctionalF_value_def ex_U_diffusing_def ex_U_def
          ex_F_def np_mul_def)
  have a: "U_eps ex_U_diffusing * U_dt ex_U_diffusing / (U_h1 ex_U_diffusing)\<^sup>2 = 1/10"
    by (simp add: ex_U_diffusing_def ex_U_def power2_eq_square)
  have f: "U_N ex_U_diffusing = 1" "U_dt ex_U_diffusing = 1/10" "U_m_1 ex_U_diffusing = [0, 0, 0]"
    "U_r ex_U_diffusing = [1, 1, 1]" "U_u ex_U_diffusing = [[1, 2, 3], [0, 0, 0]]"
    by (simp_all add: ex_U_diffusing_def ex_U_def)
  have t: "transition_operator 1 (1/10) (1/10) [0, 0, 0] [1, 1, 1] [1, 1, 1]
        = [[9/10, 2/10, 0], [1/10, 9/10, 1/10], [0, 2/10, 9/10]]"
    by (simp add: transition_operator_def)
  note th = SolverU_step_transition_operator [OF wf_ex_U_diffusing h, of simpson_rule,
                unfolded Let_def a]
  show ?thesis
    using th [unfolded v f t] wf_ex_U_diffusing h v t by (simp add: dot_def np_mul_def)
qed

section \<open>The two schemes of SolverR\<close>

lemma FunctionalG_values_length [simp]:
  "length (FunctionalG_values q n G) = G_M G + 2"
  by (simp add: FunctionalG_values_def)

lemma SolverRMethod1_actualize_step_np1_ok:
  assumes "wf_R s" "n < R_T s" "\<not> is_row_calculated (n + 1) (R_mask s)"
  shows "SolverRMethod1_actualize_step_np1 q n s =
     (Inr (np_add (np_mul (scalar_sub 1 (scalar_mul (R_dt s)
                      (np_add (R_m_2 s) (FunctionalG_values q n (R_G s))))) (R_R s ! n))
                  (scalar_mul (R_dt s) (R_R_in s))),
      s\<lparr>R_G := snd (FunctionalG_getitem q n (R_G s)),
        R_R := (R_R s)[n + 1 :=
                 np_add (np_mul (scalar_sub 1 (scalar_mul (R_dt s)
                      (np_add (R_m_2 s) (FunctionalG_values q n (R_G s))))) (R_R s ! n))
                  (scalar_mul (R_dt s) (R_R_in s))],
        R_mask := update_mask_row (n + 1) True (R_mask s)\<rparr>)"
proof -
  let ?G_n = "FunctionalG_values q n (R_G s)"
  have n: "n \<le> R_T s" "n + 1 \<le> R_T s" using assms(2) by simp_all
  have wG: "wf_G (R_G s)" and nG: "n \<le> G_T (R_G s)"
    using assms n by (simp_all add: wf_R_ranges)
  have "fst (FunctionalG_getitem q n (R_G s)) = Inr ?G_n"
    using FunctionalG_getitem_values [OF wG nG, of q] by simp
  then obtain G1 where g: "FunctionalG_getitem q n (R_G s) = (Inr ?G_n, G1)"
    by (metis prod.collapse)
  have l: "length (R_mask s) = R_T s + 1" "length (R_R s) = R_T s + 1"
          "length (R_R s ! n) = R_M s + 2" "length (R_R s ! (n + 1)) = R_M s + 2"
          "length (R_m_2 s) = R_M s + 2" "length (R_R_in s) = R_M s + 2"
          "length ?G_n = R_M s + 2"
    using assms(1) n by (simp_all add: wf_R_ranges)
  show ?thesis
    unfolding SolverRMethod1_actualize_step_np1_def g Let_def
    using assms(2,3) l by simp
qed

lemma SolverRMethod2_actualize_step_np1_ok:
  assumes "wf_R s" "n < R_T s" "\<not> is_row_calculated (n + 1) (R_mask s)"
  shows "SolverRMethod2_actualize_step_np1 q n s =
     (Inr (np_div (R_R_in s) (np_add (R_m_2 s) (FunctionalG_values q (n + 1) (R_G s)))),
      s\<lparr>R_G := snd (FunctionalG_getitem q (n + 1) (R_G s)),
        R_R := (R_R s)[n + 1 :=
                 np_div (R_R_in s) (np_add (R_m_2 s) (FunctionalG_values q (n + 1) (R_G s)))],
        R_mask := update_mask_row (n + 1) True (R_mask s)\<rparr>)"
proof -
  let ?G_n = "FunctionalG_values q (n + 1) (R_G s)"
  have n: "n \<le> R_T s" "n + 1 \<le> R_T s" using assms(2) by simp_all
  have wG: "wf_G (R_G s)" and nG: "n + 1 \<le> G_T (R_G s)"
    using assms n by (simp_all add: wf_R_ranges)
  have "fst (FunctionalG_getitem q (n + 1) (R_G s)) = Inr ?G_n"
    using FunctionalG_getitem_values [OF wG nG, of q] by simp
  then obtain G1 where g: "FunctionalG_getitem q (n + 1) (R_G s) = (Inr ?G_n, G1)"
    by (metis prod.collapse)
  have l: "length (R_mask s) = R_T s + 1" "length (R_R s) = R_T s + 1"
          "length (R_R s ! (n + 1)) = R_M s + 2"
          "length (R_m_2 s) = R_M s + 2" "length (R_R_in s) = R_M s + 2"
          "length ?G_n = R_M s + 2"
    using assms(1) n by (simp_all add: wf_R_ranges)
  show ?thesis
    unfolding SolverRMethod2_actualize_step_np1_def g Let_def
    using assms(2,3) l by (simp add: np_div_def np_add_def)
qed

lemma row_marked:
  assumes "m < length M"
  shows "is_row_calculated m (update_mask_row m True M)"
  using assms by (simp add: is_row_calculated_def update_mask_row_def list_all_length)

text \<open>
  Claim C5. For a step \<open>n\<close> whose row \<open>n+1\<close> of \<open>R\<close> is not marked computed,
  \<^verbatim>\<open>SolverRMethod1.actualize_step_np1(n)\<close> sets, componentwise over the \<open>M+2\<close> resource
  points, \<open>R[n+1] = (1 - dt (m_2 + G[n])) R[n] + dt R_in\<close>, where \<open>G[n]\<close> is the vector of
  the values of the functional at time row \<open>n\<close>; it then marks row \<open>n+1\<close> computed and
  returns it.
\<close>

theorem SolverRMethod1_step_explicit:
  assumes "wf_R s" "n < R_T s" "\<not> is_row_calculated (n + 1) (R_mask s)"
  shows
    "(let G_n = FunctionalG_values simpson n (R_G s);
          s' = snd (SolverRMethod1_actualize_step_np1 simpson n s);
          row = R_R s' ! (n + 1)
      in fst (FunctionalG_getitem simpson n (R_G s)) = Inr G_n
         \<and> length row = R_M s + 2
         \<and> (\<forall>k < R_M s + 2.
               row ! k = (1 - R_dt s * (R_m_2 s ! k + G_n ! k)) * (R_R s ! n ! k)
                           + R_dt s * R_R_in s ! k)
         \<and> R_R s' = (R_R s)[n + 1 := row]
         \<and> fst (SolverRMethod1_actualize_step_np1 simpson n s) = Inr row
         \<and> is_row_calculated (n + 1) (R_mask s')
         \<and> R_mask s' = update_mask_row (n + 1) True (R_mask s))"
proof -
  let ?G_n = "FunctionalG_values simpson n (R_G s)"
  have n: "n \<le> R_T s" "n + 1 \<le> R_T s" using assms(2) by simp_all
  have wG: "wf_G (R_G s)" and nG: "n \<le> G_T (R_G s)"
    using assms n by (simp_all add: wf_R_ranges)
  have g: "fst (FunctionalG_getitem simpson n (R_G s)) = Inr ?G_n"
    using FunctionalG_getitem_values [OF wG nG, of simpson] by simp
  have l: "n + 1 < length (R_mask s)" "n + 1 < length (R_R s)"
          "length (R_R s ! n) = R_M s + 2"
          "length (R_m_2 s) = R_M s + 2" "length (R_R_in s) = R_M s + 2"
          "length ?G_n = R_M s + 2"
    using assms(1) n by (simp_all add: wf_R_ranges)
  have c: "\<forall>k < R_M s + 2.
      np_add (np_mul (scalar_sub 1 (scalar_mul (R_dt s) (np_add (R_m_2 s) ?G_n))) (R_R s ! n))
             (scalar_mul (R_dt s) (R_R_in s)) ! k
      = (1 - R_dt s * (R_m_2 s ! k + ?G_n ! k)) * (R_R s ! n ! k) + R_dt s * R_R_in s ! k"
    using l by (simp add: np_add_def np_mul_def scalar_sub_def scalar_mul_def)
  have len: "length (np_add (np_mul (scalar_sub 1 (scalar_mul (R_dt s) (np_add (R_m_2 s) ?G_n)))
                       (R_R s ! n)) (scalar_mul (R_dt s) (R_R_in s))) = R_M s + 2"
    using l by (simp add: np_add_def np_mul_def scalar_sub_def scalar_mul_def)
  show ?thesis
    unfolding Let_def SolverRMethod1_actualize_step_np1_ok [OF assms]
    using g l(1,2) c len row_marked [OF l(1)] by simp
qed

text \<open>
  Claim C6. For a step \<open>n\<close> whose row \<open>n+1\<close> of \<open>R\<close> is not marked computed,
  \<^verbatim>\<open>SolverRMethod2.actualize_step_np1(n)\<close> sets, componentwise over the \<open>M+2\<close> resource
  points, \<open>R[n+1] = R_in / (m_2 + G[n+1])\<close>, where \<open>G[n+1]\<close> is the vector of the values of
  the functional one step ahead, at time row \<open>n+1\<close>; it then marks row \<open>n+1\<close> computed and
  returns it. The statement is for denominators that are not zero, where the quotient of
  the source is the quotient of the reals.
\<close>

theorem SolverRMethod2_step_quasi_steady:
  assumes "wf_R s" "n < R_T s" "\<not> is_row_calculated (n + 1) (R_mask s)"
    and "\<forall>k < R_M s + 2. R_m_2 s ! k + FunctionalG_values simpson (n + 1) (R_G s) ! k \<noteq> 0"
  shows
    "(let G_np1 = FunctionalG_values simpson (n + 1) (R_G s);
          s' = snd (SolverRMethod2_actualize_step_np1 simpson n s);
          row = R_R s' ! (n + 1)
      in fst (FunctionalG_getitem simpson (n + 1) (R_G s)) = Inr G_np1
         \<and> length row = R_M s + 2
         \<and> (\<forall>k < R_M s + 2. row ! k = R_R_in s ! k / (R_m_2 s ! k + G_np1 ! k))
         \<and> R_R s' = (R_R s)[n + 1 := row]
         \<and> fst (SolverRMethod2_actualize_step_np1 simpson n s) = Inr row
         \<and> is_row_calculated (n + 1) (R_mask s')
         \<and> R_mask s' = update_mask_row (n + 1) True (R_mask s))"
proof -
  let ?G_n = "FunctionalG_values simpson (n + 1) (R_G s)"
  have n: "n \<le> R_T s" "n + 1 \<le> R_T s" using assms(2) by simp_all
  have wG: "wf_G (R_G s)" and nG: "n + 1 \<le> G_T (R_G s)"
    using assms n by (simp_all add: wf_R_ranges)
  have g: "fst (FunctionalG_getitem simpson (n + 1) (R_G s)) = Inr ?G_n"
    using FunctionalG_getitem_values [OF wG nG, of simpson] by simp
  have l: "n + 1 < length (R_mask s)" "n + 1 < length (R_R s)"
          "length (R_m_2 s) = R_M s + 2" "length (R_R_in s) = R_M s + 2"
          "length ?G_n = R_M s + 2"
    using assms(1) n by (simp_all add: wf_R_ranges)
  have c: "\<forall>k < R_M s + 2.
      np_div (R_R_in s) (np_add (R_m_2 s) ?G_n) ! k = R_R_in s ! k / (R_m_2 s ! k + ?G_n ! k)"
    using l by (simp add: np_add_def np_div_def)
  have len: "length (np_div (R_R_in s) (np_add (R_m_2 s) ?G_n)) = R_M s + 2"
    using l by (simp add: np_add_def np_div_def)
  show ?thesis
    unfolding Let_def SolverRMethod2_actualize_step_np1_ok [OF assms(1-3)]
    using g l(1,2) c len row_marked [OF l(1)] by simp
qed

section \<open>The concrete solvers\<close>

lemma ex_sample: "sample_inputs ex_positive_args =
   Inr \<lparr>smp_x = [0, 1/2, 1], smp_y = [0, 1/2, 1], smp_u_0 = [1, 1, 1], smp_R_0 = [1, 1, 1],
        smp_r = [1, 1, 1], smp_R_in = [1, 1, 1], smp_m_1 = [30, 30, 30], smp_m_2 = [1, 1, 1],
        smp_K = [[1, 1, 1], [1, 1, 1], [1, 1, 1]]\<rparr>"
  by (simp add: sample_inputs_def ex_positive_args_def linspace_def mesh_points_def numeral_3_eq_3)

lemma ex_init_R: "SolverR_init [1, 1, 1] [1, 1, 1] [1, 1, 1] [[1, 1, 1], [1, 1, 1], [1, 1, 1]]
     [1, 1, 1] [1, 1, 1]
     \<lparr>cfg_x_lims = (0, 1), cfg_y_lims = Some (0, 1), cfg_N = 1, cfg_M = Some 1,
      cfg_dt = 1/10, cfg_T = Some 1\<rparr> = Inr ex_R"
  by (simp add: SolverR_init_def AbstractDiscreteFunction_init_def FunctionalG_init_def
        wf_matrix_def mesh_points_def initial_field_def create_mask_def update_mask_row_def
        ex_R_def ex_G_def)

lemma ex_init_U: "SolverU_init [30, 30, 30] 0 [1, 1, 1] [[1, 1, 1], [1, 1, 1], [1, 1, 1]]
     [1, 1, 1] [1, 1, 1]
     \<lparr>cfg_x_lims = (0, 1), cfg_y_lims = Some (0, 1), cfg_N = 1, cfg_M = Some 1,
      cfg_dt = 1/10, cfg_T = Some 1\<rparr> = Inr (ex_U\<lparr>U_m_1 := [30, 30, 30]\<rparr>)"
  by (simp add: SolverU_init_def AbstractDiscreteFunction_init_def FunctionalF_init_def
        wf_matrix_def mesh_points_def initial_field_def create_mask_def update_mask_row_def
        ex_U_def ex_F_def)

lemma ex_init_U_plain: "SolverU_init [0, 0, 0] 0 [1, 1, 1] [[1, 1, 1], [1, 1, 1], [1, 1, 1]]
     [1, 1, 1] [1, 1, 1]
     \<lparr>cfg_x_lims = (0, 1), cfg_y_lims = Some (0, 1), cfg_N = 1, cfg_M = Some 1,
      cfg_dt = 1/10, cfg_T = Some 1\<rparr> = Inr ex_U"
  by (simp add: SolverU_init_def AbstractDiscreteFunction_init_def FunctionalF_init_def
        wf_matrix_def mesh_points_def initial_field_def create_mask_def update_mask_row_def
        ex_U_def ex_F_def)

lemma ex_positive_iteration:
  "fst (solve_perthame_iteration simpson_rule SolverRMethod2 0
      \<lparr>drv_u = ex_U\<lparr>U_m_1 := [30, 30, 30]\<rparr>, drv_R = ex_R, drv_calls = []\<rparr>) = Inr ()
   \<and> U_u (drv_u (snd (solve_perthame_iteration simpson_rule SolverRMethod2 0
      \<lparr>drv_u = ex_U\<lparr>U_m_1 := [30, 30, 30]\<rparr>, drv_R = ex_R, drv_calls = []\<rparr>)))
      = [[1, 1, 1], [- (19/10), - (19/10), - (19/10)]]
   \<and> R_R (drv_R (snd (solve_perthame_iteration simpson_rule SolverRMethod2 0
      \<lparr>drv_u = ex_U\<lparr>U_m_1 := [30, 30, 30]\<rparr>, drv_R = ex_R, drv_calls = []\<rparr>)))
      = [[1, 1, 1], [- (10/9), - (10/9), - (10/9)]]"
  by (simp add: solve_perthame_iteration_def SolverR_getitem_def SolverU_getitem_def
     SolverU_actualize_row_def SolverR_actualize_row_def validate_nth_row_def
     FunctionalF_actualize_row_def FunctionalG_actualize_row_def
     SolverU_actualize_step_np1_def SolverRMethod2_actualize_step_np1_def
     ex_U_def ex_F_def ex_R_def ex_G_def is_row_calculated_def
     SolverU_create_transition_matrix_def FunctionalF_getitem_def FunctionalF_call_def
     FunctionalG_getitem_def FunctionalG_call_def column_def np_div_def
     in_range2_def set_entry_def np_mul_def np_add_def np_neg_def scalar_mul_def scalar_add_def
     np_diag_def mat_add_def dot_def update_mask_row_def Let_def)

lemma ex_positive_run:
  "map_sum id (\<lambda>(u, R). (U_u u, R_R R)) (solve_perthame simpson_rule ex_positive_args)
     = Inr ([[1, 1, 1], [- (19/10), - (19/10), - (19/10)]],
            [[1, 1, 1], [- (10/9), - (10/9), - (10/9)]])"
proof -
  obtain r d where it: "solve_perthame_iteration simpson_rule SolverRMethod2 0
      \<lparr>drv_u = ex_U\<lparr>U_m_1 := [30, 30, 30]\<rparr>, drv_R = ex_R, drv_calls = []\<rparr> = (r, d)"
    by (cases "solve_perthame_iteration simpson_rule SolverRMethod2 0
      \<lparr>drv_u = ex_U\<lparr>U_m_1 := [30, 30, 30]\<rparr>, drv_R = ex_R, drv_calls = []\<rparr>")
  have rd: "r = Inr ()" "U_u (drv_u d) = [[1, 1, 1], [- (19/10), - (19/10), - (19/10)]]"
    "R_R (drv_R d) = [[1, 1, 1], [- (10/9), - (10/9), - (10/9)]]"
    using ex_positive_iteration unfolding it by simp_all
  have a: "arg_solver_R ex_positive_args = Some SolverRMethod2" "arg_T ex_positive_args = Some 1"
    "arg_solver_u ex_positive_args = None" "arg_eps ex_positive_args = 0"
    "arg_x_lims ex_positive_args = (0, 1)" "arg_y_lims ex_positive_args = Some (0, 1)"
    "arg_N ex_positive_args = 1" "arg_M ex_positive_args = Some 1"
    "arg_dt ex_positive_args = 1/10"
    by (simp_all add: ex_positive_args_def)
  show ?thesis
    unfolding solve_perthame_def ex_sample Let_def a
    by (simp add: ex_init_R ex_init_U it rd)
qed

lemma list3: "length xs = 3 \<Longrightarrow> xs = [xs ! 0, xs ! 1, xs ! 2]"
  by (cases xs; cases "tl xs"; cases "tl (tl xs)") auto

lemma ex_R_fed_eq:
  "ex_R_fed = ex_R\<lparr>R_u := [[1, 1, 1], [2, 2, 2]],
                   R_G := ex_G\<lparr>G_u := [[1, 1, 1], [2, 2, 2]]\<rparr>,
                   R_mask := [[True, True, True], [False, False, False]]\<rparr>"
proof -
  have "1 \<le> R_T ex_R" "length [2, 2, 2 :: real] = R_N ex_R + 2" by (simp_all add: ex_R_def)
  then have ok: "SolverR_actualize_row [2, 2, 2] 1 ex_R =
     (Inr (), ex_R\<lparr>R_u := (R_u ex_R)[1 := [2, 2, 2]],
               R_G := (R_G ex_R)\<lparr>G_u := (G_u (R_G ex_R))[1 := [2, 2, 2]],
                               G_mask := update_mask_row 1 False (G_mask (R_G ex_R))\<rparr>,
               R_mask := update_mask_row 1 False (R_mask ex_R)\<rparr>)"
    by (rule SolverR_actualize_row_ok [OF wf_ex_R])
  show ?thesis
    unfolding ex_R_fed_def ok snd_conv
    by (simp add: ex_R_def ex_G_def update_mask_row_def)
qed

lemma ex_R_negative_eq:
  "ex_R_negative = ex_R\<lparr>R_u := [[1, 1, 1], [- 2, - 2, - 2]],
                   R_G := ex_G\<lparr>G_u := [[1, 1, 1], [- 2, - 2, - 2]]\<rparr>,
                   R_mask := [[True, True, True], [False, False, False]]\<rparr>"
proof -
  have "1 \<le> R_T ex_R" "length [- 2, - 2, - 2 :: real] = R_N ex_R + 2" by (simp_all add: ex_R_def)
  then have ok: "SolverR_actualize_row [- 2, - 2, - 2] 1 ex_R =
     (Inr (), ex_R\<lparr>R_u := (R_u ex_R)[1 := [- 2, - 2, - 2]],
               R_G := (R_G ex_R)\<lparr>G_u := (G_u (R_G ex_R))[1 := [- 2, - 2, - 2]],
                               G_mask := update_mask_row 1 False (G_mask (R_G ex_R))\<rparr>,
               R_mask := update_mask_row 1 False (R_mask ex_R)\<rparr>)"
    by (rule SolverR_actualize_row_ok [OF wf_ex_R])
  show ?thesis
    unfolding ex_R_negative_def ok snd_conv
    by (simp add: ex_R_def ex_G_def update_mask_row_def)
qed

lemma wf_ex_R_fed: "wf_R ex_R_fed"
  unfolding ex_R_fed_eq
  by (simp add: wf_R_def wf_G_def wf_matrix_def ex_R_def ex_G_def)

lemma wf_ex_R_negative: "wf_R ex_R_negative"
  unfolding ex_R_negative_eq
  by (simp add: wf_R_def wf_G_def wf_matrix_def ex_R_def ex_G_def)

theorem SolverRMethod1_step_explicit_witness:
  "wf_R ex_R_fed \<and> \<not> is_row_calculated 1 (R_mask ex_R_fed)
   \<and> FunctionalG_values simpson_rule 0 (R_G ex_R_fed) = [1, 1, 1]
   \<and> R_R ex_R_fed ! 0 = [1, 1, 1]
   \<and> fst (SolverRMethod1_actualize_step_np1 simpson_rule 0 ex_R_fed) = Inr [9/10, 9/10, 9/10]"
proof -
  have h: "0 < R_T ex_R_fed" "\<not> is_row_calculated (0 + 1) (R_mask ex_R_fed)"
    by (simp_all add: ex_R_fed_eq ex_R_def is_row_calculated_def)
  have v: "FunctionalG_values simpson_rule 0 (R_G ex_R_fed) = [1, 1, 1]"
    by (simp add: FunctionalG_values_def FunctionalG_value_def ex_R_fed_eq ex_R_def ex_G_def
          np_mul_def column_def)
  have f: "R_M ex_R_fed = 1" "R_dt ex_R_fed = 1/10" "R_m_2 ex_R_fed = [1, 1, 1]"
    "R_R_in ex_R_fed = [1, 1, 1]" "R_R ex_R_fed ! 0 = [1, 1, 1]"
    by (simp_all add: ex_R_fed_eq ex_R_def)
  note th = SolverRMethod1_step_explicit [OF wf_ex_R_fed h, of simpson_rule,
              unfolded Let_def v f]
  let ?row = "R_R (snd (SolverRMethod1_actualize_step_np1 simpson_rule 0 ex_R_fed)) ! (0 + 1)"
  have len: "length ?row = 3" using th by simp
  have e: "?row ! 0 = 9/10" "?row ! 1 = 9/10" "?row ! 2 = 9/10"
    using th by simp_all
  have "?row = [9/10, 9/10, 9/10]" using list3 [OF len] by (simp only: e)
  then show ?thesis using th wf_ex_R_fed h v f by simp
qed

theorem SolverRMethod2_step_quasi_steady_witness:
  "wf_R ex_R_fed \<and> \<not> is_row_calculated 1 (R_mask ex_R_fed)
   \<and> FunctionalG_values simpson_rule 1 (R_G ex_R_fed) = [2, 2, 2]
   \<and> fst (SolverRMethod2_actualize_step_np1 simpson_rule 0 ex_R_fed) = Inr [1/3, 1/3, 1/3]"
proof -
  have h: "0 < R_T ex_R_fed" "\<not> is_row_calculated (0 + 1) (R_mask ex_R_fed)"
    by (simp_all add: ex_R_fed_eq ex_R_def is_row_calculated_def)
  have v: "FunctionalG_values simpson_rule (0 + 1) (R_G ex_R_fed) = [2, 2, 2]"
    by (simp add: FunctionalG_values_def FunctionalG_value_def ex_R_fed_eq ex_R_def ex_G_def
          np_mul_def column_def)
  have f: "R_M ex_R_fed = 1" "R_m_2 ex_R_fed = [1, 1, 1]" "R_R_in ex_R_fed = [1, 1, 1]"
    by (simp_all add: ex_R_fed_eq ex_R_def)
  have nz: "\<forall>k < R_M ex_R_fed + 2.
      R_m_2 ex_R_fed ! k + FunctionalG_values simpson_rule (0 + 1) (R_G ex_R_fed) ! k \<noteq> 0"
    unfolding v f by (simp add: nth_Cons')
  note th = SolverRMethod2_step_quasi_steady [OF wf_ex_R_fed h nz, unfolded Let_def v f]
  let ?row = "R_R (snd (SolverRMethod2_actualize_step_np1 simpson_rule 0 ex_R_fed)) ! (0 + 1)"
  have len: "length ?row = 3" using th by simp
  have e: "?row ! 0 = 1/3" "?row ! 1 = 1/3" "?row ! 2 = 1/3"
    using th by simp_all
  have "?row = [1/3, 1/3, 1/3]" using list3 [OF len] by (simp only: e)
  then show ?thesis using th wf_ex_R_fed h v by simp
qed

text \<open>
  Claim C7, as the code has it. For SolverRMethod2 and a step \<open>n\<close> whose row \<open>n+1\<close> is not
  marked computed: if every component of \<open>R_in\<close> and of \<open>m_2\<close> is strictly positive and
  every component of \<open>G[n+1]\<close> is non-negative, then every component of the row \<open>R[n+1]\<close>
  produced by \<^verbatim>\<open>actualize_step_np1(n)\<close> is non-negative.
\<close>

theorem SolverRMethod2_nonnegative:
  assumes "wf_R s" "n < R_T s" "\<not> is_row_calculated (n + 1) (R_mask s)"
    and "list_all (\<lambda>v. 0 < v) (R_R_in s)" "list_all (\<lambda>v. 0 < v) (R_m_2 s)"
    and "list_all (\<lambda>v. 0 \<le> v) (FunctionalG_values simpson (n + 1) (R_G s))"
  shows "fst (SolverRMethod2_actualize_step_np1 simpson n s)
           = Inr (R_R (snd (SolverRMethod2_actualize_step_np1 simpson n s)) ! (n + 1))
       \<and> list_all (\<lambda>v. 0 \<le> v)
            (R_R (snd (SolverRMethod2_actualize_step_np1 simpson n s)) ! (n + 1))"
proof -
  let ?G = "FunctionalG_values simpson (n + 1) (R_G s)"
  let ?row = "np_div (R_R_in s) (np_add (R_m_2 s) ?G)"
  have l: "n + 1 < length (R_R s)" "length (R_m_2 s) = R_M s + 2"
    "length (R_R_in s) = R_M s + 2" "length ?G = R_M s + 2"
    using assms(1,2) by (simp_all add: wf_R_ranges)
  have "0 \<le> ?row ! k" if "k < length ?row" for k
  proof -
    have k: "k < R_M s + 2" using that l by (simp add: np_div_def np_add_def)
    have "0 < R_R_in s ! k" "0 < R_m_2 s ! k" "0 \<le> ?G ! k"
      using assms(4-6) k l by (simp_all add: list_all_length)
    then have "0 \<le> R_R_in s ! k / (R_m_2 s ! k + ?G ! k)" by simp
    then show ?thesis using k l by (simp add: np_div_def np_add_def)
  qed
  then have "list_all (\<lambda>v. 0 \<le> v) ?row" by (simp add: list_all_length)
  then show ?thesis
    unfolding SolverRMethod2_actualize_step_np1_ok [OF assms(1-3)]
    using l by simp
qed

theorem SolverRMethod2_nonnegative_witness:
  "wf_R ex_R_fed \<and> \<not> is_row_calculated 1 (R_mask ex_R_fed)
   \<and> list_all (\<lambda>v. 0 < v) (R_R_in ex_R_fed) \<and> list_all (\<lambda>v. 0 < v) (R_m_2 ex_R_fed)
   \<and> list_all (\<lambda>v. 0 \<le> v) (FunctionalG_values simpson_rule 1 (R_G ex_R_fed))
   \<and> list_all (\<lambda>v. 0 \<le> v)
        (R_R (snd (SolverRMethod2_actualize_step_np1 simpson_rule 0 ex_R_fed)) ! 1)"
proof -
  have h: "0 < R_T ex_R_fed" "\<not> is_row_calculated (0 + 1) (R_mask ex_R_fed)"
    "list_all (\<lambda>v. 0 < v) (R_R_in ex_R_fed)" "list_all (\<lambda>v. 0 < v) (R_m_2 ex_R_fed)"
    by (simp_all add: ex_R_fed_eq ex_R_def is_row_calculated_def)
  have v: "list_all (\<lambda>v. 0 \<le> v) (FunctionalG_values simpson_rule (0 + 1) (R_G ex_R_fed))"
    by (simp add: FunctionalG_values_def FunctionalG_value_def ex_R_fed_eq ex_R_def ex_G_def
          np_mul_def column_def)
  show ?thesis
    using SolverRMethod2_nonnegative [OF wf_ex_R_fed h v] wf_ex_R_fed h v by simp
qed

text \<open>
  Claim C7 as stated fails. With \<open>R_in = m_2 = 1\<close> and the population row \<open>(-2, -2, -2)\<close>
  delivered for step 1, \<open>G[1] = -2\<close> and the second scheme produces \<open>R[1] = -1\<close>. The
  driver reaches such a state from positive data: with \<open>m_1 = 30\<close> and \<open>dt = 1/10\<close> the
  explicit step of \<open>u\<close> gives \<open>u[1] = -19/10\<close>, and \<open>R[1] = -10/9\<close>.
\<close>

theorem SolverRMethod2_nonnegative_counterexample:
  "list_all (\<lambda>v. 0 < v) (R_R_in ex_R_negative) \<and> list_all (\<lambda>v. 0 < v) (R_m_2 ex_R_negative)
   \<and> wf_R ex_R_negative \<and> \<not> is_row_calculated 1 (R_mask ex_R_negative)
   \<and> SolverR_actualize_row [- 2, - 2, - 2] 1 ex_R = (Inr (), ex_R_negative)
   \<and> fst (SolverRMethod2_actualize_step_np1 simpson_rule 0 ex_R_negative)
        = Inr [- 1, - 1, - 1]
   \<and> map_sum id (\<lambda>(u, R). (U_u u, R_R R)) (solve_perthame simpson_rule ex_positive_args)
        = Inr ([[1, 1, 1], [- (19/10), - (19/10), - (19/10)]],
               [[1, 1, 1], [- (10/9), - (10/9), - (10/9)]])"
proof -
  have h: "0 < R_T ex_R_negative" "\<not> is_row_calculated (0 + 1) (R_mask ex_R_negative)"
    "list_all (\<lambda>v. 0 < v) (R_R_in ex_R_negative)" "list_all (\<lambda>v. 0 < v) (R_m_2 ex_R_negative)"
    by (simp_all add: ex_R_negative_eq ex_R_def is_row_calculated_def)
  have v: "FunctionalG_values simpson_rule (0 + 1) (R_G ex_R_negative) = [- 2, - 2, - 2]"
    by (simp add: FunctionalG_values_def FunctionalG_value_def ex_R_negative_eq ex_R_def ex_G_def
          np_mul_def column_def)
  have f: "R_m_2 ex_R_negative = [1, 1, 1]" "R_R_in ex_R_negative = [1, 1, 1]"
    by (simp_all add: ex_R_negative_eq ex_R_def)
  have s: "fst (SolverRMethod2_actualize_step_np1 simpson_rule 0 ex_R_negative)
        = Inr [- 1, - 1, - 1]"
    unfolding SolverRMethod2_actualize_step_np1_ok [OF wf_ex_R_negative h(1,2)] v f
    by (simp add: np_div_def np_add_def)
  have "1 \<le> R_T ex_R" "length [- 2, - 2, - 2 :: real] = R_N ex_R + 2" by (simp_all add: ex_R_def)
  then have a: "SolverR_actualize_row [- 2, - 2, - 2] 1 ex_R = (Inr (), ex_R_negative)"
    unfolding ex_R_negative_def by (simp only: SolverR_actualize_row_ok [OF wf_ex_R] snd_conv)
  show ?thesis using h wf_ex_R_negative s a ex_positive_run by simp
qed

section \<open>Well-formed solvers\<close>

lemma SolverU_actualize_row_wf:
  assumes "wf_U s" "n \<le> U_T s" "length row = U_M s + 2"
  shows "wf_U (snd (SolverU_actualize_row row n s))"
proof -
  have wF: "wf_F (U_F s)" "n \<le> F_T (U_F s)" "length row = F_M (U_F s) + 2"
    using assms by (simp_all add: wf_U_ranges)
  have "wf_F (snd (FunctionalF_actualize_row row n (U_F s)))"
    using wF(1) by (rule FunctionalF_actualize_row_wf)
  then have w: "wf_F ((U_F s)\<lparr>F_R := (F_R (U_F s))[n := row],
                     F_mask := update_mask_row n False (F_mask (U_F s))\<rparr>)"
    by (simp add: FunctionalF_actualize_row_ok [OF wF])
  show ?thesis
    unfolding SolverU_actualize_row_ok [OF assms] snd_conv
    using assms w
    by (simp add: wf_U_def wf_matrix_update wf_matrix_update_mask_row)
qed

lemma SolverR_actualize_row_wf:
  assumes "wf_R s" "n \<le> R_T s" "length row = R_N s + 2"
  shows "wf_R (snd (SolverR_actualize_row row n s))"
proof -
  have wG: "wf_G (R_G s)" "n \<le> G_T (R_G s)" "length row = G_N (R_G s) + 2"
    using assms by (simp_all add: wf_R_ranges)
  have "wf_G (snd (FunctionalG_actualize_row row n (R_G s)))"
    using wG(1) by (rule FunctionalG_actualize_row_wf)
  then have w: "wf_G ((R_G s)\<lparr>G_u := (G_u (R_G s))[n := row],
                     G_mask := update_mask_row n False (G_mask (R_G s))\<rparr>)"
    by (simp add: FunctionalG_actualize_row_ok [OF wG])
  show ?thesis
    unfolding SolverR_actualize_row_ok [OF assms] snd_conv
    using assms w
    by (simp add: wf_R_def wf_matrix_update wf_matrix_update_mask_row)
qed

lemma SolverU_actualize_step_np1_wf:
  assumes "wf_U s" "n < U_T s" "\<not> is_row_calculated (n + 1) (U_mask s)"
  shows "wf_U (snd (SolverU_actualize_step_np1 q n s))"
proof -
  have wF: "wf_F (U_F s)" "n \<le> F_T (U_F s)"
    using assms by (simp_all add: wf_U_ranges)
  note g = FunctionalF_getitem_values [OF wF, of q]
  show ?thesis
    unfolding SolverU_actualize_step_np1_ok [OF assms] snd_conv
    using assms(1) g
    by (simp add: wf_U_def wf_matrix_update wf_matrix_update_mask_row)
qed

lemma SolverRMethod1_actualize_step_np1_wf:
  assumes "wf_R s" "n < R_T s" "\<not> is_row_calculated (n + 1) (R_mask s)"
  shows "wf_R (snd (SolverRMethod1_actualize_step_np1 q n s))"
proof -
  have wG: "wf_G (R_G s)" "n \<le> G_T (R_G s)"
    using assms by (simp_all add: wf_R_ranges)
  note g = FunctionalG_getitem_values [OF wG, of q]
  have l: "length (R_R s ! n) = R_M s + 2" "length (R_m_2 s) = R_M s + 2"
    "length (R_R_in s) = R_M s + 2"
    using assms by (simp_all add: wf_R_ranges)
  have len: "length (np_add (np_mul (scalar_sub 1 (scalar_mul (R_dt s)
                (np_add (R_m_2 s) (FunctionalG_values q n (R_G s))))) (R_R s ! n))
                (scalar_mul (R_dt s) (R_R_in s))) = R_M s + 2"
    using l assms(1) by (simp add: np_add_def np_mul_def scalar_sub_def scalar_mul_def wf_R_ranges)
  show ?thesis
    unfolding SolverRMethod1_actualize_step_np1_ok [OF assms] snd_conv
    using assms(1) g len
    by (simp add: wf_R_def wf_matrix_update wf_matrix_update_mask_row)
qed

lemma SolverRMethod2_actualize_step_np1_wf:
  assumes "wf_R s" "n < R_T s" "\<not> is_row_calculated (n + 1) (R_mask s)"
  shows "wf_R (snd (SolverRMethod2_actualize_step_np1 q n s))"
proof -
  have wG: "wf_G (R_G s)" "n + 1 \<le> G_T (R_G s)"
    using assms by (simp_all add: wf_R_ranges)
  note g = FunctionalG_getitem_values [OF wG, of q]
  have l: "length (R_m_2 s) = R_M s + 2" "length (R_R_in s) = R_M s + 2"
    using assms by (simp_all add: wf_R_ranges)
  have len: "length (np_div (R_R_in s) (np_add (R_m_2 s) (FunctionalG_values q (n + 1) (R_G s))))
               = R_M s + 2"
    using l assms(1) by (simp add: np_add_def np_div_def wf_R_ranges)
  show ?thesis
    unfolding SolverRMethod2_actualize_step_np1_ok [OF assms] snd_conv
    using assms(1) g len
    by (simp add: wf_R_def wf_matrix_update wf_matrix_update_mask_row)
qed

text \<open>The values of a functional on a row that has just been actualized.\<close>

lemma FunctionalF_values_fresh:
  assumes "wf_F F" "n \<le> F_T F"
  shows "FunctionalF_values q n
           (F\<lparr>F_R := (F_R F)[n := row], F_mask := update_mask_row n False (F_mask F)\<rparr>)
         = map (\<lambda>j. q (np_mul (F_K F ! j) row) (F_y F)) [0..<F_N F + 2]"
proof -
  let ?F' = "F\<lparr>F_R := (F_R F)[n := row], F_mask := update_mask_row n False (F_mask F)\<rparr>"
  have m: "F_mask ?F' ! n = replicate (F_N F + 2) False"
    using assms by (simp add: update_mask_row_nth wf_F_ranges)
  have r: "F_R ?F' ! n = row" using assms by (simp add: wf_F_ranges)
  have v: "FunctionalF_value q n j ?F' = q (np_mul (F_K F ! j) row) (F_y F)"
    if "j < F_N F + 2" for j
  proof -
    have "\<not> F_mask ?F' ! n ! j" unfolding m using that by (metis nth_replicate)
    then show ?thesis unfolding FunctionalF_value_def r by simp
  qed
  have "map (\<lambda>j. FunctionalF_value q n j ?F') [0..<F_N F + 2]
          = map (\<lambda>j. q (np_mul (F_K F ! j) row) (F_y F)) [0..<F_N F + 2]"
    by (rule map_cong [OF refl]) (simp only: set_upt atLeastLessThan_iff v)
  then show ?thesis unfolding FunctionalF_values_def by simp
qed

lemma FunctionalG_values_fresh:
  assumes "wf_G G" "n \<le> G_T G"
  shows "FunctionalG_values q n
           (G\<lparr>G_u := (G_u G)[n := row], G_mask := update_mask_row n False (G_mask G)\<rparr>)
         = map (\<lambda>k. q (np_mul (np_mul (G_r G) (column (G_K G) k)) row) (G_x G)) [0..<G_M G + 2]"
proof -
  let ?G' = "G\<lparr>G_u := (G_u G)[n := row], G_mask := update_mask_row n False (G_mask G)\<rparr>"
  have m: "G_mask ?G' ! n = replicate (G_M G + 2) False"
    using assms by (simp add: update_mask_row_nth wf_G_ranges)
  have r: "G_u ?G' ! n = row" using assms by (simp add: wf_G_ranges)
  have v: "FunctionalG_value q n k ?G'
             = q (np_mul (np_mul (G_r G) (column (G_K G) k)) row) (G_x G)"
    if "k < G_M G + 2" for k
  proof -
    have "\<not> G_mask ?G' ! n ! k" unfolding m using that by (metis nth_replicate)
    then show ?thesis unfolding FunctionalG_value_def r by simp
  qed
  have "map (\<lambda>k. FunctionalG_value q n k ?G') [0..<G_M G + 2]
          = map (\<lambda>k. q (np_mul (np_mul (G_r G) (column (G_K G) k)) row) (G_x G)) [0..<G_M G + 2]"
    by (rule map_cong [OF refl]) (simp only: set_upt atLeastLessThan_iff v)
  then show ?thesis unfolding FunctionalG_values_def by simp
qed

lemma FunctionalG_values_other_row:
  assumes "wf_G G" "m \<le> G_T G" "n \<noteq> m"
  shows "FunctionalG_values q n
           (G\<lparr>G_u := (G_u G)[m := row], G_mask := update_mask_row m False (G_mask G)\<rparr>)
         = FunctionalG_values q n G"
  using assms
  by (simp add: FunctionalG_values_def FunctionalG_value_def update_mask_row_nth wf_G_ranges)

section \<open>The consistency of the cache of FunctionalG\<close>

lemma G_consistent_iff:
  "G_consistent q G \<longleftrightarrow>
     (\<forall>n \<le> G_T G. \<forall>k < G_M G + 2. G_mask G ! n ! k \<longrightarrow>
        G_matrix G ! n ! k
          = q (np_mul (np_mul (G_r G) (column (G_K G) k)) (G_u G ! n)) (G_x G))"
  unfolding G_consistent_def list_all_iff set_upt by auto

lemma G_consistent_value_iff:
  "G_consistent q G \<longleftrightarrow>
     (\<forall>n \<le> G_T G. \<forall>k < G_M G + 2.
        FunctionalG_value q n k G
          = q (np_mul (np_mul (G_r G) (column (G_K G) k)) (G_u G ! n)) (G_x G))"
  unfolding G_consistent_iff FunctionalG_value_def by auto

lemma G_consistent_values:
  assumes "G_consistent q G" "n \<le> G_T G"
  shows "FunctionalG_values q n G
         = map (\<lambda>k. q (np_mul (np_mul (G_r G) (column (G_K G) k)) (G_u G ! n)) (G_x G))
               [0..<G_M G + 2]"
proof -
  have v: "FunctionalG_value q n k G
             = q (np_mul (np_mul (G_r G) (column (G_K G) k)) (G_u G ! n)) (G_x G)"
    if "k < G_M G + 2" for k
    using assms that unfolding G_consistent_value_iff by blast
  show ?thesis
    unfolding FunctionalG_values_def
    by (rule map_cong [OF refl]) (simp only: set_upt atLeastLessThan_iff v)
qed

lemma FunctionalG_call_value_kept_any:
  assumes "wf_G G" "n \<le> G_T G" "j < G_M G + 2"
  shows "FunctionalG_value q m i (snd (FunctionalG_call q n j G)) = FunctionalG_value q m i G"
proof (cases "G_mask G ! n ! j")
  case True
  then show ?thesis using assms by (simp add: FunctionalG_call_cached)
next
  case False
  have r: "in_range2 (G_matrix G) n j" "in_range2 (G_mask G) n j"
    using assms by (simp_all add: wf_G_ranges)
  have c: "snd (FunctionalG_call q n j G) =
     G\<lparr>G_quad_calls := Suc (G_quad_calls G),
       G_matrix := set_entry (G_matrix G) n j
          (q (np_mul (np_mul (G_r G) (column (G_K G) j)) (G_u G ! n)) (G_x G)),
       G_mask := set_entry (G_mask G) n j True\<rparr>"
    using assms False by (simp add: FunctionalG_call_fresh)
  show ?thesis unfolding c using False r
    by (simp add: FunctionalG_value_def set_entry_nth)
qed

lemma FunctionalG_row_value_kept:
  assumes "wf_G G" "n \<le> G_T G" "list_all (\<lambda>j. j < G_M G + 2) js"
  shows "FunctionalG_value q m i (snd (FunctionalG_row q n js G)) = FunctionalG_value q m i G"
  using assms
proof (induction js arbitrary: G)
  case Nil
  then show ?case by simp
next
  case (Cons j js)
  let ?G1 = "snd (FunctionalG_call q n j G)"
  have j: "j < G_M G + 2" and js: "list_all (\<lambda>j. j < G_M G + 2) js"
    using Cons.prems(3) by simp_all
  obtain G1 where c: "FunctionalG_call q n j G = (Inr (FunctionalG_value q n j G), G1)"
    using FunctionalG_call_value [OF Cons.prems(1,2) j, of q]
    by (metis prod.collapse)
  have G1: "?G1 = G1" by (simp add: c)
  note fr = FunctionalG_call_frame [of q n j G]
  have w1: "wf_G ?G1" using Cons.prems(1) by (rule FunctionalG_call_wf)
  have ih: "FunctionalG_value q m i (snd (FunctionalG_row q n js ?G1))
              = FunctionalG_value q m i ?G1"
    using w1 Cons.prems(2) js fr by (intro Cons.IH) simp_all
  have k: "FunctionalG_value q m i ?G1 = FunctionalG_value q m i G"
    by (rule FunctionalG_call_value_kept_any [OF Cons.prems(1,2) j])
  have s: "snd (FunctionalG_row q n (j # js) G) = snd (FunctionalG_row q n js G1)"
    by (simp add: c split: prod.splits sum.splits)
  show ?case unfolding s using ih k unfolding G1 by simp
qed

lemma FunctionalG_getitem_consistent:
  assumes "wf_G G" "n \<le> G_T G" "G_consistent q G"
  shows "G_consistent q (snd (FunctionalG_getitem q n G))"
proof -
  let ?G' = "snd (FunctionalG_getitem q n G)"
  note fr = FunctionalG_getitem_values [OF assms(1,2), of q]
  have k: "FunctionalG_value q m i ?G' = FunctionalG_value q m i G" for m i
    unfolding FunctionalG_getitem_def
    using assms(1,2) by (intro FunctionalG_row_value_kept) (simp_all add: list_all_iff)
  show ?thesis
    using assms(3) fr unfolding G_consistent_value_iff k by simp
qed

lemma G_consistent_actualize:
  assumes "wf_G G" "m \<le> G_T G" "G_consistent q G"
  shows "G_consistent q
           (G\<lparr>G_u := (G_u G)[m := row], G_mask := update_mask_row m False (G_mask G)\<rparr>)"
proof -
  let ?G' = "G\<lparr>G_u := (G_u G)[m := row], G_mask := update_mask_row m False (G_mask G)\<rparr>"
  have l: "m < length (G_mask G)" "length (G_mask G ! m) = G_M G + 2"
    using assms(1,2) by (simp_all add: wf_G_ranges)
  have "G_matrix ?G' ! n ! k
          = q (np_mul (np_mul (G_r ?G') (column (G_K ?G') k)) (G_u ?G' ! n)) (G_x ?G')"
    if h: "n \<le> G_T ?G'" "k < G_M ?G' + 2" "G_mask ?G' ! n ! k" for n k
  proof (cases "n = m")
    case True
    have mm: "G_mask ?G' ! m = replicate (G_M G + 2) False"
      using l by (simp add: update_mask_row_nth)
    have kb: "k < G_M G + 2" using h(2) by simp
    have "\<not> replicate (G_M G + 2) False ! k" using kb by (metis nth_replicate)
    then have "\<not> G_mask ?G' ! n ! k" using mm True by metis
    then show ?thesis using h(3) by blast
  next
    case False
    have e: "G_mask ?G' ! n = G_mask G ! n" "G_u ?G' ! n = G_u G ! n"
      using l False by (simp_all add: update_mask_row_nth)
    have "G_matrix G ! n ! k
            = q (np_mul (np_mul (G_r G) (column (G_K G) k)) (G_u G ! n)) (G_x G)"
      using assms(3) h unfolding G_consistent_iff e by simp
    then show ?thesis unfolding e by simp
  qed
  then show ?thesis unfolding G_consistent_iff by blast
qed

section \<open>One iteration of the driver loop\<close>

lemma not_calculated_cleared:
  assumes "m < length M" "0 < length (M ! m)"
  shows "\<not> is_row_calculated m (update_mask_row m False M)"
  using assms by (auto simp: is_row_calculated_def update_mask_row_def list_all_length)

lemma is_row_calculated_other:
  assumes "m \<noteq> k"
  shows "is_row_calculated m (update_mask_row k v M) = is_row_calculated m M"
  using assms by (simp add: is_row_calculated_def update_mask_row_def)

lemma driver_ready_rows:
  assumes "driver_ready q n d" "n < m" "m \<le> U_T (drv_u d)"
  shows "\<not> is_row_calculated m (U_mask (drv_u d))"
proof -
  have "\<forall>k \<in> set [n + 1..<U_T (drv_u d) + 1]. \<not> is_row_calculated k (U_mask (drv_u d))"
    using assms(1) unfolding driver_ready_def list_all_iff by blast
  moreover have "m \<in> set [n + 1..<U_T (drv_u d) + 1]"
    using assms(2,3) by (simp only: set_upt atLeastLessThan_iff) arith
  ultimately show ?thesis by blast
qed

lemma driver_ready_intro:
  assumes "wf_U (drv_u d)" "wf_R (drv_R d)" "U_N (drv_u d) = R_N (drv_R d)"
    "U_M (drv_u d) = R_M (drv_R d)" "U_T (drv_u d) = R_T (drv_R d)"
    "\<And>m. n < m \<Longrightarrow> m \<le> U_T (drv_u d) \<Longrightarrow> \<not> is_row_calculated m (U_mask (drv_u d))"
    "U_h1 (drv_u d) \<noteq> 0" "G_consistent q (R_G (drv_R d))"
    "G_u (R_G (drv_R d)) = R_u (drv_R d)" "R_u (drv_R d) ! n = U_u (drv_u d) ! n"
  shows "driver_ready q n d"
proof -
  have "\<forall>k \<in> set [n + 1..<U_T (drv_u d) + 1]. \<not> is_row_calculated k (U_mask (drv_u d))"
  proof
    fix k assume "k \<in> set [n + 1..<U_T (drv_u d) + 1]"
    then have "n < k" "k \<le> U_T (drv_u d)"
      by (simp_all only: set_upt atLeastLessThan_iff) arith+
    then show "\<not> is_row_calculated k (U_mask (drv_u d))" by (rule assms(6))
  qed
  then show ?thesis using assms(1-5,7-10) unfolding driver_ready_def list_all_iff by blast
qed

lemma solve_perthame_iteration_ok:
  fixes q :: quadrature and cls :: solver_R_class and n :: nat and d :: driver
  assumes rdy: "driver_ready q n d" and nT: "n < U_T (drv_u d)"
  defines "u0 \<equiv> drv_u d" and "R0 \<equiv> drv_R d"
  defines "R_n \<equiv> R_R R0 ! n"
  defines "F_n \<equiv> map (\<lambda>j. q (np_mul (F_K (U_F u0) ! j) R_n) (F_y (U_F u0))) [0..<U_N u0 + 2]"
  defines "u_np1 \<equiv> dot (transition_operator (U_N u0) (U_eps u0 * U_dt u0 / (U_h1 u0)\<^sup>2)
                            (U_dt u0) (U_m_1 u0) (U_r u0) F_n) (U_u u0 ! n)"
  defines "G_np1 \<equiv> map (\<lambda>k. q (np_mul (np_mul (G_r (R_G R0)) (column (G_K (R_G R0)) k)) u_np1)
                              (G_x (R_G R0))) [0..<R_M R0 + 2]"
  defines "G_n \<equiv> map (\<lambda>k. q (np_mul (np_mul (G_r (R_G R0)) (column (G_K (R_G R0)) k))
                                      (U_u u0 ! n))
                            (G_x (R_G R0))) [0..<R_M R0 + 2]"
  defines "R_np1 \<equiv> (case cls of
       SolverRMethod1 \<Rightarrow>
         np_add (np_mul (scalar_sub 1 (scalar_mul (R_dt R0) (np_add (R_m_2 R0) G_n))) R_n)
                (scalar_mul (R_dt R0) (R_R_in R0))
     | SolverRMethod2 \<Rightarrow> np_div (R_R_in R0) (np_add (R_m_2 R0) G_np1))"
  defines "d' \<equiv> snd (solve_perthame_iteration q cls n d)"
  shows "fst (solve_perthame_iteration q cls n d) = Inr ()
       \<and> drv_calls d' = drv_calls d @ iteration_calls n
       \<and> U_u (drv_u d') = (U_u u0)[n + 1 := u_np1]
       \<and> R_R (drv_R d') = (R_R R0)[n + 1 := R_np1]
       \<and> R_u (drv_R d') = (R_u R0)[n + 1 := u_np1]
       \<and> U_R (drv_u d') = (U_R u0)[n := R_n]
       \<and> U_T (drv_u d') = U_T u0
       \<and> driver_ready q (n + 1) d'"
proof -
  have wU: "wf_U u0" and wR: "wf_R R0"
    and dims: "U_N u0 = R_N R0" "U_M u0 = R_M R0" "U_T u0 = R_T R0"
    and h1: "U_h1 u0 \<noteq> 0" and cons: "G_consistent q (R_G R0)"
    and gu: "G_u (R_G R0) = R_u R0" and ru: "R_u R0 ! n = U_u u0 ! n"
    using rdy by (simp_all add: driver_ready_def u0_def R0_def)
  have n: "n \<le> U_T u0" "n + 1 \<le> U_T u0" "n \<le> R_T R0" "n + 1 \<le> R_T R0" "n < U_T u0"
    "n < R_T R0"
    using nT dims by (simp_all add: u0_def)
  have nc0: "\<not> is_row_calculated (n + 1) (U_mask u0)"
    using driver_ready_rows [OF rdy, of "n + 1"] nT by (simp add: u0_def)
  \<comment> \<open>\<^verbatim>\<open>R[n]\<close>\<close>
  have g0: "SolverR_getitem n R0 = Inr R_n"
    using wR n by (simp add: SolverR_getitem_def R_n_def wf_R_ranges)
  have lRn: "length R_n = U_M u0 + 2"
    using wR n dims by (simp add: R_n_def wf_R_ranges)
  \<comment> \<open>\<^verbatim>\<open>u.actualize_row(R[n], n)\<close>\<close>
  define u1 where "u1 = u0\<lparr>U_R := (U_R u0)[n := R_n],
               U_F := (U_F u0)\<lparr>F_R := (F_R (U_F u0))[n := R_n],
                               F_mask := update_mask_row n False (F_mask (U_F u0))\<rparr>,
               U_mask := update_mask_row n False (U_mask u0)\<rparr>"
  have a1: "SolverU_actualize_row R_n n u0 = (Inr (), u1)"
    unfolding u1_def by (rule SolverU_actualize_row_ok [OF wU n(1) lRn])
  have wU1: "wf_U u1"
    using SolverU_actualize_row_wf [OF wU n(1) lRn, unfolded a1 snd_conv] .
  have f1: "U_N u1 = U_N u0" "U_M u1 = U_M u0" "U_T u1 = U_T u0" "U_u u1 = U_u u0"
    "U_eps u1 = U_eps u0" "U_dt u1 = U_dt u0" "U_h1 u1 = U_h1 u0" "U_m_1 u1 = U_m_1 u0"
    "U_r u1 = U_r u0" "U_R u1 = (U_R u0)[n := R_n]"
    "U_mask u1 = update_mask_row n False (U_mask u0)"
    by (simp_all add: u1_def)
  have nc1: "\<not> is_row_calculated (n + 1) (U_mask u1)"
    using nc0 by (simp add: f1 is_row_calculated_other)
  have wF0: "wf_F (U_F u0)" "n \<le> F_T (U_F u0)" "F_N (U_F u0) = U_N u0"
    using wU n by (simp_all add: wf_U_ranges)
  have v1: "FunctionalF_values q n (U_F u1) = F_n"
    unfolding F_n_def wF0(3) [symmetric]
    using FunctionalF_values_fresh [OF wF0(1,2), of q R_n] by (simp add: u1_def)
  \<comment> \<open>\<^verbatim>\<open>u.actualize_step_np1(n)\<close>\<close>
  define u2 where "u2 = snd (SolverU_actualize_step_np1 q n u1)"
  have n1: "n < U_T u1" using n by (simp add: f1)
  note s1 = SolverU_actualize_step_np1_ok [OF wU1 n1 nc1, of q, unfolded v1 f1]
  have a2: "SolverU_actualize_step_np1 q n u1 = (Inr u_np1, u2)"
    unfolding u2_def s1 u_np1_def by simp
  have wU2: "wf_U u2"
    unfolding u2_def by (rule SolverU_actualize_step_np1_wf [OF wU1 n1 nc1])
  have f2: "U_N u2 = U_N u0" "U_M u2 = U_M u0" "U_T u2 = U_T u0"
    "U_u u2 = (U_u u0)[n + 1 := u_np1]" "U_R u2 = (U_R u0)[n := R_n]" "U_h1 u2 = U_h1 u0"
    "U_mask u2 = update_mask_row (n + 1) True (update_mask_row n False (U_mask u0))"
    unfolding u2_def s1 u_np1_def snd_conv by (simp_all add: f1)
  have lu: "length (U_u u0) = U_T u0 + 1" using wU by (simp add: wf_U_ranges)
  have g2: "SolverU_getitem (n + 1) u2 = Inr u_np1"
    using n lu by (simp add: SolverU_getitem_def f2)
  have lnp1: "length u_np1 = R_N R0 + 2"
    by (simp add: u_np1_def dims)
  \<comment> \<open>\<^verbatim>\<open>R.actualize_row(u[n + 1], n + 1)\<close>\<close>
  define R1 where "R1 = R0\<lparr>R_u := (R_u R0)[n + 1 := u_np1],
               R_G := (R_G R0)\<lparr>G_u := (G_u (R_G R0))[n + 1 := u_np1],
                               G_mask := update_mask_row (n + 1) False (G_mask (R_G R0))\<rparr>,
               R_mask := update_mask_row (n + 1) False (R_mask R0)\<rparr>"
  have a3: "SolverR_actualize_row u_np1 (n + 1) R0 = (Inr (), R1)"
    unfolding R1_def by (rule SolverR_actualize_row_ok [OF wR n(4) lnp1])
  have wR1: "wf_R R1"
    using SolverR_actualize_row_wf [OF wR n(4) lnp1, unfolded a3 snd_conv] .
  have f3: "R_N R1 = R_N R0" "R_M R1 = R_M R0" "R_T R1 = R_T R0" "R_R R1 = R_R R0"
    "R_dt R1 = R_dt R0" "R_m_2 R1 = R_m_2 R0" "R_R_in R1 = R_R_in R0"
    "R_u R1 = (R_u R0)[n + 1 := u_np1]"
    by (simp_all add: R1_def)
  have lm: "n + 1 < length (R_mask R0)" "0 < length (R_mask R0 ! (n + 1))"
    using wR n by (simp_all add: wf_R_ranges)
  have nc3: "\<not> is_row_calculated (n + 1) (R_mask R1)"
    using not_calculated_cleared [OF lm] by (simp add: R1_def)
  have wG0: "wf_G (R_G R0)" "n + 1 \<le> G_T (R_G R0)" "G_M (R_G R0) = R_M R0"
    using wR n by (simp_all add: wf_R_ranges)
  have v3a: "FunctionalG_values q (n + 1) (R_G R1) = G_np1"
    unfolding G_np1_def wG0(3) [symmetric]
    using FunctionalG_values_fresh [OF wG0(1,2), of q u_np1] by (simp add: R1_def)
  have v3b: "FunctionalG_values q n (R_G R1) = FunctionalG_values q n (R_G R0)"
    using FunctionalG_values_other_row [OF wG0(1,2), of n q u_np1] by (simp add: R1_def)
  have nG: "n \<le> G_T (R_G R0)" using wG0(2) by simp
  have v3c: "FunctionalG_values q n (R_G R0) = G_n"
    unfolding G_n_def G_consistent_values [OF cons nG] gu ru wG0(3) ..
  have G1: "R_G R1 = (R_G R0)\<lparr>G_u := (G_u (R_G R0))[n + 1 := u_np1],
                               G_mask := update_mask_row (n + 1) False (G_mask (R_G R0))\<rparr>"
    by (simp add: R1_def)
  have cons1: "G_consistent q (R_G R1)"
    unfolding G1 by (rule G_consistent_actualize [OF wG0(1,2) cons])
  have wG1: "wf_G (R_G R1)" "G_T (R_G R1) = R_T R0"
    using wf_R_ranges(1,4) [OF wR1] f3(3) by simp_all
  \<comment> \<open>\<^verbatim>\<open>R.actualize_step_np1(n)\<close>\<close>
  define R2 where "R2 = snd (solver_R_actualize_step_np1 cls q n R1)"
  have n3: "n < R_T R1" using n by (simp add: f3)
  define G' where "G' = (case cls of
       SolverRMethod1 \<Rightarrow> snd (FunctionalG_getitem q n (R_G R1))
     | SolverRMethod2 \<Rightarrow> snd (FunctionalG_getitem q (n + 1) (R_G R1)))"
  have s4: "solver_R_actualize_step_np1 cls q n R1 =
      (Inr R_np1, R1\<lparr>R_G := G', R_R := (R_R R0)[n + 1 := R_np1],
                     R_mask := update_mask_row (n + 1) True (R_mask R1)\<rparr>)"
  proof (cases cls)
    case SolverRMethod1
    have "SolverRMethod1_actualize_step_np1 q n R1 =
      (Inr R_np1, R1\<lparr>R_G := G', R_R := (R_R R0)[n + 1 := R_np1],
                     R_mask := update_mask_row (n + 1) True (R_mask R1)\<rparr>)"
      unfolding SolverRMethod1_actualize_step_np1_ok [OF wR1 n3 nc3] v3b v3c f3
      by (simp add: R_np1_def R_n_def G'_def SolverRMethod1)
    then show ?thesis by (simp add: SolverRMethod1)
  next
    case SolverRMethod2
    have "SolverRMethod2_actualize_step_np1 q n R1 =
      (Inr R_np1, R1\<lparr>R_G := G', R_R := (R_R R0)[n + 1 := R_np1],
                     R_mask := update_mask_row (n + 1) True (R_mask R1)\<rparr>)"
      unfolding SolverRMethod2_actualize_step_np1_ok [OF wR1 n3 nc3] v3a f3
      by (simp add: R_np1_def G'_def SolverRMethod2)
    then show ?thesis by (simp add: SolverRMethod2)
  qed
  have a4: "solver_R_actualize_step_np1 cls q n R1 = (Inr R_np1, R2)"
    unfolding R2_def s4 by simp
  have wR2: "wf_R R2"
  proof (cases cls)
    case SolverRMethod1
    show ?thesis unfolding R2_def SolverRMethod1 solver_R_actualize_step_np1.simps
      by (rule SolverRMethod1_actualize_step_np1_wf [OF wR1 n3 nc3])
  next
    case SolverRMethod2
    show ?thesis unfolding R2_def SolverRMethod2 solver_R_actualize_step_np1.simps
      by (rule SolverRMethod2_actualize_step_np1_wf [OF wR1 n3 nc3])
  qed
  have f4: "R_N R2 = R_N R0" "R_M R2 = R_M R0" "R_T R2 = R_T R0"
     "R_R R2 = (R_R R0)[n + 1 := R_np1]" "R_u R2 = (R_u R0)[n + 1 := u_np1]"
     "R_G R2 = G'"
    unfolding R2_def s4 snd_conv by (simp_all add: f3)
  have G'p: "G_consistent q G' \<and> G_u G' = G_u (R_G R1)"
  proof (cases cls)
    case SolverRMethod1
    have m: "n \<le> G_T (R_G R1)" using wG1(2) n by simp
    show ?thesis
      unfolding G'_def SolverRMethod1 solver_R_class.case
      using FunctionalG_getitem_consistent [OF wG1(1) m cons1]
            FunctionalG_getitem_values [OF wG1(1) m, of q] by blast
  next
    case SolverRMethod2
    have m: "n + 1 \<le> G_T (R_G R1)" using wG1(2) n by simp
    show ?thesis
      unfolding G'_def SolverRMethod2 solver_R_class.case
      using FunctionalG_getitem_consistent [OF wG1(1) m cons1]
            FunctionalG_getitem_values [OF wG1(1) m, of q] by blast
  qed
  have cons2: "G_consistent q (R_G R2)" unfolding f4 using G'p by blast
  have gu2: "G_u (R_G R2) = R_u R2"
    unfolding f4 using G'p by (simp add: G1 gu)
  have lR: "length (R_u R0) = R_T R0 + 1" using wR by (simp add: wf_R_ranges)
  have ru2: "R_u R2 ! (n + 1) = U_u u2 ! (n + 1)"
    unfolding f4 f2 using n lu lR by simp
  \<comment> \<open>the iteration\<close>
  have it: "solve_perthame_iteration q cls n d =
      (Inr (), d\<lparr>drv_calls := drv_calls d @ iteration_calls n, drv_u := u2, drv_R := R2\<rparr>)"
    unfolding solve_perthame_iteration_def
    using g0 a1 a2 g2 a3 a4
    by (simp add: Let_def iteration_calls_def u0_def [symmetric] R0_def [symmetric])
  have rest: "\<not> is_row_calculated m (U_mask u2)" if "n + 1 < m" "m \<le> U_T u2" for m
  proof -
    have "\<not> is_row_calculated m (U_mask u0)"
      using driver_ready_rows [OF rdy, of m] that by (simp add: u0_def f2)
    then show ?thesis using that by (simp add: f2 is_row_calculated_other)
  qed
  have "driver_ready q (n + 1) d'"
    unfolding d'_def it snd_conv
    using wU2 wR2 dims f2(1-3) f4(1-3) rest h1 f2(6) cons2 gu2 ru2
    by (intro driver_ready_intro) simp_all
  then show ?thesis
    unfolding d'_def it using f2(1-5) f4(1-5) by (simp add: d'_def it)
qed

lemma solve_perthame_loop_append:
  "solve_perthame_loop q cls (xs @ ys) d =
     (case solve_perthame_loop q cls xs d of
        (Inl e, d1) \<Rightarrow> (Inl e, d1)
      | (Inr v, d1) \<Rightarrow> solve_perthame_loop q cls ys d1)"
  by (induction xs arbitrary: d) (simp_all split: prod.splits sum.splits)

text \<open>
  With the explicit scheme, whose only quotient is by \<open>h1\<^sup>2\<close>, the loop reaches every
  iteration \<open>n \<le> T\<close> in a state that is ready for it.
\<close>

lemma solve_perthame_loop_prefix:
  assumes "driver_ready q 0 d" "n \<le> U_T (drv_u d)"
  shows "fst (solve_perthame_loop q SolverRMethod1 [0..<n] d) = Inr ()
       \<and> driver_ready q n (snd (solve_perthame_loop q SolverRMethod1 [0..<n] d))
       \<and> U_T (drv_u (snd (solve_perthame_loop q SolverRMethod1 [0..<n] d))) = U_T (drv_u d)
       \<and> drv_calls (snd (solve_perthame_loop q SolverRMethod1 [0..<n] d))
           = drv_calls d @ concat (map iteration_calls [0..<n])"
  using assms(2)
proof (induction n)
  case 0
  then show ?case using assms(1) by simp
next
  case (Suc n)
  obtain r d1 where l: "solve_perthame_loop q SolverRMethod1 [0..<n] d = (r, d1)"
    by (cases "solve_perthame_loop q SolverRMethod1 [0..<n] d")
  have ih: "r = Inr ()" "driver_ready q n d1" "U_T (drv_u d1) = U_T (drv_u d)"
    "drv_calls d1 = drv_calls d @ concat (map iteration_calls [0..<n])"
    using Suc by (simp_all add: l)
  have n: "n < U_T (drv_u d1)" using Suc.prems ih(3) by simp
  note it = solve_perthame_iteration_ok [OF ih(2) n, of SolverRMethod1]
  obtain r2 d2 where i: "solve_perthame_iteration q SolverRMethod1 n d1 = (r2, d2)"
    by (cases "solve_perthame_iteration q SolverRMethod1 n d1")
  have f: "r2 = Inr ()" "drv_calls d2 = drv_calls d1 @ iteration_calls n"
    "U_T (drv_u d2) = U_T (drv_u d1)" "driver_ready q (n + 1) d2"
    using it by (simp_all add: i)
  have "solve_perthame_loop q SolverRMethod1 [0..<Suc n] d = (Inr (), d2)"
    by (simp add: solve_perthame_loop_append l ih(1) i f(1))
  then show ?case using f ih by simp
qed

section \<open>The driver on constructed solvers\<close>

lemma wf_matrix_initial_field:
  "length v = c \<Longrightarrow> wf_matrix (T + 1) c (initial_field T c v)"
  by (simp add: wf_matrix_def initial_field_def list_all_length nth_Cons')

lemma wf_matrix_replicate: "wf_matrix r c (replicate r (replicate c x))"
  by (simp add: wf_matrix_def list_all_length)

lemma wf_matrix_create_mask: "wf_matrix r c (create_mask r c)"
  by (simp add: create_mask_def wf_matrix_replicate)

lemma mesh_points_length: "length (mesh_points a b k) = k"
  by (simp add: mesh_points_def)

lemma initial_mask_rows:
  assumes "0 < m" "m < rows"
  shows "\<not> is_row_calculated m (update_mask_row 0 True (create_mask rows (c + 2)))"
  using assms
  by (simp add: is_row_calculated_def update_mask_row_def create_mask_def)

lemma AbstractDiscreteFunction_init_mesh:
  assumes "AbstractDiscreteFunction_init cfg = Inr m"
  shows "length (mesh_x m) = mesh_N m + 2" "length (mesh_y m) = mesh_M m + 2"
  using assms
  by (auto simp: AbstractDiscreteFunction_init_def Let_def mesh_points_length split: if_splits)

lemma FunctionalF_init_wf:
  assumes "FunctionalF_init K R_0 m = Inr F" "length (mesh_y m) = mesh_M m + 2"
  shows "wf_F F \<and> F_N F = mesh_N m \<and> F_M F = mesh_M m \<and> F_T F = mesh_T m"
proof -
  have c: "wf_matrix (mesh_N m + 2) (mesh_M m + 2) K" "length R_0 = mesh_M m + 2"
    and F: "F = \<lparr>F_N = mesh_N m, F_M = mesh_M m, F_T = mesh_T m, F_y = mesh_y m, F_K = K,
                F_R = initial_field (mesh_T m) (mesh_M m + 2) R_0,
                F_matrix = replicate (mesh_T m + 1) (replicate (mesh_N m + 2) 0),
                F_mask = create_mask (mesh_T m + 1) (mesh_N m + 2),
                F_quad_calls = 0\<rparr>"
    using assms(1) by (auto simp: FunctionalF_init_def split: if_splits)
  show ?thesis
    unfolding F wf_F_def
    using c assms(2) wf_matrix_initial_field [OF c(2), of "mesh_T m"]
      wf_matrix_replicate [of "mesh_T m + 1" "mesh_N m + 2" "0::real"]
      wf_matrix_create_mask [of "mesh_T m + 1" "mesh_N m + 2"]
    by simp
qed

lemma FunctionalG_init_wf:
  assumes "FunctionalG_init r K u_0 m = Inr G" "length (mesh_x m) = mesh_N m + 2"
  shows "wf_G G \<and> G_N G = mesh_N m \<and> G_M G = mesh_M m \<and> G_T G = mesh_T m
       \<and> G_u G = initial_field (mesh_T m) (mesh_N m + 2) u_0
       \<and> G_mask G = create_mask (mesh_T m + 1) (mesh_M m + 2)"
proof -
  have c: "wf_matrix (mesh_N m + 2) (mesh_M m + 2) K" "length u_0 = mesh_N m + 2"
      "length r = mesh_N m + 2"
    and G: "G = \<lparr>G_N = mesh_N m, G_M = mesh_M m, G_T = mesh_T m, G_x = mesh_x m, G_r = r,
                G_K = K,
                G_u = initial_field (mesh_T m) (mesh_N m + 2) u_0,
                G_matrix = replicate (mesh_T m + 1) (replicate (mesh_M m + 2) 0),
                G_mask = create_mask (mesh_T m + 1) (mesh_M m + 2),
                G_quad_calls = 0\<rparr>"
    using assms(1) by (auto simp: FunctionalG_init_def split: if_splits)
  show ?thesis
    unfolding G wf_G_def
    using c assms(2) wf_matrix_initial_field [OF c(2), of "mesh_T m"]
      wf_matrix_replicate [of "mesh_T m + 1" "mesh_M m + 2" "0::real"]
      wf_matrix_create_mask [of "mesh_T m + 1" "mesh_M m + 2"]
    by simp
qed

lemma SolverU_init_wf:
  assumes "SolverU_init m_1 eps r K u_0 R_0 cfg = Inr u"
  obtains m where "AbstractDiscreteFunction_init cfg = Inr m" "wf_U u"
    "U_N u = mesh_N m" "U_M u = mesh_M m" "U_T u = mesh_T m"
    "U_mask u = update_mask_row 0 True (create_mask (mesh_T m + 1) (mesh_N m + 2))"
    "U_u u = initial_field (mesh_T m) (mesh_N m + 2) u_0" "U_h1 u = mesh_h1 m"
proof -
  obtain m where m: "AbstractDiscreteFunction_init cfg = Inr m"
    using assms by (cases "AbstractDiscreteFunction_init cfg") (simp_all add: SolverU_init_def)
  have l: "length r = mesh_N m + 2" "length u_0 = mesh_N m + 2" "length m_1 = mesh_N m + 2"
    using assms by (simp_all add: SolverU_init_def m split: if_splits)
  obtain F where F: "FunctionalF_init K R_0 m = Inr F"
    using assms by (cases "FunctionalF_init K R_0 m") (simp_all add: SolverU_init_def m split: if_splits)
  have c: "wf_matrix (mesh_N m + 2) (mesh_M m + 2) K" "length R_0 = mesh_M m + 2"
    using F by (auto simp: FunctionalF_init_def split: if_splits)
  have u: "u = \<lparr>U_N = mesh_N m, U_M = mesh_M m, U_T = mesh_T m, U_dt = mesh_dt m,
                   U_h1 = mesh_h1 m, U_m_1 = m_1, U_eps = eps, U_r = r, U_K = K,
                   U_u = initial_field (mesh_T m) (mesh_N m + 2) u_0,
                   U_R = initial_field (mesh_T m) (mesh_M m + 2) R_0,
                   U_F = F,
                   U_mask = update_mask_row 0 True (create_mask (mesh_T m + 1) (mesh_N m + 2)),
                   U_current_step = 0\<rparr>"
    using assms l by (simp add: SolverU_init_def m F split: if_splits)
  note wF = FunctionalF_init_wf [OF F AbstractDiscreteFunction_init_mesh(2) [OF m]]
  have "wf_U u"
    unfolding u wf_U_def
    using wF l c wf_matrix_initial_field [OF l(2), of "mesh_T m"]
      wf_matrix_initial_field [OF c(2), of "mesh_T m"]
      wf_matrix_update_mask_row [OF wf_matrix_create_mask [of "mesh_T m + 1" "mesh_N m + 2"], of 0 True]
    by simp
  then show ?thesis using that [OF m] u by simp
qed

lemma SolverR_init_wf:
  assumes "SolverR_init m_2 R_in r K u_0 R_0 cfg = Inr R"
  obtains m where "AbstractDiscreteFunction_init cfg = Inr m" "wf_R R"
    "R_N R = mesh_N m" "R_M R = mesh_M m" "R_T R = mesh_T m"
    "R_u R = initial_field (mesh_T m) (mesh_N m + 2) u_0"
    "G_u (R_G R) = initial_field (mesh_T m) (mesh_N m + 2) u_0"
    "G_mask (R_G R) = create_mask (mesh_T m + 1) (mesh_M m + 2)"
proof -
  obtain m where m: "AbstractDiscreteFunction_init cfg = Inr m"
    using assms by (cases "AbstractDiscreteFunction_init cfg") (simp_all add: SolverR_init_def)
  have l: "length R_0 = mesh_M m + 2" "length m_2 = mesh_M m + 2" "length R_in = mesh_M m + 2"
    using assms by (simp_all add: SolverR_init_def m split: if_splits)
  obtain G where G: "FunctionalG_init r K u_0 m = Inr G"
    using assms by (cases "FunctionalG_init r K u_0 m") (simp_all add: SolverR_init_def m split: if_splits)
  have c: "wf_matrix (mesh_N m + 2) (mesh_M m + 2) K" "length u_0 = mesh_N m + 2"
    "length r = mesh_N m + 2"
    using G by (auto simp: FunctionalG_init_def split: if_splits)
  have R: "R = \<lparr>R_N = mesh_N m, R_M = mesh_M m, R_T = mesh_T m, R_dt = mesh_dt m,
                   R_m_2 = m_2, R_R_in = R_in, R_r = r, R_K = K,
                   R_u = initial_field (mesh_T m) (mesh_N m + 2) u_0,
                   R_R = initial_field (mesh_T m) (mesh_M m + 2) R_0,
                   R_G = G,
                   R_mask = update_mask_row 0 True (create_mask (mesh_T m + 1) (mesh_M m + 2)),
                   R_current_step = 0\<rparr>"
    using assms l by (simp add: SolverR_init_def m G split: if_splits)
  note wG = FunctionalG_init_wf [OF G AbstractDiscreteFunction_init_mesh(1) [OF m]]
  have "wf_R R"
    unfolding R wf_R_def
    using wG l c wf_matrix_initial_field [OF c(2), of "mesh_T m"]
      wf_matrix_initial_field [OF l(1), of "mesh_T m"]
      wf_matrix_update_mask_row [OF wf_matrix_create_mask [of "mesh_T m + 1" "mesh_M m + 2"], of 0 True]
    by simp
  then show ?thesis using that [OF m] R wG by simp
qed

lemma G_consistent_create_mask:
  assumes "G_mask G = create_mask (G_T G + 1) (G_M G + 2)"
  shows "G_consistent q G"
proof -
  have "\<not> G_mask G ! n ! k" if "n \<le> G_T G" "k < G_M G + 2" for n k
  proof -
    have "n < G_T G + 1" using that(1) by simp
    then have "G_mask G ! n = replicate (G_M G + 2) False"
      unfolding assms create_mask_def by (metis nth_replicate)
    then show ?thesis using that(2) by (metis nth_replicate)
  qed
  then show ?thesis unfolding G_consistent_iff by blast
qed

lemma mesh_h1_nonzero:
  assumes "AbstractDiscreteFunction_init cfg = Inr m" "fst (cfg_x_lims cfg) \<noteq> snd (cfg_x_lims cfg)"
  shows "mesh_h1 m \<noteq> 0"
  using assms
  by (auto simp: AbstractDiscreteFunction_init_def Let_def split: if_splits)

text \<open>
  The two solvers as \<^verbatim>\<open>solve_perthame\<close> constructs them, from one configuration and one
  initial population \<open>u_0\<close>, on a mesh \<open>x\<close> whose two limits differ, are ready for
  iteration 0.
\<close>

lemma constructed_driver_ready:
  assumes "SolverR_init m_2 R_in r K u_0 R_0 cfg = Inr R"
    and "SolverU_init m_1 eps r' K' u_0 R_0' cfg = Inr u"
    and "fst (cfg_x_lims cfg) \<noteq> snd (cfg_x_lims cfg)"
  shows "driver_ready q 0 \<lparr>drv_u = u, drv_R = R, drv_calls = []\<rparr>"
proof -
  obtain m where m: "AbstractDiscreteFunction_init cfg = Inr m" and wU: "wf_U u"
    and du: "U_N u = mesh_N m" "U_M u = mesh_M m" "U_T u = mesh_T m"
    and mk: "U_mask u = update_mask_row 0 True (create_mask (mesh_T m + 1) (mesh_N m + 2))"
    and uu: "U_u u = initial_field (mesh_T m) (mesh_N m + 2) u_0" and uh: "U_h1 u = mesh_h1 m"
    using assms(2) by (rule SolverU_init_wf)
  obtain m' where m': "AbstractDiscreteFunction_init cfg = Inr m'" and wR: "wf_R R"
    and dR: "R_N R = mesh_N m'" "R_M R = mesh_M m'" "R_T R = mesh_T m'"
    and Ru: "R_u R = initial_field (mesh_T m') (mesh_N m' + 2) u_0"
    and Gu: "G_u (R_G R) = initial_field (mesh_T m') (mesh_N m' + 2) u_0"
    and Gm: "G_mask (R_G R) = create_mask (mesh_T m' + 1) (mesh_M m' + 2)"
    using assms(1) by (rule SolverR_init_wf)
  have mm: "m' = m" using m m' by simp
  have h: "U_h1 u \<noteq> 0" unfolding uh by (rule mesh_h1_nonzero [OF m assms(3)])
  have "G_mask (R_G R) = create_mask (G_T (R_G R) + 1) (G_M (R_G R) + 2)"
    using Gm wf_R_ranges(3,4) [OF wR] dR by simp
  then have c: "G_consistent q (R_G R)" by (rule G_consistent_create_mask)
  have e: "G_u (R_G R) = R_u R" using Gu Ru by simp
  have z: "R_u R ! 0 = U_u u ! 0" using Ru uu mm by (simp add: initial_field_def)
  show ?thesis
  proof (rule driver_ready_intro)
    fix k assume "0 < k" "k \<le> U_T (drv_u \<lparr>drv_u = u, drv_R = R, drv_calls = []\<rparr>)"
    then have "0 < k" "k < mesh_T m + 1" using du by simp_all
    then show "\<not> is_row_calculated k (U_mask (drv_u \<lparr>drv_u = u, drv_R = R, drv_calls = []\<rparr>))"
      using initial_mask_rows [of k "mesh_T m + 1" "mesh_N m"] by (simp add: mk)
  qed (use wU wR du dR mm h c e z in simp_all)
qed

text \<open>
  With the explicit scheme, the default, whose only quotient is by \<open>h1\<^sup>2\<close>, every
  iteration of the loop on the constructed solvers is reached and succeeds.
\<close>

lemma constructed_loop_runs:
  assumes "SolverR_init m_2 R_in r K u_0 R_0 cfg = Inr R"
    and "SolverU_init m_1 eps r' K' u_0 R_0' cfg = Inr u"
    and "fst (cfg_x_lims cfg) \<noteq> snd (cfg_x_lims cfg)"
  shows "fst (solve_perthame_loop q SolverRMethod1 [0..<U_T u]
                \<lparr>drv_u = u, drv_R = R, drv_calls = []\<rparr>)
           = Inr ()
       \<and> drv_calls (snd (solve_perthame_loop q SolverRMethod1 [0..<U_T u]
                            \<lparr>drv_u = u, drv_R = R, drv_calls = []\<rparr>))
           = concat (map iteration_calls [0..<U_T u])"
  using solve_perthame_loop_prefix [OF constructed_driver_ready [OF assms], of "U_T u"]
  by simp

section \<open>The order of the calls and the dependency of the rows\<close>

text \<open>
  Claim C3, as the code has it. Take the two solvers as they are when iteration \<open>n < T\<close>
  of the loop of \<^verbatim>\<open>solve_perthame\<close> starts (\<open>driver_ready\<close>: the constructed solvers are so
  for \<open>n = 0\<close>, by \<open>constructed_driver_ready\<close>, and the iteration leaves them so for
  \<open>n + 1\<close>). The iteration succeeds and performs exactly these four calls in this order:
  \<^verbatim>\<open>u.actualize_row(R[n], n)\<close>, \<^verbatim>\<open>u.actualize_step_np1(n)\<close>,
  \<^verbatim>\<open>R.actualize_row(u[n+1], n+1)\<close>, \<^verbatim>\<open>R.actualize_step_np1(n)\<close>. The row \<open>u[n+1]\<close> is
  derived from the row \<open>R[n]\<close>: it is the transition operator, built on the integrals of
  \<open>K\<close> against \<open>R[n]\<close>, applied to \<open>u[n]\<close>. Under SolverRMethod2 the row \<open>R[n+1]\<close> is
  derived from that row \<open>u[n+1]\<close>, through the integrals of \<open>r K\<close> against it; this is
  stated where no denominator \<open>m_2 + G[n+1]\<close> is zero, so that the quotient of the reals
  is the quotient of the source. Under SolverRMethod1 the row \<open>R[n+1]\<close> is derived from
  \<open>R[n]\<close> and, through the integrals of \<open>r K\<close> against it, from the row \<open>u[n]\<close> of the
  population solver, and so not from \<open>u[n+1]\<close>.
\<close>

theorem leapfrog_iteration:
  fixes simpson :: quadrature and cls :: solver_R_class and n :: nat and d :: driver
  assumes "driver_ready simpson n d" "n < U_T (drv_u d)"
  shows
    "(let d' = snd (solve_perthame_iteration simpson cls n d);
          u = drv_u d;
          R = drv_R d;
          R_n = R_R R ! n;
          u_n = U_u u ! n;
          F_n = map (\<lambda>j. simpson (np_mul (F_K (U_F u) ! j) R_n) (F_y (U_F u))) [0..<U_N u + 2];
          u_np1 = dot (transition_operator (U_N u) (U_eps u * U_dt u / (U_h1 u)\<^sup>2) (U_dt u)
                         (U_m_1 u) (U_r u) F_n) u_n;
          G_n = map (\<lambda>k. simpson (np_mul (np_mul (G_r (R_G R)) (column (G_K (R_G R)) k)) u_n)
                             (G_x (R_G R))) [0..<R_M R + 2];
          G_np1 = map (\<lambda>k. simpson (np_mul (np_mul (G_r (R_G R)) (column (G_K (R_G R)) k)) u_np1)
                               (G_x (R_G R))) [0..<R_M R + 2]
      in fst (solve_perthame_iteration simpson cls n d) = Inr ()
         \<and> drv_calls d' = drv_calls d @
              [Call_u_actualize_row n, Call_u_actualize_step_np1 n,
               Call_R_actualize_row (n + 1), Call_R_actualize_step_np1 n]
         \<and> U_R (drv_u d') ! n = R_n
         \<and> U_u (drv_u d') ! (n + 1) = u_np1
         \<and> R_u (drv_R d') ! (n + 1) = u_np1
         \<and> (cls = SolverRMethod2 \<and> list_all (\<lambda>v. v \<noteq> 0) (np_add (R_m_2 R) G_np1) \<longrightarrow>
               R_R (drv_R d') ! (n + 1) = np_div (R_R_in R) (np_add (R_m_2 R) G_np1))
         \<and> (cls = SolverRMethod1 \<longrightarrow>
               R_R (drv_R d') ! (n + 1) =
                 np_add (np_mul (scalar_sub 1 (scalar_mul (R_dt R) (np_add (R_m_2 R) G_n))) R_n)
                        (scalar_mul (R_dt R) (R_R_in R)))
         \<and> driver_ready simpson (n + 1) d')"
proof -
  note it = solve_perthame_iteration_ok [OF assms, of cls]
  have l: "n + 1 < length (U_u (drv_u d))" "n + 1 < length (R_R (drv_R d))"
    "n + 1 < length (R_u (drv_R d))" "n < length (U_R (drv_u d))"
    using assms by (simp_all add: driver_ready_def wf_U_ranges wf_R_ranges)
  show ?thesis
    unfolding Let_def
    using it l by (cases cls) (simp_all add: iteration_calls_def)
qed

lemma ex_driver_ready: "driver_ready simpson_rule 0 ex_driver"
proof -
  have m: "G_mask (R_G (drv_R ex_driver))
             = create_mask (G_T (R_G (drv_R ex_driver)) + 1) (G_M (R_G (drv_R ex_driver)) + 2)"
    by (simp add: ex_driver_def ex_R_def ex_G_def create_mask_def numeral_eq_Suc)
  show ?thesis
    using wf_ex_U wf_ex_R G_consistent_create_mask [OF m, of simpson_rule]
    by (simp add: driver_ready_def ex_driver_def)
       (simp add: ex_U_def ex_R_def ex_G_def is_row_calculated_def)
qed

text \<open>
  The first iteration on the concrete solvers, under each of the two schemes:
  \<open>u[1] = (11/10, 11/10, 11/10)\<close>; SolverRMethod2 derives \<open>R[1] = 1 / (1 + 11/10)\<close> from
  it, and SolverRMethod1 derives \<open>R[1] = (1 - (1 + 1)/10) + 1/10\<close> from \<open>u[0] = (1, 1, 1)\<close>.
\<close>

theorem leapfrog_iteration_witness:
  "driver_ready simpson_rule 0 ex_driver \<and> 0 < U_T (drv_u ex_driver)
   \<and> list_all (\<lambda>v. v \<noteq> 0) (np_add (R_m_2 (drv_R ex_driver)) [11/10, 11/10, 11/10])
   \<and> fst (solve_perthame_iteration simpson_rule SolverRMethod2 0 ex_driver) = Inr ()
   \<and> drv_calls (snd (solve_perthame_iteration simpson_rule SolverRMethod2 0 ex_driver))
        = [Call_u_actualize_row 0, Call_u_actualize_step_np1 0,
           Call_R_actualize_row 1, Call_R_actualize_step_np1 0]
   \<and> U_u (drv_u (snd (solve_perthame_iteration simpson_rule SolverRMethod2 0 ex_driver))) ! 1
        = [11/10, 11/10, 11/10]
   \<and> R_u (drv_R (snd (solve_perthame_iteration simpson_rule SolverRMethod2 0 ex_driver))) ! 1
        = [11/10, 11/10, 11/10]
   \<and> R_R (drv_R (snd (solve_perthame_iteration simpson_rule SolverRMethod2 0 ex_driver))) ! 1
        = [10/21, 10/21, 10/21]
   \<and> driver_ready simpson_rule 1
        (snd (solve_perthame_iteration simpson_rule SolverRMethod2 0 ex_driver))
   \<and> fst (solve_perthame_iteration simpson_rule SolverRMethod1 0 ex_driver) = Inr ()
   \<and> drv_calls (snd (solve_perthame_iteration simpson_rule SolverRMethod1 0 ex_driver))
        = [Call_u_actualize_row 0, Call_u_actualize_step_np1 0,
           Call_R_actualize_row 1, Call_R_actualize_step_np1 0]
   \<and> U_u (drv_u (snd (solve_perthame_iteration simpson_rule SolverRMethod1 0 ex_driver))) ! 1
        = [11/10, 11/10, 11/10]
   \<and> R_R (drv_R (snd (solve_perthame_iteration simpson_rule SolverRMethod1 0 ex_driver))) ! 1
        = [9/10, 9/10, 9/10]"
proof -
  have h: "0 < U_T (drv_u ex_driver)" by (simp add: ex_driver_def ex_U_def)
  have c: "drv_calls ex_driver = []" by (simp add: ex_driver_def)
  have F: "map (\<lambda>j. simpson_rule (np_mul (F_K (U_F (drv_u ex_driver)) ! j)
                 (R_R (drv_R ex_driver) ! 0)) (F_y (U_F (drv_u ex_driver))))
             [0..<U_N (drv_u ex_driver) + 2] = [1, 1, 1]"
    by (simp add: ex_driver_def ex_U_def ex_F_def ex_R_def np_mul_def)
  have a: "U_eps (drv_u ex_driver) * U_dt (drv_u ex_driver) / (U_h1 (drv_u ex_driver))\<^sup>2 = 0"
    by (simp add: ex_driver_def ex_U_def)
  have u: "dot (transition_operator (U_N (drv_u ex_driver)) 0 (U_dt (drv_u ex_driver))
                  (U_m_1 (drv_u ex_driver)) (U_r (drv_u ex_driver)) [1, 1, 1])
               (U_u (drv_u ex_driver) ! 0) = [11/10, 11/10, 11/10]"
    by (simp add: ex_driver_def ex_U_def transition_operator_def dot_def np_mul_def)
  have G: "map (\<lambda>k. simpson_rule (np_mul (np_mul (G_r (R_G (drv_R ex_driver)))
                  (column (G_K (R_G (drv_R ex_driver))) k)) [11/10, 11/10, 11/10])
                  (G_x (R_G (drv_R ex_driver)))) [0..<R_M (drv_R ex_driver) + 2]
           = [11/10, 11/10, 11/10]"
    by (simp add: ex_driver_def ex_R_def ex_G_def np_mul_def column_def)
  have G0: "map (\<lambda>k. simpson_rule (np_mul (np_mul (G_r (R_G (drv_R ex_driver)))
                  (column (G_K (R_G (drv_R ex_driver))) k)) (U_u (drv_u ex_driver) ! 0))
                  (G_x (R_G (drv_R ex_driver)))) [0..<R_M (drv_R ex_driver) + 2]
           = [1, 1, 1]"
    by (simp add: ex_driver_def ex_U_def ex_R_def ex_G_def np_mul_def column_def)
  have R: "np_div (R_R_in (drv_R ex_driver))
             (np_add (R_m_2 (drv_R ex_driver)) [11/10, 11/10, 11/10]) = [10/21, 10/21, 10/21]"
    by (simp add: ex_driver_def ex_R_def np_div_def np_add_def)
  have R1: "np_add (np_mul (scalar_sub 1 (scalar_mul (R_dt (drv_R ex_driver))
                      (np_add (R_m_2 (drv_R ex_driver)) [1, 1, 1])))
                      (R_R (drv_R ex_driver) ! 0))
                   (scalar_mul (R_dt (drv_R ex_driver)) (R_R_in (drv_R ex_driver)))
            = [9/10, 9/10, 9/10]"
    by (simp add: ex_driver_def ex_R_def np_add_def np_mul_def scalar_sub_def scalar_mul_def)
  have nz: "list_all (\<lambda>v. v \<noteq> 0) (np_add (R_m_2 (drv_R ex_driver)) [11/10, 11/10, 11/10])"
    by (simp add: ex_driver_def ex_R_def np_add_def)
  note th2 = leapfrog_iteration [OF ex_driver_ready h, of SolverRMethod2,
               unfolded Let_def c F a u G G0 R R1]
  note th1 = leapfrog_iteration [OF ex_driver_ready h, of SolverRMethod1,
               unfolded Let_def c F a u G G0 R R1]
  show ?thesis using th2 th1 nz ex_driver_ready h by simp
qed

text \<open>
  Claim C3 as stated fails in its last part. Under SolverRMethod1, the default, two
  drivers that differ in the mortality \<open>m_1\<close> alone derive different rows \<open>u[1]\<close> and the
  same row \<open>R[1]\<close>: the row \<open>R[1]\<close> is not derived from the row \<open>u[1]\<close>.
\<close>

theorem leapfrog_iteration_counterexample:
  "drv_R ex_driver = drv_R ex_driver_mortal
   \<and> fst (solve_perthame_iteration simpson_rule SolverRMethod1 0 ex_driver) = Inr ()
   \<and> fst (solve_perthame_iteration simpson_rule SolverRMethod1 0 ex_driver_mortal) = Inr ()
   \<and> U_u (drv_u (snd (solve_perthame_iteration simpson_rule SolverRMethod1 0 ex_driver))) ! 1
        = [11/10, 11/10, 11/10]
   \<and> U_u (drv_u (snd (solve_perthame_iteration simpson_rule SolverRMethod1 0
                        ex_driver_mortal))) ! 1
        = [- (19/10), - (19/10), - (19/10)]
   \<and> R_R (drv_R (snd (solve_perthame_iteration simpson_rule SolverRMethod1 0 ex_driver))) ! 1
        = [9/10, 9/10, 9/10]
   \<and> R_R (drv_R (snd (solve_perthame_iteration simpson_rule SolverRMethod1 0
                        ex_driver_mortal))) ! 1
        = [9/10, 9/10, 9/10]"
  by (simp add: ex_driver_def ex_driver_mortal_def
     solve_perthame_iteration_def SolverR_getitem_def SolverU_getitem_def
     SolverU_actualize_row_def SolverR_actualize_row_def validate_nth_row_def
     FunctionalF_actualize_row_def FunctionalG_actualize_row_def
     SolverU_actualize_step_np1_def SolverRMethod1_actualize_step_np1_def
     ex_U_def ex_F_def ex_R_def ex_G_def is_row_calculated_def
     SolverU_create_transition_matrix_def FunctionalF_getitem_def FunctionalF_call_def
     FunctionalG_getitem_def FunctionalG_call_def column_def scalar_sub_def
     in_range2_def set_entry_def np_mul_def np_add_def np_neg_def scalar_mul_def scalar_add_def
     np_diag_def mat_add_def dot_def update_mask_row_def Let_def)

end
